(* ===== verification/Opc_Prelude.thy ===== *)
theory Opc_Prelude
  imports Main "HOL-Library.Word"
begin

text \<open>
  The types and lemmas every component shares.

  Machine integers of the source are words of their width; signed values are the
  same words read through \<^const>\<open>sint\<close>.  A fallible operation returns a value of
  \<open>'a res\<close>: the left summand is a fault, either \<open>Err\<close> with the 32-bit status code of an
  \<open>Err(StatusCode)\<close>, or \<open>Panic\<close> where the source panics (a failed \<open>assert_eq!\<close>, an
  \<open>unwrap\<close> on \<open>None\<close>, an index out of range, an arithmetic overflow), or \<open>OutOfFuel\<close>, which
  only a recursion bounded by a depth argument returns.  \<open>bindR\<close> is the \<open>?\<close> operator.

  The last part relates a word with the list of its bytes, least significant first, the
  order \<open>byteorder::LittleEndian\<close> writes.
\<close>

unbundle bit_operations_syntax

type_synonym u8 = "8 word"
type_synonym u16 = "16 word"
type_synonym u32 = "32 word"
type_synonym u64 = "64 word"

datatype fault = Err u32 | Panic | OutOfFuel

type_synonym 'a res = "fault + 'a"

named_theorems res_simps \<open>unfolding rules for computations that may fail\<close>

section \<open>Computations that may fail\<close>

definition bindR :: "'a res \<Rightarrow> ('a \<Rightarrow> 'b res) \<Rightarrow> 'b res" where
  "bindR m f = (case m of Inl e \<Rightarrow> Inl e | Inr x \<Rightarrow> f x)"

definition mapR :: "('a \<Rightarrow> 'b) \<Rightarrow> 'a res \<Rightarrow> 'b res" where
  "mapR f m = bindR m (\<lambda>x. Inr (f x))"

definition map_err :: "u32 \<Rightarrow> 'a res \<Rightarrow> 'a res" where
  "map_err c m = (case m of Inl (Err _) \<Rightarrow> Inl (Err c) | _ \<Rightarrow> m)"

definition ok_or :: "fault \<Rightarrow> 'a option \<Rightarrow> 'a res" where
  "ok_or e x = (case x of None \<Rightarrow> Inl e | Some v \<Rightarrow> Inr v)"

definition assertR :: "bool \<Rightarrow> 'a res \<Rightarrow> 'a res" where
  "assertR b m = (if b then m else Inl Panic)"

primrec is_ok :: "'a res \<Rightarrow> bool" where
  "is_ok (Inl e) = False"
| "is_ok (Inr x) = True"

section \<open>Arithmetic that panics on overflow\<close>

definition add_u32 :: "u32 \<Rightarrow> u32 \<Rightarrow> u32 res" where
  "add_u32 a b = (if unat a + unat b < 2 ^ 32 then Inr (a + b) else Inl Panic)"

definition sub_u32 :: "u32 \<Rightarrow> u32 \<Rightarrow> u32 res" where
  "sub_u32 a b = (if b \<le> a then Inr (a - b) else Inl Panic)"

section \<open>Little-endian bytes\<close>

primrec le_bytes :: "nat \<Rightarrow> 'a::len word \<Rightarrow> u8 list" where
  "le_bytes 0 w = []"
| "le_bytes (Suc n) w = ucast w # le_bytes n (drop_bit 8 w)"

primrec of_le :: "u8 list \<Rightarrow> 'a::len word" where
  "of_le [] = 0"
| "of_le (b # bs) = ucast b OR push_bit 8 (of_le bs)"

section \<open>Laws of the result type\<close>

lemma bindR_simps [simp]:
  "bindR (Inl e) f = Inl e"
  "bindR (Inr x) f = f x"
  by (simp_all add: bindR_def)

lemma bindR_assoc: "bindR (bindR m f) g = bindR m (\<lambda>x. bindR (f x) g)"
  by (cases m) simp_all

lemma bindR_eq_Inr: "bindR m f = Inr y \<longleftrightarrow> (\<exists>x. m = Inr x \<and> f x = Inr y)"
  by (cases m) simp_all

lemma bindR_eq_Inl: "bindR m f = Inl e \<longleftrightarrow> m = Inl e \<or> (\<exists>x. m = Inr x \<and> f x = Inl e)"
  by (cases m) simp_all

lemma bindR_cong [fundef_cong]:
  assumes "m = m'" and "\<And>x. m' = Inr x \<Longrightarrow> f x = f' x"
  shows "bindR m f = bindR m' f'"
  using assms by (cases m') simp_all

lemma mapR_simps [simp]:
  "mapR f (Inl e) = Inl e"
  "mapR f (Inr x) = Inr (f x)"
  by (simp_all add: mapR_def)

lemma mapR_eq_Inr: "mapR f m = Inr y \<longleftrightarrow> (\<exists>x. m = Inr x \<and> y = f x)"
  by (cases m) auto

lemma mapR_eq_Inl: "mapR f m = Inl e \<longleftrightarrow> m = Inl e"
  by (cases m) auto

lemma map_err_simps [simp]:
  "map_err c (Inr x) = Inr x"
  "map_err c (Inl (Err d)) = Inl (Err c)"
  "map_err c (Inl Panic) = Inl Panic"
  "map_err c (Inl OutOfFuel) = Inl OutOfFuel"
  by (simp_all add: map_err_def)

lemma map_err_eq_Inr [simp]: "map_err c m = Inr x \<longleftrightarrow> m = Inr x"
  by (auto simp: map_err_def split: sum.splits fault.splits)

lemma ok_or_simps [simp]:
  "ok_or e None = Inl e"
  "ok_or e (Some x) = Inr x"
  by (simp_all add: ok_or_def)

lemma ok_or_eq_Inr: "ok_or e x = Inr y \<longleftrightarrow> x = Some y"
  by (cases x) auto

lemma assertR_True [simp]: "assertR True m = m"
  by (simp add: assertR_def)

lemma assertR_False [simp]: "assertR False m = Inl Panic"
  by (simp add: assertR_def)

lemma assertR_eq_Inr: "assertR b m = Inr x \<longleftrightarrow> b \<and> m = Inr x"
  by (simp add: assertR_def)

lemma is_ok_iff: "is_ok m \<longleftrightarrow> (\<exists>x. m = Inr x)"
  by (cases m) auto

lemmas res_eqs = bindR_eq_Inr mapR_eq_Inr ok_or_eq_Inr assertR_eq_Inr

lemma unat_of_nat_u32 [simp]: "n < 4294967296 \<Longrightarrow> unat (of_nat n :: u32) = n"
  by (simp add: unat_of_nat)

lemma add_u32_of_nat: "unat a + n < 4294967296 \<Longrightarrow> add_u32 a (of_nat n) = Inr (a + of_nat n)"
  by (simp add: add_u32_def)

lemma unat_add_of_nat: "unat (a :: u32) + n < 4294967296 \<Longrightarrow> unat (a + of_nat n) = unat a + n"
  by (simp add: unat_word_ariths unat_of_nat)

lemma add_u32_eq_Inr: "add_u32 a b = Inr c \<longleftrightarrow> unat a + unat b < 4294967296 \<and> c = a + b"
  by (auto simp: add_u32_def)

lemma sub_u32_eq_Inr: "sub_u32 a b = Inr c \<longleftrightarrow> b \<le> a \<and> c = a - b"
  by (auto simp: sub_u32_def)

section \<open>Laws of the byte lists\<close>

lemma length_le_bytes [simp]: "length (le_bytes n w) = n"
  by (induction n arbitrary: w) auto

lemma of_le_le_bytes:
  "of_le (le_bytes n (w :: 'a::len word)) = take_bit (8 * n) w"
proof (induction n arbitrary: w)
  case (Suc n)
  show ?case
    by (rule bit_eqI) (auto simp: Suc.IH bit_simps not_less)
qed simp

lemma of_le_le_bytes_full [simp]:
  assumes "LENGTH('a::len) = 8 * n"
  shows "of_le (le_bytes n (w :: 'a word)) = w"
  by (simp add: of_le_le_bytes flip: assms)

lemma bit_of_le:
  "bit (of_le bs :: 'a::len word) k \<longleftrightarrow>
     k < LENGTH('a) \<and> k < 8 * length bs \<and> bit (bs ! (k div 8)) (k mod 8)"
proof (induction bs arbitrary: k)
  case (Cons b bs)
  show ?case
  proof (cases "k < 8")
    case True
    then show ?thesis by (auto simp: bit_simps Cons.IH)
  next
    case False
    then obtain j where "k = 8 + j" using le_Suc_ex not_less by blast
    moreover from this have "k div 8 = Suc (j div 8)" and "k mod 8 = j mod 8" by simp_all
    moreover have "\<not> bit b k" using False bit_imp_le_length by fastforce
    ultimately show ?thesis
      by (auto simp: bit_simps Cons.IH)
  qed
qed simp

lemma nth_le_bytes:
  "k < n \<Longrightarrow> le_bytes n (w :: 'a::len word) ! k = ucast (drop_bit (8 * k) w)"
proof (induction n arbitrary: w k)
  case (Suc n)
  then show ?case by (cases k) (simp_all add: add.commute)
qed simp

lemma le_bytes_of_le [simp]:
  assumes "LENGTH('a::len) = 8 * length bs"
  shows "le_bytes (length bs) (of_le bs :: 'a word) = bs"
proof (rule nth_equalityI)
  fix k assume "k < length (le_bytes (length bs) (of_le bs :: 'a word))"
  then have k: "k < length bs" by simp
  show "le_bytes (length bs) (of_le bs :: 'a word) ! k = bs ! k"
  proof (rule bit_word_eqI)
    fix j assume "j < LENGTH(8)"
    with k assms show "bit (le_bytes (length bs) (of_le bs :: 'a word) ! k) j = bit (bs ! k) j"
      by (simp add: nth_le_bytes bit_simps bit_of_le)
  qed
qed simp

lemma sint_of_nat_i32 [simp]: "n < 2 ^ 31 \<Longrightarrow> sint (of_nat n :: 32 word) = int n"
  by (simp add: signed_of_nat signed_take_bit_int_eq_self)

end
