(* ===== verification/Opc_Status.thy ===== *)
theory Opc_Status
  imports Opc_Prelude
begin

text \<open>
  Status codes (\<open>types/status_codes.rs\<close>, \<open>types/status_code.rs\<close>).

  A status code is a 32-bit word: the upper half is the code proper, the lower half holds
  flag bits.  The constants are the ones the modelled components return.  The bit flags
  declared in \<open>status_codes.rs\<close> cover all 32 bits (\<open>STATUS_MASK\<close> and \<open>BIT_MASK\<close> together), so
  \<open>from_bits_truncate\<close> keeps every bit.
\<close>

type_synonym StatusCode = u32

definition STATUS_MASK :: StatusCode where
  "STATUS_MASK = 0xffff0000"

definition BIT_MASK :: StatusCode where
  "BIT_MASK = 0xffff"

definition IS_ERROR :: StatusCode where
  "IS_ERROR = 0x80000000"

definition IS_UNCERTAIN :: StatusCode where
  "IS_UNCERTAIN = 0x40000000"

definition OVERFLOW :: StatusCode where
  "OVERFLOW = 0x80"

definition Good :: StatusCode where
  "Good = 0"

definition BadUnexpectedError :: StatusCode where
  "BadUnexpectedError = 0x80010000"

definition BadCommunicationError :: StatusCode where
  "BadCommunicationError = 0x80050000"

definition BadEncodingError :: StatusCode where
  "BadEncodingError = 0x80060000"

definition BadDecodingError :: StatusCode where
  "BadDecodingError = 0x80070000"

definition BadEncodingLimitsExceeded :: StatusCode where
  "BadEncodingLimitsExceeded = 0x80080000"

definition BadRequestTooLarge :: StatusCode where
  "BadRequestTooLarge = 0x80B80000"

definition BadResponseTooLarge :: StatusCode where
  "BadResponseTooLarge = 0x80B90000"

definition BadTimeout :: StatusCode where
  "BadTimeout = 0x800A0000"

definition BadServiceUnsupported :: StatusCode where
  "BadServiceUnsupported = 0x800B0000"

definition BadNothingToDo :: StatusCode where
  "BadNothingToDo = 0x800F0000"

definition BadTooManyMonitoredItems :: StatusCode where
  "BadTooManyMonitoredItems = 0x80DB0000"

definition BadSecurityChecksFailed :: StatusCode where
  "BadSecurityChecksFailed = 0x80130000"

definition BadTcpMessageTooLarge :: StatusCode where
  "BadTcpMessageTooLarge = 0x80800000"

definition BadTcpEndpointUrlInvalid :: StatusCode where
  "BadTcpEndpointUrlInvalid = 0x80830000"

definition BadSecureChannelIdInvalid :: StatusCode where
  "BadSecureChannelIdInvalid = 0x80220000"

definition BadSequenceNumberInvalid :: StatusCode where
  "BadSequenceNumberInvalid = 0x80880000"

definition BadSequenceNumberUnknown :: StatusCode where
  "BadSequenceNumberUnknown = 0x807A0000"

definition BadMessageNotAvailable :: StatusCode where
  "BadMessageNotAvailable = 0x807B0000"

definition BadSubscriptionIdInvalid :: StatusCode where
  "BadSubscriptionIdInvalid = 0x80280000"

definition BadNoSubscription :: StatusCode where
  "BadNoSubscription = 0x80790000"

definition BadTooManyPublishRequests :: StatusCode where
  "BadTooManyPublishRequests = 0x80780000"

definition BadMonitoredItemIdInvalid :: StatusCode where
  "BadMonitoredItemIdInvalid = 0x80420000"

definition BadFilterNotAllowed :: StatusCode where
  "BadFilterNotAllowed = 0x80450000"

definition BadNodeIdUnknown :: StatusCode where
  "BadNodeIdUnknown = 0x80340000"

definition BadIndexRangeInvalid :: StatusCode where
  "BadIndexRangeInvalid = 0x80360000"

definition BadIndexRangeNoData :: StatusCode where
  "BadIndexRangeNoData = 0x80370000"

definition BadDeadbandFilterInvalid :: StatusCode where
  "BadDeadbandFilterInvalid = 0x808E0000"

definition BadTooManySubscriptions :: StatusCode where
  "BadTooManySubscriptions = 0x80770000"

definition BadCertificateInvalid :: StatusCode where
  "BadCertificateInvalid = 0x80120000"

definition BadNonceInvalid :: StatusCode where
  "BadNonceInvalid = 0x80240000"

definition BadSecurityPolicyRejected :: StatusCode where
  "BadSecurityPolicyRejected = 0x80550000"

definition BadInvalidArgument :: StatusCode where
  "BadInvalidArgument = 0x80AB0000"

definition BadProtocolVersionUnsupported :: StatusCode where
  "BadProtocolVersionUnsupported = 0x80BE0000"

definition BadConnectionClosed :: StatusCode where
  "BadConnectionClosed = 0x80AE0000"

definition BadUnknownResponse :: StatusCode where
  "BadUnknownResponse = 0x80090000"

definition BadTcpInternalError :: StatusCode where
  "BadTcpInternalError = 0x80820000"

definition BadSecurityModeRejected :: StatusCode where
  "BadSecurityModeRejected = 0x80540000"

definition BadNoValidCertificates :: StatusCode where
  "BadNoValidCertificates = 0x80590000"

definition from_bits_truncate :: "u32 \<Rightarrow> StatusCode" where
  "from_bits_truncate b = b AND (STATUS_MASK OR BIT_MASK)"

definition StatusCode_bitflags :: "StatusCode \<Rightarrow> StatusCode" where
  "StatusCode_bitflags c = c AND BIT_MASK"

definition StatusCode_status :: "StatusCode \<Rightarrow> StatusCode" where
  "StatusCode_status c = c AND STATUS_MASK"

definition StatusCode_is_bad :: "StatusCode \<Rightarrow> bool" where
  "StatusCode_is_bad c \<longleftrightarrow> c AND IS_ERROR = IS_ERROR"

definition StatusCode_is_uncertain :: "StatusCode \<Rightarrow> bool" where
  "StatusCode_is_uncertain c \<longleftrightarrow> c AND IS_UNCERTAIN = IS_UNCERTAIN"

definition StatusCode_is_good :: "StatusCode \<Rightarrow> bool" where
  "StatusCode_is_good c \<longleftrightarrow> \<not> StatusCode_is_bad c \<and> \<not> StatusCode_is_uncertain c"

section \<open>Lemmas\<close>

lemma all_bits_covered: "STATUS_MASK OR BIT_MASK = (-1 :: u32)"
  by (simp add: STATUS_MASK_def BIT_MASK_def)

lemma from_bits_truncate_id [simp]: "from_bits_truncate b = b"
  by (simp add: from_bits_truncate_def all_bits_covered)

lemma masks_disjoint: "STATUS_MASK AND BIT_MASK = (0 :: u32)"
  by (simp add: STATUS_MASK_def BIT_MASK_def)

lemma status_bitflags_join: "StatusCode_status c OR StatusCode_bitflags c = c"
  by (simp add: StatusCode_status_def StatusCode_bitflags_def all_bits_covered flip: bit.conj_disj_distrib)

lemma and_or_absorb_mask:
  fixes c m b :: u32
  assumes "b AND m = m"
  shows "(c AND b) AND m = c AND m"
  using assms by (simp add: and.assoc)

lemma severity_ignores_bitflags:
  "StatusCode_is_bad (StatusCode_status c) = StatusCode_is_bad c" "StatusCode_is_uncertain (StatusCode_status c) = StatusCode_is_uncertain c"
  "StatusCode_is_good (StatusCode_status c) = StatusCode_is_good c"
  by (simp_all add: StatusCode_is_bad_def StatusCode_is_uncertain_def StatusCode_is_good_def StatusCode_status_def and_or_absorb_mask
      STATUS_MASK_def IS_ERROR_def IS_UNCERTAIN_def and.assoc)

end
