(* ===== verification/Opc_Encoding.thy ===== *)
theory Opc_Encoding
  imports Opc_Status
begin

text \<open>
  The binary encoding interface (\<open>types/encoding.rs\<close>) and the encodings of the built-in
  numeric types (\<open>types/basic_types.rs\<close>).

  A write stream is the list of the bytes written so far, as a growing \<open>Vec<u8>\<close>; a writer
  returns the number of bytes it wrote and the longer stream, so \<open>thenW\<close> is the source's
  \<open>size += x.encode(stream)?\<close>.  A read stream is the list of the bytes still to be read;
  \<open>bindD\<close> reads, then goes on with what is left.  Floats are their IEEE bit patterns.

  The depth gauge sits behind a mutex in the source and a \<open>DepthLock\<close> restores it when it
  leaves scope.  Here the options are passed by value: the code that holds the lock gets
  the options with the raised gauge, the code after it the old ones; \<open>DepthLock_restores\<close>
  is why the two agree.  Two threads sharing one gauge are not modelled.

  The locales \<open>encoder\<close>, \<open>decoder\<close> and \<open>codec\<close> are the contract of the trait
  \<open>BinaryEncoder\<close>: what \<open>encode\<close> appends, that \<open>byte_len\<close> is its exact length, that \<open>decode\<close>
  never panics and reads a prefix of the stream, and that it inverts \<open>encode\<close>.  The array
  routines are verified once against the contract; each type interprets it.
\<close>

section \<open>Options and the depth gauge\<close>

definition MAX_ARRAY_LENGTH :: nat where "MAX_ARRAY_LENGTH = 1000"
definition MAX_STRING_LENGTH :: nat where "MAX_STRING_LENGTH = 65535"
definition MAX_BYTE_STRING_LENGTH :: nat where "MAX_BYTE_STRING_LENGTH = 65535"
definition MAX_CERTIFICATE_LENGTH :: nat where "MAX_CERTIFICATE_LENGTH = 32767"
definition MAX_CHUNK_COUNT :: nat where "MAX_CHUNK_COUNT = 5"
definition MAX_MESSAGE_SIZE :: nat where "MAX_MESSAGE_SIZE = 65535 * MAX_CHUNK_COUNT"
definition MAX_DECODING_DEPTH :: nat where "MAX_DECODING_DEPTH = 10"

record DepthGauge =
  max_depth :: nat
  current_depth :: nat

record DecodingOptions =
  client_offset :: int
  max_message_size :: nat
  max_chunk_count :: nat
  max_string_length :: nat
  max_byte_string_length :: nat
  max_array_length :: nat
  decoding_depth_gauge :: DepthGauge

definition DepthGauge_default :: DepthGauge where
  "DepthGauge_default = \<lparr> max_depth = MAX_DECODING_DEPTH, current_depth = 0 \<rparr>"

definition DepthGauge_minimal :: DepthGauge where
  "DepthGauge_minimal = DepthGauge_default \<lparr> max_depth := 1 \<rparr>"

definition DepthLock_obtain :: "DepthGauge \<Rightarrow> DepthGauge res" where
  "DepthLock_obtain dg =
     (if current_depth dg \<ge> max_depth dg then Inl (Err BadDecodingError)
      else Inr (dg \<lparr> current_depth := current_depth dg + 1 \<rparr>))"

definition DepthLock_drop :: "DepthGauge \<Rightarrow> DepthGauge" where
  "DepthLock_drop dg =
     (if current_depth dg > 0 then dg \<lparr> current_depth := current_depth dg - 1 \<rparr> else dg)"

definition DecodingOptions_default :: DecodingOptions where
  "DecodingOptions_default =
     \<lparr> client_offset = 0, max_message_size = MAX_MESSAGE_SIZE, max_chunk_count = MAX_CHUNK_COUNT,
       max_string_length = MAX_STRING_LENGTH, max_byte_string_length = MAX_BYTE_STRING_LENGTH,
       max_array_length = MAX_ARRAY_LENGTH, decoding_depth_gauge = DepthGauge_default \<rparr>"

definition DecodingOptions_minimal :: DecodingOptions where
  "DecodingOptions_minimal = DecodingOptions_default
     \<lparr> max_string_length := 8192, max_byte_string_length := 8192, max_array_length := 8192,
       decoding_depth_gauge := DepthGauge_minimal \<rparr>"

definition depth_lock :: "DecodingOptions \<Rightarrow> DecodingOptions res" where
  "depth_lock opts = mapR (\<lambda>dg. opts \<lparr> decoding_depth_gauge := dg \<rparr>)
                          (DepthLock_obtain (decoding_depth_gauge opts))"

section \<open>Writers and readers\<close>

type_synonym writer = "u8 list \<Rightarrow> (nat \<times> u8 list) res"
type_synonym 'a reader = "u8 list \<Rightarrow> ('a \<times> u8 list) res"

definition writeW :: "u8 list \<Rightarrow> writer" where
  "writeW bs s = Inr (length bs, s @ bs)"

definition nopW :: writer where
  "nopW s = Inr (0, s)"

definition thenW :: "writer \<Rightarrow> writer \<Rightarrow> writer" where
  "thenW f g s = bindR (f s) (\<lambda>(n, s'). bindR (g s') (\<lambda>(m, s''). Inr (n + m, s'')))"

definition assert_size :: "nat \<Rightarrow> writer \<Rightarrow> writer" where
  "assert_size n f s = bindR (f s) (\<lambda>(m, s'). assertR (m = n) (Inr (m, s')))"

primrec seqW :: "writer list \<Rightarrow> writer" where
  "seqW [] = nopW"
| "seqW (w # ws) = thenW w (seqW ws)"

definition failW :: "fault \<Rightarrow> writer" where
  "failW e s = Inl e"

definition returnD :: "'a \<Rightarrow> 'a reader" where
  "returnD x s = Inr (x, s)"

definition failD :: "fault \<Rightarrow> 'a reader" where
  "failD e s = Inl e"

definition liftD :: "'a res \<Rightarrow> 'a reader" where
  "liftD m s = mapR (\<lambda>x. (x, s)) m"

definition bindD :: "'a reader \<Rightarrow> ('a \<Rightarrow> 'b reader) \<Rightarrow> 'b reader" where
  "bindD f g s = bindR (f s) (\<lambda>(x, s'). g x s')"

definition mapD :: "('a \<Rightarrow> 'b) \<Rightarrow> 'a reader \<Rightarrow> 'b reader" where
  "mapD f r = bindD r (\<lambda>x. returnD (f x))"

primrec repeatD :: "nat \<Rightarrow> 'a reader \<Rightarrow> 'a list reader" where
  "repeatD 0 r = returnD []"
| "repeatD (Suc n) r = bindD r (\<lambda>x. bindD (repeatD n r) (\<lambda>xs. returnD (x # xs)))"

section \<open>Reading and writing machine integers\<close>

definition read_exact :: "nat \<Rightarrow> u8 list reader" where
  "read_exact n s = (if n \<le> length s then Inr (take n s, drop n s) else Inl (Err BadDecodingError))"

definition write_bytes :: "u8 \<Rightarrow> nat \<Rightarrow> writer" where
  "write_bytes v count s = Inr (count, s @ replicate count v)"

definition write_u8 :: "u8 \<Rightarrow> writer" where "write_u8 v = writeW [v]"
definition write_i16 :: "16 word \<Rightarrow> writer" where "write_i16 v = writeW (le_bytes 2 v)"
definition write_u16 :: "u16 \<Rightarrow> writer" where "write_u16 v = writeW (le_bytes 2 v)"
definition write_i32 :: "32 word \<Rightarrow> writer" where "write_i32 v = writeW (le_bytes 4 v)"
definition write_u32 :: "u32 \<Rightarrow> writer" where "write_u32 v = writeW (le_bytes 4 v)"
definition write_i64 :: "64 word \<Rightarrow> writer" where "write_i64 v = writeW (le_bytes 8 v)"
definition write_u64 :: "u64 \<Rightarrow> writer" where "write_u64 v = writeW (le_bytes 8 v)"
definition write_f32 :: "32 word \<Rightarrow> writer" where "write_f32 v = writeW (le_bytes 4 v)"
definition write_f64 :: "64 word \<Rightarrow> writer" where "write_f64 v = writeW (le_bytes 8 v)"

definition read_bytes :: "nat \<Rightarrow> u8 list reader" where
  "read_bytes n = read_exact n"

definition read_u8 :: "u8 reader" where "read_u8 = mapD hd (read_exact 1)"
definition read_i16 :: "16 word reader" where "read_i16 = mapD of_le (read_exact 2)"
definition read_u16 :: "u16 reader" where "read_u16 = mapD of_le (read_exact 2)"
definition read_i32 :: "32 word reader" where "read_i32 = mapD of_le (read_exact 4)"
definition read_u32 :: "u32 reader" where "read_u32 = mapD of_le (read_exact 4)"
definition read_i64 :: "64 word reader" where "read_i64 = mapD of_le (read_exact 8)"
definition read_u64 :: "u64 reader" where "read_u64 = mapD of_le (read_exact 8)"
definition read_f32 :: "32 word reader" where "read_f32 = mapD of_le (read_exact 4)"
definition read_f64 :: "64 word reader" where "read_f64 = mapD of_le (read_exact 8)"

section \<open>Arrays\<close>

definition byte_len_array :: "('a \<Rightarrow> nat) \<Rightarrow> 'a list option \<Rightarrow> nat" where
  "byte_len_array len arr =
     (case arr of None \<Rightarrow> 4 | Some vs \<Rightarrow> 4 + sum_list (map len vs))"

definition write_array :: "('a \<Rightarrow> writer) \<Rightarrow> 'a list option \<Rightarrow> writer" where
  "write_array enc arr =
     (case arr of
        Some vs \<Rightarrow> thenW (write_i32 (of_nat (length vs))) (seqW (map enc vs))
      | None \<Rightarrow> write_i32 (-1))"

definition read_array :: "(DecodingOptions \<Rightarrow> 'a reader) \<Rightarrow> DecodingOptions \<Rightarrow> 'a list option reader" where
  "read_array dec opts =
     bindD read_i32 (\<lambda>len.
       if sint len = -1 then returnD None
       else if sint len < -1 then failD (Err BadDecodingError)
       else if nat (sint len) > max_array_length opts then failD (Err BadDecodingError)
       else mapD Some (repeatD (nat (sint len)) (dec opts)))"

section \<open>The built-in numeric types\<close>

definition bool_byte_len :: "bool \<Rightarrow> nat" where
  "bool_byte_len v = 1"

definition bool_encode :: "bool \<Rightarrow> writer" where
  "bool_encode v = write_u8 (if v then 1 else 0)"

definition bool_decode :: "DecodingOptions \<Rightarrow> bool reader" where
  "bool_decode opts = mapD (\<lambda>b. b = 1) read_u8"

definition i8_byte_len :: "8 word \<Rightarrow> nat" where
  "i8_byte_len v = 1"

definition i8_encode :: "8 word \<Rightarrow> writer" where
  "i8_encode v = write_u8 v"

definition i8_decode :: "DecodingOptions \<Rightarrow> 8 word reader" where
  "i8_decode opts = read_u8"

definition u8_byte_len :: "u8 \<Rightarrow> nat" where
  "u8_byte_len v = 1"

definition u8_encode :: "u8 \<Rightarrow> writer" where
  "u8_encode v = write_u8 v"

definition u8_decode :: "DecodingOptions \<Rightarrow> u8 reader" where
  "u8_decode opts = read_u8"

definition i16_byte_len :: "16 word \<Rightarrow> nat" where
  "i16_byte_len v = 2"

definition i16_encode :: "16 word \<Rightarrow> writer" where
  "i16_encode v = write_i16 v"

definition i16_decode :: "DecodingOptions \<Rightarrow> 16 word reader" where
  "i16_decode opts = read_i16"

definition u16_byte_len :: "u16 \<Rightarrow> nat" where
  "u16_byte_len v = 2"

definition u16_encode :: "u16 \<Rightarrow> writer" where
  "u16_encode v = write_u16 v"

definition u16_decode :: "DecodingOptions \<Rightarrow> u16 reader" where
  "u16_decode opts = read_u16"

definition i32_byte_len :: "32 word \<Rightarrow> nat" where
  "i32_byte_len v = 4"

definition i32_encode :: "32 word \<Rightarrow> writer" where
  "i32_encode v = write_i32 v"

definition i32_decode :: "DecodingOptions \<Rightarrow> 32 word reader" where
  "i32_decode opts = read_i32"

definition u32_byte_len :: "u32 \<Rightarrow> nat" where
  "u32_byte_len v = 4"

definition u32_encode :: "u32 \<Rightarrow> writer" where
  "u32_encode v = write_u32 v"

definition u32_decode :: "DecodingOptions \<Rightarrow> u32 reader" where
  "u32_decode opts = read_u32"

definition i64_byte_len :: "64 word \<Rightarrow> nat" where
  "i64_byte_len v = 8"

definition i64_encode :: "64 word \<Rightarrow> writer" where
  "i64_encode v = write_i64 v"

definition i64_decode :: "DecodingOptions \<Rightarrow> 64 word reader" where
  "i64_decode opts = read_i64"

definition u64_byte_len :: "u64 \<Rightarrow> nat" where
  "u64_byte_len v = 8"

definition u64_encode :: "u64 \<Rightarrow> writer" where
  "u64_encode v = write_u64 v"

definition u64_decode :: "DecodingOptions \<Rightarrow> u64 reader" where
  "u64_decode opts = read_u64"

definition f32_byte_len :: "32 word \<Rightarrow> nat" where
  "f32_byte_len v = 4"

definition f32_encode :: "32 word \<Rightarrow> writer" where
  "f32_encode v = write_f32 v"

definition f32_decode :: "DecodingOptions \<Rightarrow> 32 word reader" where
  "f32_decode opts = read_f32"

definition f64_byte_len :: "64 word \<Rightarrow> nat" where
  "f64_byte_len v = 8"

definition f64_encode :: "64 word \<Rightarrow> writer" where
  "f64_encode v = write_f64 v"

definition f64_decode :: "DecodingOptions \<Rightarrow> 64 word reader" where
  "f64_decode opts = read_f64"

section \<open>Laws of writers and readers\<close>

definition writes :: "writer \<Rightarrow> u8 list \<Rightarrow> bool" where
  "writes w bs \<longleftrightarrow> (\<forall>s. w s = Inr (length bs, s @ bs))"

definition reads :: "'a reader \<Rightarrow> u8 list \<Rightarrow> 'a \<Rightarrow> bool" where
  "reads r bs x \<longleftrightarrow> (\<forall>rest. r (bs @ rest) = Inr (x, rest))"

definition safe_reader :: "nat \<Rightarrow> 'a reader \<Rightarrow> bool" where
  "safe_reader k r \<longleftrightarrow>
     (\<forall>s. (\<exists>c. r s = Inl (Err c)) \<or>
          (\<exists>x p s'. r s = Inr (x, s') \<and> s = p @ s' \<and> k \<le> length p \<and> reads r p x))"

named_theorems writes_rules \<open>what a writer appends\<close>
named_theorems reads_rules \<open>what a reader returns on the bytes of a value\<close>
named_theorems safe_rules \<open>readers that never panic\<close>

lemma writes_writeW [writes_rules]: "writes (writeW bs) bs"
  by (simp add: writes_def writeW_def)

lemma writes_nopW [writes_rules]: "writes nopW []"
  by (simp add: writes_def nopW_def)

lemma writes_thenW [writes_rules]:
  "writes f a \<Longrightarrow> writes g b \<Longrightarrow> writes (thenW f g) (a @ b)"
  by (simp add: writes_def thenW_def)

lemma writes_assert_size [writes_rules]:
  "writes f bs \<Longrightarrow> n = length bs \<Longrightarrow> writes (assert_size n f) bs"
  by (simp add: writes_def assert_size_def)

lemma writes_opt [writes_rules]:
  "(b \<Longrightarrow> writes w bs) \<Longrightarrow> writes (if b then w else nopW) (if b then bs else [])"
  by (simp add: writes_nopW)

lemma writes_seqW:
  "(\<And>v. v \<in> set vs \<Longrightarrow> writes (enc v) (bs v)) \<Longrightarrow> writes (seqW (map enc vs)) (concat (map bs vs))"
  by (induction vs) (auto intro: writes_nopW writes_thenW)

lemma writes_write_bytes: "writes (write_bytes v n) (replicate n v)"
  by (simp add: writes_def write_bytes_def)

lemmas write_int_defs = write_u8_def write_i16_def write_u16_def write_i32_def write_u32_def
  write_i64_def write_u64_def write_f32_def write_f64_def

lemma writes_ints [writes_rules]:
  "writes (write_u8 b) [b]"
  "writes (write_i16 h) (le_bytes 2 h)" "writes (write_u16 h) (le_bytes 2 h)"
  "writes (write_i32 w) (le_bytes 4 w)" "writes (write_u32 w) (le_bytes 4 w)"
  "writes (write_i64 d) (le_bytes 8 d)" "writes (write_u64 d) (le_bytes 8 d)"
  "writes (write_f32 w) (le_bytes 4 w)" "writes (write_f64 d) (le_bytes 8 d)"
  by (simp_all add: write_int_defs writes_writeW)

lemma writes_Cons: "writes w bs \<Longrightarrow> writes (thenW (write_u8 b) w) (b # bs)"
  using writes_thenW [OF writes_ints(1)] by fastforce

lemma reads_returnD [simp, reads_rules]: "reads (returnD x) [] x"
  by (simp add: reads_def returnD_def)

lemma reads_bindD [reads_rules]:
  "reads r a x \<Longrightarrow> reads (f x) b y \<Longrightarrow> reads (bindD r f) (a @ b) y"
  by (simp add: reads_def bindD_def)

lemma reads_mapD [reads_rules]: "reads r a x \<Longrightarrow> reads (mapD f r) a (f x)"
  by (simp add: reads_def mapD_def bindD_def returnD_def)

lemma reads_read_exact [reads_rules]: "n = length bs \<Longrightarrow> reads (read_exact n) bs bs"
  by (simp add: reads_def read_exact_def)

lemma reads_repeatD:
  "(\<And>v. v \<in> set vs \<Longrightarrow> reads r (bs v) v) \<Longrightarrow> reads (repeatD (length vs) r) (concat (map bs vs)) vs"
proof (induction vs)
  case (Cons v vs)
  then have "reads (bindD r (\<lambda>x. bindD (repeatD (length vs) r) (\<lambda>xs. returnD (x # xs))))
     (bs v @ concat (map bs vs) @ []) (v # vs)"
    by (intro reads_bindD reads_returnD) auto
  then show ?case by simp
qed (simp add: reads_returnD)

lemmas read_int_defs = read_i16_def read_u16_def read_i32_def read_u32_def
  read_i64_def read_u64_def read_f32_def read_f64_def

lemma reads_le:
  assumes "LENGTH('a::len) = 8 * n"
  shows "reads (mapD of_le (read_exact n)) (le_bytes n w) (w :: 'a word)"
  using reads_mapD [OF reads_read_exact, of n "le_bytes n w" "of_le :: _ \<Rightarrow> 'a word"] assms by simp

lemma reads_ints [reads_rules]:
  "reads read_u8 [b] b"
  "reads read_i16 (le_bytes 2 h) h" "reads read_u16 (le_bytes 2 h) h"
  "reads read_i32 (le_bytes 4 w) w" "reads read_u32 (le_bytes 4 w) w"
  "reads read_i64 (le_bytes 8 d) d" "reads read_u64 (le_bytes 8 d) d"
  "reads read_f32 (le_bytes 4 w) w" "reads read_f64 (le_bytes 8 d) d"
  using reads_mapD [OF reads_read_exact, of 1 "[b]" hd]
  by (simp_all add: read_u8_def read_int_defs reads_le)

lemma readsD: "reads r bs x \<Longrightarrow> r (bs @ rest) = Inr (x, rest)"
  by (simp add: reads_def)

lemma reads_bindD': "reads r a x \<Longrightarrow> reads (f x) b y \<Longrightarrow> c = a @ b \<Longrightarrow> reads (bindD r f) c y"
  by (simp add: reads_bindD)

lemma reads_unique: "reads r bs x \<Longrightarrow> reads r bs y \<Longrightarrow> x = y"
  unfolding reads_def by (metis Inr_inject prod.inject)

section \<open>Readers that never panic\<close>

lemma safe_readerI:
  assumes "\<And>s. (\<exists>c. r s = Inl (Err c)) \<or>
          (\<exists>x p s'. r s = Inr (x, s') \<and> s = p @ s' \<and> k \<le> length p \<and> reads r p x)"
  shows "safe_reader k r"
  using assms by (simp add: safe_reader_def)

lemma safe_readerE:
  assumes "safe_reader k r"
  obtains (err) c where "r s = Inl (Err c)"
  | (ok) x p s' where "r s = Inr (x, s')" "s = p @ s'" "k \<le> length p" "reads r p x"
  using assms unfolding safe_reader_def by blast

lemma safe_reader_mono: "safe_reader k r \<Longrightarrow> j \<le> k \<Longrightarrow> safe_reader j r"
  unfolding safe_reader_def by (meson le_trans)

lemma safe_reader_not_panic: "safe_reader k r \<Longrightarrow> r s \<noteq> Inl Panic"
  by (erule safe_readerE [of _ _ s]) auto

lemma safe_reader_not_fuel: "safe_reader k r \<Longrightarrow> r s \<noteq> Inl OutOfFuel"
  by (erule safe_readerE [of _ _ s]) auto

lemma safe_returnD [safe_rules]: "safe_reader 0 (returnD x)"
  by (rule safe_readerI) (auto simp: returnD_def reads_def)

lemma safe_failD [safe_rules]: "safe_reader k (failD (Err c))"
  by (rule safe_readerI) (auto simp: failD_def)

lemma safe_bindD:
  assumes "safe_reader k r" and "\<And>x. safe_reader m (f x)"
  shows "safe_reader (k + m) (bindD r f)"
proof (rule safe_readerI)
  fix s
  from assms(1) show "(\<exists>c. bindD r f s = Inl (Err c)) \<or>
      (\<exists>x p s'. bindD r f s = Inr (x, s') \<and> s = p @ s' \<and> k + m \<le> length p \<and> reads (bindD r f) p x)"
  proof (cases rule: safe_readerE [where s = s])
    case (err c)
    then show ?thesis by (simp add: bindD_def)
  next
    case (ok x p t)
    from assms(2) [of x] show ?thesis
    proof (cases rule: safe_readerE [where s = t])
      case (err c)
      with ok show ?thesis by (simp add: bindD_def)
    next
      case (ok y q u)
      with \<open>r s = Inr (x, t)\<close> \<open>s = p @ t\<close> \<open>k \<le> length p\<close> \<open>reads r p x\<close>
      have "bindD r f s = Inr (y, u)" "s = (p @ q) @ u" "k + m \<le> length (p @ q)"
        "reads (bindD r f) (p @ q) y"
        by (simp_all add: bindD_def reads_bindD)
      then show ?thesis by blast
    qed
  qed
qed

lemma safe_bindD_le [safe_rules]:
  "safe_reader k r \<Longrightarrow> (\<And>x. safe_reader 0 (f x)) \<Longrightarrow> j \<le> k \<Longrightarrow> safe_reader j (bindD r f)"
  using safe_bindD [of k r 0 f] by (simp add: safe_reader_mono)

lemma safe_mapD [safe_rules]: "safe_reader k r \<Longrightarrow> safe_reader k (mapD f r)"
  unfolding mapD_def by (erule safe_bindD_le [OF _ safe_returnD]) simp

lemma safe_if [safe_rules]:
  "(b \<Longrightarrow> safe_reader k r) \<Longrightarrow> (\<not> b \<Longrightarrow> safe_reader k t) \<Longrightarrow> safe_reader k (if b then r else t)"
  by simp

lemma safe_read_exact: "safe_reader n (read_exact n)"
proof (rule safe_readerI)
  fix s
  show "(\<exists>c. read_exact n s = Inl (Err c)) \<or>
    (\<exists>x p s'. read_exact n s = Inr (x, s') \<and> s = p @ s' \<and> n \<le> length p \<and> reads (read_exact n) p x)"
  proof (cases "n \<le> length s")
    case True
    then have "read_exact n s = Inr (take n s, drop n s)" "s = take n s @ drop n s"
      "n \<le> length (take n s)" "reads (read_exact n) (take n s) (take n s)"
      by (simp_all add: read_exact_def reads_read_exact)
    then show ?thesis by blast
  qed (simp add: read_exact_def)
qed

lemma safe_repeatD [safe_rules]: "safe_reader k r \<Longrightarrow> safe_reader 0 (repeatD n r)"
  by (induction n) (auto intro!: safe_rules safe_reader_mono [of k r 0])

lemma safe_ints [safe_rules]:
  "safe_reader (Suc 0) read_u8" "safe_reader 2 read_i16" "safe_reader 2 read_u16"
  "safe_reader 4 read_i32" "safe_reader 4 read_u32" "safe_reader 8 read_i64"
  "safe_reader 8 read_u64" "safe_reader 4 read_f32" "safe_reader 8 read_f64"
  unfolding read_u8_def read_int_defs using safe_read_exact [of 1]
  by (simp_all add: safe_mapD safe_read_exact)

lemma safe_first:
  "safe_reader k r \<Longrightarrow> (\<And>x. safe_reader 0 (f x)) \<Longrightarrow> safe_reader k (bindD r f)"
  by (erule safe_bindD_le) simp_all

lemma safe_reader_0: "safe_reader k r \<Longrightarrow> safe_reader 0 r"
  by (erule safe_reader_mono) simp

named_theorems safe0_rules \<open>the same, forgetting how much is read\<close>

lemmas safe0_basic [safe0_rules] = safe_returnD safe_failD [where k = 0] safe_if [where k = 0]
  safe_first [where k = 0] safe_mapD [where k = 0] safe_repeatD [where k = 0]
  safe_ints [THEN safe_reader_0] safe_read_exact [THEN safe_reader_0]

section \<open>Evaluating readers on the bytes of a value\<close>

lemma read_u8_Cons: "read_u8 (b # s) = Inr (b, s)"
  using readsD [OF reads_ints(1), of b s] by simp

lemmas read_simps = read_u8_Cons reads_ints [THEN readsD] bindD_def returnD_def mapD_def

section \<open>The depth gauge\<close>

lemma DepthLock_restores: "DepthLock_obtain dg = Inr dg' \<Longrightarrow> DepthLock_drop dg' = dg"
  by (auto simp: DepthLock_obtain_def DepthLock_drop_def split: if_splits)

lemma depth_lock_Inr:
  "depth_lock opts = Inr opts' \<longleftrightarrow>
     current_depth (decoding_depth_gauge opts) < max_depth (decoding_depth_gauge opts) \<and>
     opts' = opts \<lparr> decoding_depth_gauge :=
       decoding_depth_gauge opts \<lparr> current_depth := current_depth (decoding_depth_gauge opts) + 1 \<rparr> \<rparr>"
  by (auto simp: depth_lock_def DepthLock_obtain_def mapR_eq_Inr)

lemma depth_lock_cases:
  obtains (err) "depth_lock opts = Inl (Err BadDecodingError)"
  | (ok) opts' where "depth_lock opts = Inr opts'"
  by (cases "current_depth (decoding_depth_gauge opts) < max_depth (decoding_depth_gauge opts)")
    (auto simp: depth_lock_def DepthLock_obtain_def)

section \<open>The contract of BinaryEncoder\<close>

locale encoder =
  fixes byte_len :: "'a \<Rightarrow> nat" and encode :: "'a \<Rightarrow> writer"
    and bytes :: "'a \<Rightarrow> u8 list" and valid :: "'a \<Rightarrow> bool"
  assumes encode_writes: "valid v \<Longrightarrow> writes (encode v) (bytes v)"
    and byte_len_exact: "valid v \<Longrightarrow> byte_len v = length (bytes v)"
begin

definition array_bytes :: "'a list option \<Rightarrow> u8 list" where
  "array_bytes arr =
     (case arr of None \<Rightarrow> le_bytes 4 (-1 :: 32 word)
      | Some vs \<Rightarrow> le_bytes 4 (of_nat (length vs) :: 32 word) @ concat (map bytes vs))"

lemma encode_returns_byte_len:
  "valid v \<Longrightarrow> encode v s = Inr (byte_len v, s @ bytes v)"
  using encode_writes byte_len_exact by (simp add: writes_def)

lemma write_array_writes:
  assumes "\<And>vs v. arr = Some vs \<Longrightarrow> v \<in> set vs \<Longrightarrow> valid v"
  shows "writes (write_array encode arr) (array_bytes arr)"
proof (cases arr)
  case (Some vs)
  with assms have "writes (seqW (map encode vs)) (concat (map bytes vs))"
    by (auto intro: writes_seqW encode_writes)
  with Some show ?thesis
    by (simp add: write_array_def array_bytes_def writes_rules)
qed (simp add: write_array_def array_bytes_def writes_rules)

lemma byte_len_array_exact:
  assumes "\<And>vs v. arr = Some vs \<Longrightarrow> v \<in> set vs \<Longrightarrow> valid v"
  shows "byte_len_array byte_len arr = length (array_bytes arr)"
  using assms
  by (auto simp: byte_len_array_def array_bytes_def length_concat byte_len_exact
      split: option.splits intro!: arg_cong [where f = sum_list])

end

locale decoder =
  fixes decode :: "DecodingOptions \<Rightarrow> 'a reader" and min_len :: nat
  assumes decode_safe: "safe_reader min_len (decode opts)"
begin

lemma decode_no_panic: "decode opts s \<noteq> Inl Panic"
  by (rule safe_reader_not_panic [OF decode_safe])

lemma decode_prefix:
  assumes "decode opts s = Inr (v, s')"
  shows "\<exists>p. s = p @ s' \<and> min_len \<le> length p \<and> (\<forall>t. decode opts (p @ t) = Inr (v, t))"
  using decode_safe [of opts]
  by (cases rule: safe_readerE [where s = s]) (use assms in \<open>auto simp: reads_def\<close>)

lemma read_array_safe: "safe_reader 4 (read_array decode opts)"
  unfolding read_array_def
  by (rule safe_bindD_le [OF safe_ints(4)])
    (auto intro!: safe_rules decode_safe safe_reader_mono [OF safe_returnD])

lemma read_array_bounded:
  assumes "read_array decode opts s = Inr (Some vs, s')"
  shows "length vs \<le> max_array_length opts"
proof -
  have len: "length xs = n" if "repeatD n r t = Inr (xs, t')" for n and r :: "'a reader" and t xs t'
    using that
    by (induction n arbitrary: t xs t')
      (auto simp: returnD_def bindD_def bindR_eq_Inr split: prod.splits)
  from assms show ?thesis
    by (auto simp: read_array_def bindD_def mapD_def returnD_def failD_def bindR_eq_Inr
        split: if_splits dest!: len)
qed

end

locale codec = encoder byte_len encode bytes valid + decoder decode min_len
  for byte_len :: "'a \<Rightarrow> nat" and encode :: "'a \<Rightarrow> writer" and bytes :: "'a \<Rightarrow> u8 list"
    and valid :: "'a \<Rightarrow> bool" and decode :: "DecodingOptions \<Rightarrow> 'a reader" and min_len :: nat +
  fixes fits :: "DecodingOptions \<Rightarrow> 'a \<Rightarrow> bool"
  assumes fits_valid: "fits opts v \<Longrightarrow> valid v"
    and decode_reads: "fits opts v \<Longrightarrow> reads (decode opts) (bytes v) v"
begin

definition array_fits :: "DecodingOptions \<Rightarrow> 'a list option \<Rightarrow> bool" where
  "array_fits opts arr =
     (case arr of None \<Rightarrow> True
      | Some vs \<Rightarrow> length vs \<le> max_array_length opts \<and> length vs < 2 ^ 31 \<and> list_all (fits opts) vs)"

lemma round_trip:
  assumes "fits opts v"
  shows "\<exists>s. encode v [] = Inr (byte_len v, s) \<and> decode opts (s @ rest) = Inr (v, rest)"
  using assms encode_returns_byte_len [of v "[]"] fits_valid decode_reads by (auto simp: reads_def)

lemma bytes_inj: "fits opts v \<Longrightarrow> fits opts w \<Longrightarrow> bytes v = bytes w \<Longrightarrow> v = w"
  using decode_reads reads_unique by metis

lemma bytes_prefix_free:
  assumes "fits opts v" "fits opts w" "bytes v @ s = bytes w @ t"
  shows "v = w \<and> s = t"
  using decode_reads [OF assms(1)] decode_reads [OF assms(2)] assms(3)
  unfolding reads_def by (metis Inr_inject prod.inject)

lemma read_array_reads:
  assumes "array_fits opts arr"
  shows "reads (read_array decode opts) (array_bytes arr) arr"
proof (cases arr)
  case None
  have "reads (read_array decode opts) (le_bytes 4 (-1 :: 32 word) @ []) None"
    unfolding read_array_def by (rule reads_bindD [OF reads_ints(4)]) simp
  with None show ?thesis by (simp add: array_bytes_def)
next
  case (Some vs)
  with assms have len: "length vs \<le> max_array_length opts" "length vs < 2 ^ 31"
    and fit: "\<And>v. v \<in> set vs \<Longrightarrow> fits opts v"
    by (auto simp: array_fits_def list_all_iff)
  have s: "sint (of_nat (length vs) :: 32 word) = int (length vs)"
    using len(2) by (rule sint_of_nat_i32)
  have "reads (repeatD (length vs) (decode opts)) (concat (map bytes vs)) vs"
    by (rule reads_repeatD) (simp add: decode_reads fit)
  then show ?thesis
    unfolding Some array_bytes_def read_array_def option.case
    by (intro reads_bindD [OF reads_ints(4)]) (use s len(1) in \<open>simp add: reads_mapD\<close>)
qed

end

section \<open>The built-in types meet the contract\<close>

definition bool_bytes :: "bool \<Rightarrow> u8 list" where
  "bool_bytes v = [if v then 1 else 0]"

definition byte_bytes :: "u8 \<Rightarrow> u8 list" where
  "byte_bytes v = [v]"

lemmas basic_codec_defs = bool_byte_len_def bool_encode_def bool_decode_def
  i8_byte_len_def i8_encode_def i8_decode_def
  u8_byte_len_def u8_encode_def u8_decode_def
  i16_byte_len_def i16_encode_def i16_decode_def
  u16_byte_len_def u16_encode_def u16_decode_def
  i32_byte_len_def i32_encode_def i32_decode_def
  u32_byte_len_def u32_encode_def u32_decode_def
  i64_byte_len_def i64_encode_def i64_decode_def
  u64_byte_len_def u64_encode_def u64_decode_def
  f32_byte_len_def f32_encode_def f32_decode_def
  f64_byte_len_def f64_encode_def f64_decode_def

lemma reads_bool: "reads (mapD (\<lambda>b. b = (1 :: u8)) read_u8) (bool_bytes v) v"
  using reads_mapD [OF reads_ints(1), of "\<lambda>b. b = 1" "if v then 1 else 0"]
  by (cases v) (simp_all add: bool_bytes_def)

lemma writes_bool: "writes (write_u8 (if v then 1 else 0)) (bool_bytes v)"
  by (simp add: bool_bytes_def writes_ints)

lemma length_bool_bytes [simp]: "length (bool_bytes v) = 1"
  by (simp add: bool_bytes_def)

interpretation bool_codec: codec bool_byte_len bool_encode bool_bytes "\<lambda>_. True" bool_decode 1 "\<lambda>_ _. True"
  by unfold_locales
    (simp_all add: basic_codec_defs writes_bool reads_bool safe_rules)

interpretation i8_codec: codec i8_byte_len i8_encode byte_bytes "\<lambda>_. True" i8_decode 1 "\<lambda>_ _. True"
  by unfold_locales
    (auto simp: basic_codec_defs byte_bytes_def intro: writes_ints reads_ints safe_rules)

interpretation u8_codec: codec u8_byte_len u8_encode byte_bytes "\<lambda>_. True" u8_decode 1 "\<lambda>_ _. True"
  by unfold_locales
    (auto simp: basic_codec_defs byte_bytes_def intro: writes_ints reads_ints safe_rules)

interpretation i16_codec: codec i16_byte_len i16_encode "le_bytes 2" "\<lambda>_. True" i16_decode 2 "\<lambda>_ _. True"
  by unfold_locales
    (auto simp: basic_codec_defs byte_bytes_def intro: writes_ints reads_ints safe_rules)

interpretation u16_codec: codec u16_byte_len u16_encode "le_bytes 2" "\<lambda>_. True" u16_decode 2 "\<lambda>_ _. True"
  by unfold_locales
    (auto simp: basic_codec_defs byte_bytes_def intro: writes_ints reads_ints safe_rules)

interpretation i32_codec: codec i32_byte_len i32_encode "le_bytes 4" "\<lambda>_. True" i32_decode 4 "\<lambda>_ _. True"
  by unfold_locales
    (auto simp: basic_codec_defs byte_bytes_def intro: writes_ints reads_ints safe_rules)

interpretation u32_codec: codec u32_byte_len u32_encode "le_bytes 4" "\<lambda>_. True" u32_decode 4 "\<lambda>_ _. True"
  by unfold_locales
    (auto simp: basic_codec_defs byte_bytes_def intro: writes_ints reads_ints safe_rules)

interpretation i64_codec: codec i64_byte_len i64_encode "le_bytes 8" "\<lambda>_. True" i64_decode 8 "\<lambda>_ _. True"
  by unfold_locales
    (auto simp: basic_codec_defs byte_bytes_def intro: writes_ints reads_ints safe_rules)

interpretation u64_codec: codec u64_byte_len u64_encode "le_bytes 8" "\<lambda>_. True" u64_decode 8 "\<lambda>_ _. True"
  by unfold_locales
    (auto simp: basic_codec_defs byte_bytes_def intro: writes_ints reads_ints safe_rules)

interpretation f32_codec: codec f32_byte_len f32_encode "le_bytes 4" "\<lambda>_. True" f32_decode 4 "\<lambda>_ _. True"
  by unfold_locales
    (auto simp: basic_codec_defs byte_bytes_def intro: writes_ints reads_ints safe_rules)

interpretation f64_codec: codec f64_byte_len f64_encode "le_bytes 8" "\<lambda>_. True" f64_decode 8 "\<lambda>_ _. True"
  by unfold_locales
    (auto simp: basic_codec_defs byte_bytes_def intro: writes_ints reads_ints safe_rules)

end
