(* ===== verification/Opc_Scalars.thy ===== *)
theory Opc_Scalars
  imports Opc_Encoding "HOL-Library.Signed_Division"
begin

text \<open>
  The structured scalar types of \<open>types/\<close>: strings, byte strings, guids, status codes,
  dates, qualified names, localized texts, node ids and expanded node ids, each with its
  \<open>byte_len\<close>, \<open>encode\<close> and \<open>decode\<close>, its wire format (\<open>.._bytes\<close>), the values a decoder with
  given limits accepts (\<open>.._fits\<close>), and the interpretation of the codec contract.

  A \<open>String\<close> is the list of its UTF-8 bytes; \<open>utf8_valid\<close> is the test of
  \<open>String::from_utf8\<close>.  A UTC instant is the number of nanoseconds since the OPC UA epoch
  1601-01-01, a duration a number of nanoseconds, so the operators of \<open>chrono\<close> the code uses
  are those of the integers; the year range of \<open>chrono\<close> and its leap seconds are left out.
  A guid is the list of its sixteen bytes, as \<open>Uuid::as_bytes\<close> gives them.
\<close>

section \<open>Strings\<close>

definition utf8_cont :: "u8 \<Rightarrow> bool" where
  "utf8_cont b \<longleftrightarrow> 0x80 \<le> b \<and> b \<le> 0xBF"

definition utf8_lead3 :: "u8 \<Rightarrow> u8 \<Rightarrow> bool" where
  "utf8_lead3 a b \<longleftrightarrow>
     a = 0xE0 \<and> 0xA0 \<le> b \<and> b \<le> 0xBF \<or>
     0xE1 \<le> a \<and> a \<le> 0xEC \<and> utf8_cont b \<or>
     a = 0xED \<and> 0x80 \<le> b \<and> b \<le> 0x9F \<or>
     0xEE \<le> a \<and> a \<le> 0xEF \<and> utf8_cont b"

definition utf8_lead4 :: "u8 \<Rightarrow> u8 \<Rightarrow> bool" where
  "utf8_lead4 a b \<longleftrightarrow>
     a = 0xF0 \<and> 0x90 \<le> b \<and> b \<le> 0xBF \<or>
     0xF1 \<le> a \<and> a \<le> 0xF3 \<and> utf8_cont b \<or>
     a = 0xF4 \<and> 0x80 \<le> b \<and> b \<le> 0x8F"

fun utf8_valid :: "u8 list \<Rightarrow> bool" where
  "utf8_valid [] = True"
| "utf8_valid (a # r) =
     (if a < 0x80 then utf8_valid r
      else case r of [] \<Rightarrow> False | b # r1 \<Rightarrow>
        if 0xC2 \<le> a \<and> a \<le> 0xDF then utf8_cont b \<and> utf8_valid r1
        else case r1 of [] \<Rightarrow> False | c # r2 \<Rightarrow>
          if utf8_lead3 a b then utf8_cont c \<and> utf8_valid r2
          else case r2 of [] \<Rightarrow> False | d # r3 \<Rightarrow>
            utf8_lead4 a b \<and> utf8_cont c \<and> utf8_cont d \<and> utf8_valid r3)"

record UAString =
  ua_value :: "u8 list option"

definition UAString_null :: UAString where
  "UAString_null = \<lparr> ua_value = None \<rparr>"

definition UAString_from :: "u8 list \<Rightarrow> UAString" where
  "UAString_from v = \<lparr> ua_value = Some v \<rparr>"

definition UAString_is_null :: "UAString \<Rightarrow> bool" where
  "UAString_is_null s \<longleftrightarrow> ua_value s = None"

definition UAString_is_empty :: "UAString \<Rightarrow> bool" where
  "UAString_is_empty s = (case ua_value s of None \<Rightarrow> True | Some v \<Rightarrow> v = [])"

definition UAString_len :: "UAString \<Rightarrow> int" where
  "UAString_len s = (case ua_value s of None \<Rightarrow> -1 | Some v \<Rightarrow> int (length v))"

definition UAString_as_ref :: "UAString \<Rightarrow> u8 list" where
  "UAString_as_ref s = (case ua_value s of None \<Rightarrow> [] | Some v \<Rightarrow> v)"

definition UAString_byte_len :: "UAString \<Rightarrow> nat" where
  "UAString_byte_len s = 4 + (case ua_value s of None \<Rightarrow> 0 | Some v \<Rightarrow> length v)"

definition UAString_encode :: "UAString \<Rightarrow> writer" where
  "UAString_encode s =
     (case ua_value s of
        None \<Rightarrow> write_i32 (-1)
      | Some v \<Rightarrow> assert_size (UAString_byte_len s)
                   (thenW (write_i32 (of_nat (length v))) (writeW v)))"

definition UAString_decode :: "DecodingOptions \<Rightarrow> UAString reader" where
  "UAString_decode opts =
     bindD (i32_decode opts) (\<lambda>len.
       if sint len = -1 then returnD UAString_null
       else if sint len < -1 then failD (Err BadDecodingError)
       else if nat (sint len) > max_string_length opts then failD (Err BadDecodingError)
       else bindD (read_exact (nat (sint len))) (\<lambda>buf.
              if utf8_valid buf then returnD (UAString_from buf) else failD (Err BadDecodingError)))"

definition is_char_boundary :: "u8 list \<Rightarrow> nat \<Rightarrow> bool" where
  "is_char_boundary v i \<longleftrightarrow> i = 0 \<or> i = length v \<or> i < length v \<and> \<not> utf8_cont (v ! i)"

definition str_slice :: "u8 list \<Rightarrow> nat \<Rightarrow> nat \<Rightarrow> u8 list res" where
  "str_slice v i j =
     (if i \<le> j \<and> is_char_boundary v i \<and> is_char_boundary v j then Inr (take (j - i) (drop i v))
      else Inl Panic)"

definition UAString_substring :: "UAString \<Rightarrow> nat \<Rightarrow> nat \<Rightarrow> UAString option res" where
  "UAString_substring s mn mx =
     (case ua_value s of
        Some v \<Rightarrow>
          if mn \<ge> length v then Inr None
          else (let mx' = (if mx \<ge> length v then length v - 1 else mx)
                in mapR (\<lambda>t. Some (UAString_from t)) (str_slice v mn (mx' + 1)))
      | None \<Rightarrow> Inr None)"

section \<open>Byte strings\<close>

record ByteString =
  bs_value :: "u8 list option"

definition ByteString_null :: ByteString where
  "ByteString_null = \<lparr> bs_value = None \<rparr>"

definition ByteString_from :: "u8 list \<Rightarrow> ByteString" where
  "ByteString_from v = \<lparr> bs_value = Some v \<rparr>"

definition ByteString_as_ref :: "ByteString \<Rightarrow> u8 list" where
  "ByteString_as_ref b = (case bs_value b of None \<Rightarrow> [] | Some v \<Rightarrow> v)"

definition ByteString_is_null :: "ByteString \<Rightarrow> bool" where
  "ByteString_is_null b \<longleftrightarrow> bs_value b = None"

definition ByteString_is_empty :: "ByteString \<Rightarrow> bool" where
  "ByteString_is_empty b = (case bs_value b of Some v \<Rightarrow> v = [] | None \<Rightarrow> False)"

definition ByteString_is_null_or_empty :: "ByteString \<Rightarrow> bool" where
  "ByteString_is_null_or_empty b \<longleftrightarrow> ByteString_is_null b \<or> ByteString_is_empty b"

definition ByteString_byte_len :: "ByteString \<Rightarrow> nat" where
  "ByteString_byte_len b = 4 + (case bs_value b of None \<Rightarrow> 0 | Some v \<Rightarrow> length v)"

definition ByteString_encode :: "ByteString \<Rightarrow> writer" where
  "ByteString_encode b =
     (case bs_value b of
        None \<Rightarrow> write_i32 (-1)
      | Some v \<Rightarrow> assert_size (ByteString_byte_len b)
                   (thenW (write_i32 (of_nat (length v))) (writeW v)))"

definition ByteString_decode :: "DecodingOptions \<Rightarrow> ByteString reader" where
  "ByteString_decode opts =
     bindD (i32_decode opts) (\<lambda>len.
       if sint len = -1 then returnD ByteString_null
       else if sint len < -1 then failD (Err BadDecodingError)
       else if nat (sint len) > max_byte_string_length opts then failD (Err BadDecodingError)
       else mapD (\<lambda>buf. \<lparr> bs_value = Some buf \<rparr>) (read_exact (nat (sint len))))"

definition ByteString_substring :: "ByteString \<Rightarrow> nat \<Rightarrow> nat \<Rightarrow> ByteString option res" where
  "ByteString_substring b mn mx =
     (case bs_value b of
        Some v \<Rightarrow>
          if mn \<ge> length v then Inr None
          else (let mx' = (if mx \<ge> length v then length v - 1 else mx)
                in if mn \<le> mx' + 1 then Inr (Some (ByteString_from (take (mx' + 1 - mn) (drop mn v))))
                   else Inl Panic)
      | None \<Rightarrow> Inr None)"

section \<open>Guids and status codes\<close>

record Guid =
  guid_bytes :: "u8 list"

definition Guid_null :: Guid where
  "Guid_null = \<lparr> guid_bytes = replicate 16 0 \<rparr>"

definition Guid_byte_len :: "Guid \<Rightarrow> nat" where
  "Guid_byte_len g = 16"

definition Guid_encode :: "Guid \<Rightarrow> writer" where
  "Guid_encode g = writeW (guid_bytes g)"

definition Guid_decode :: "DecodingOptions \<Rightarrow> Guid reader" where
  "Guid_decode opts = mapD (\<lambda>b. \<lparr> guid_bytes = b \<rparr>) (read_exact 16)"

definition ByteString_from_Guid :: "Guid \<Rightarrow> ByteString" where
  "ByteString_from_Guid g = ByteString_from (guid_bytes g)"

definition Guid_try_from :: "ByteString \<Rightarrow> Guid option" where
  "Guid_try_from b =
     (if ByteString_is_null_or_empty b then None
      else if length (ByteString_as_ref b) \<noteq> 16 then None
      else Some \<lparr> guid_bytes = ByteString_as_ref b \<rparr>)"

definition StatusCode_byte_len :: "StatusCode \<Rightarrow> nat" where
  "StatusCode_byte_len c = 4"

definition StatusCode_encode :: "StatusCode \<Rightarrow> writer" where
  "StatusCode_encode c = write_u32 c"

definition StatusCode_decode :: "DecodingOptions \<Rightarrow> StatusCode reader" where
  "StatusCode_decode opts = mapD from_bits_truncate read_u32"

section \<open>Dates\<close>

definition NANOS_PER_SECOND :: int where "NANOS_PER_SECOND = 1000000000"
definition NANOS_PER_TICK :: int where "NANOS_PER_TICK = 100"
definition TICKS_PER_SECOND :: int where "TICKS_PER_SECOND = NANOS_PER_SECOND div NANOS_PER_TICK"

record DateTime =
  date_time :: int

definition epoch_chrono :: int where
  "epoch_chrono = 0"

definition endtimes_chrono :: int where
  "endtimes_chrono = 265046774399 * NANOS_PER_SECOND"

definition DateTime_from_utc :: "int \<Rightarrow> DateTime" where
  "DateTime_from_utc t =
     (let nanos = t mod NANOS_PER_SECOND
      in \<lparr> date_time = t - nanos + (nanos div NANOS_PER_TICK) * NANOS_PER_TICK \<rparr>)"

definition DateTime_endtimes :: DateTime where
  "DateTime_endtimes = DateTime_from_utc endtimes_chrono"

definition DateTime_epoch :: DateTime where
  "DateTime_epoch = DateTime_from_utc epoch_chrono"

definition DateTime_null :: DateTime where
  "DateTime_null = DateTime_epoch"

definition DateTime_from_i64 :: "64 word \<Rightarrow> DateTime" where
  "DateTime_from_i64 v =
     (if sint v = 2 ^ 63 - 1 then DateTime_endtimes
      else let secs = sint v sdiv TICKS_PER_SECOND;
               nanos = (sint v - secs * TICKS_PER_SECOND) * NANOS_PER_TICK
           in DateTime_from_utc (epoch_chrono + (secs * NANOS_PER_SECOND + nanos)))"

definition duration_to_ticks :: "int \<Rightarrow> int" where
  "duration_to_ticks d =
     (let seconds = d sdiv NANOS_PER_SECOND;
          nanos = d - seconds * NANOS_PER_SECOND
      in seconds * TICKS_PER_SECOND + nanos sdiv NANOS_PER_TICK)"

definition DateTime_ticks :: "DateTime \<Rightarrow> int" where
  "DateTime_ticks dt = duration_to_ticks (date_time dt - epoch_chrono)"

definition endtimes_ticks :: int where
  "endtimes_ticks = duration_to_ticks (endtimes_chrono - epoch_chrono)"

definition DateTime_checked_ticks :: "DateTime \<Rightarrow> 64 word" where
  "DateTime_checked_ticks dt =
     (if DateTime_ticks dt < 0 then 0
      else if DateTime_ticks dt > endtimes_ticks then word_of_int (2 ^ 63 - 1)
      else word_of_int (DateTime_ticks dt))"

definition DateTime_is_null :: "DateTime \<Rightarrow> bool" where
  "DateTime_is_null dt \<longleftrightarrow> DateTime_ticks dt = 0"

definition DateTime_add :: "DateTime \<Rightarrow> int \<Rightarrow> DateTime" where
  "DateTime_add dt d = DateTime_from_utc (date_time dt + d)"

definition DateTime_diff :: "DateTime \<Rightarrow> DateTime \<Rightarrow> int" where
  "DateTime_diff a b = date_time a - date_time b"

definition DateTime_sub :: "DateTime \<Rightarrow> int \<Rightarrow> DateTime" where
  "DateTime_sub dt d = DateTime_from_utc (date_time dt - d)"

definition DateTime_byte_len :: "DateTime \<Rightarrow> nat" where
  "DateTime_byte_len dt = 8"

definition DateTime_encode :: "DateTime \<Rightarrow> writer" where
  "DateTime_encode dt = write_i64 (DateTime_checked_ticks dt)"

definition DateTime_decode :: "DecodingOptions \<Rightarrow> DateTime reader" where
  "DateTime_decode opts =
     mapD (\<lambda>ticks. DateTime_sub (DateTime_from_i64 ticks) (client_offset opts)) read_i64"

section \<open>Qualified names and localized texts\<close>

record QualifiedName =
  namespace_index :: u16
  qn_name :: UAString

definition QualifiedName_null :: QualifiedName where
  "QualifiedName_null = \<lparr> namespace_index = 0, qn_name = UAString_null \<rparr>"

definition QualifiedName_is_null :: "QualifiedName \<Rightarrow> bool" where
  "QualifiedName_is_null q \<longleftrightarrow> namespace_index q = 0 \<and> UAString_is_null (qn_name q)"

definition QualifiedName_byte_len :: "QualifiedName \<Rightarrow> nat" where
  "QualifiedName_byte_len q = u16_byte_len (namespace_index q) + UAString_byte_len (qn_name q)"

definition QualifiedName_encode :: "QualifiedName \<Rightarrow> writer" where
  "QualifiedName_encode q =
     assert_size (QualifiedName_byte_len q)
       (thenW (u16_encode (namespace_index q)) (UAString_encode (qn_name q)))"

definition QualifiedName_decode :: "DecodingOptions \<Rightarrow> QualifiedName reader" where
  "QualifiedName_decode opts =
     bindD (u16_decode opts) (\<lambda>ns.
     bindD (UAString_decode opts) (\<lambda>nm.
       returnD \<lparr> namespace_index = ns, qn_name = nm \<rparr>))"

record LocalizedText =
  lt_locale :: UAString
  lt_text :: UAString

definition LocalizedText_null :: LocalizedText where
  "LocalizedText_null = \<lparr> lt_locale = UAString_null, lt_text = UAString_null \<rparr>"

definition LocalizedText_byte_len :: "LocalizedText \<Rightarrow> nat" where
  "LocalizedText_byte_len t =
     1 + (if \<not> UAString_is_empty (lt_locale t) then UAString_byte_len (lt_locale t) else 0)
       + (if \<not> UAString_is_empty (lt_text t) then UAString_byte_len (lt_text t) else 0)"

definition LocalizedText_encode :: "LocalizedText \<Rightarrow> writer" where
  "LocalizedText_encode t =
     (let mask0 = (0 :: u8);
          mask1 = (if \<not> UAString_is_empty (lt_locale t) then mask0 OR 1 else mask0);
          mask2 = (if \<not> UAString_is_empty (lt_text t) then mask1 OR 2 else mask1)
      in thenW (u8_encode mask2)
        (thenW (if \<not> UAString_is_empty (lt_locale t) then UAString_encode (lt_locale t) else nopW)
               (if \<not> UAString_is_empty (lt_text t) then UAString_encode (lt_text t) else nopW)))"

definition LocalizedText_decode :: "DecodingOptions \<Rightarrow> LocalizedText reader" where
  "LocalizedText_decode opts =
     bindD (u8_decode opts) (\<lambda>mask.
     bindD (if mask AND 1 \<noteq> 0 then UAString_decode opts else returnD UAString_null) (\<lambda>loc.
     bindD (if mask AND 2 \<noteq> 0 then UAString_decode opts else returnD UAString_null) (\<lambda>txt.
       returnD \<lparr> lt_locale = loc, lt_text = txt \<rparr>)))"

section \<open>Node ids\<close>

datatype Identifier =
    IdNumeric u32
  | IdString UAString
  | IdGuid Guid
  | IdByteString ByteString

record NodeId =
  ni_namespace :: u16
  ni_identifier :: Identifier

definition NodeId_new :: "u16 \<Rightarrow> Identifier \<Rightarrow> NodeId" where
  "NodeId_new ns i = \<lparr> ni_namespace = ns, ni_identifier = i \<rparr>"

definition NodeId_null :: NodeId where
  "NodeId_null = NodeId_new 0 (IdNumeric 0)"

definition NodeId_is_null :: "NodeId \<Rightarrow> bool" where
  "NodeId_is_null n \<longleftrightarrow> ni_namespace n = 0 \<and> ni_identifier n = IdNumeric 0"

definition NodeId_byte_len :: "NodeId \<Rightarrow> nat" where
  "NodeId_byte_len n =
     (case ni_identifier n of
        IdNumeric v \<Rightarrow>
          if ni_namespace n = 0 \<and> v \<le> 255 then 2
          else if ni_namespace n \<le> 255 \<and> v \<le> 65535 then 4
          else 7
      | IdString v \<Rightarrow> 3 + UAString_byte_len v
      | IdGuid v \<Rightarrow> 3 + Guid_byte_len v
      | IdByteString v \<Rightarrow> 3 + ByteString_byte_len v)"

definition NodeId_encode :: "NodeId \<Rightarrow> writer" where
  "NodeId_encode n =
     assert_size (NodeId_byte_len n)
       (case ni_identifier n of
          IdNumeric v \<Rightarrow>
            if ni_namespace n = 0 \<and> v \<le> 255 then thenW (write_u8 0) (write_u8 (ucast v))
            else if ni_namespace n \<le> 255 \<and> v \<le> 65535 then
              thenW (write_u8 1) (thenW (write_u8 (ucast (ni_namespace n))) (write_u16 (ucast v)))
            else thenW (write_u8 2) (thenW (write_u16 (ni_namespace n)) (write_u32 v))
        | IdString v \<Rightarrow> thenW (write_u8 3) (thenW (write_u16 (ni_namespace n)) (UAString_encode v))
        | IdGuid v \<Rightarrow> thenW (write_u8 4) (thenW (write_u16 (ni_namespace n)) (Guid_encode v))
        | IdByteString v \<Rightarrow> thenW (write_u8 5) (thenW (write_u16 (ni_namespace n)) (ByteString_encode v)))"

definition NodeId_decode :: "DecodingOptions \<Rightarrow> NodeId reader" where
  "NodeId_decode opts =
     bindD read_u8 (\<lambda>identifier.
       if identifier = 0 then
         bindD read_u8 (\<lambda>v. returnD (NodeId_new 0 (IdNumeric (ucast v))))
       else if identifier = 1 then
         bindD read_u8 (\<lambda>ns. bindD read_u16 (\<lambda>v. returnD (NodeId_new (ucast ns) (IdNumeric (ucast v)))))
       else if identifier = 2 then
         bindD read_u16 (\<lambda>ns. bindD read_u32 (\<lambda>v. returnD (NodeId_new ns (IdNumeric v))))
       else if identifier = 3 then
         bindD read_u16 (\<lambda>ns. bindD (UAString_decode opts) (\<lambda>v. returnD (NodeId_new ns (IdString v))))
       else if identifier = 4 then
         bindD read_u16 (\<lambda>ns. bindD (Guid_decode opts) (\<lambda>v. returnD (NodeId_new ns (IdGuid v))))
       else if identifier = 5 then
         bindD read_u16 (\<lambda>ns. bindD (ByteString_decode opts) (\<lambda>v. returnD (NodeId_new ns (IdByteString v))))
       else failD (Err BadDecodingError))"

record ExpandedNodeId =
  en_node_id :: NodeId
  en_namespace_uri :: UAString
  en_server_index :: u32

definition ExpandedNodeId_byte_len :: "ExpandedNodeId \<Rightarrow> nat" where
  "ExpandedNodeId_byte_len e =
     NodeId_byte_len (en_node_id e)
       + (if \<not> UAString_is_null (en_namespace_uri e) then UAString_byte_len (en_namespace_uri e) else 0)
       + (if en_server_index e \<noteq> 0 then u32_byte_len (en_server_index e) else 0)"

definition ExpandedNodeId_data_encoding :: "ExpandedNodeId \<Rightarrow> u8" where
  "ExpandedNodeId_data_encoding e =
     (let d0 = (0 :: u8);
          d1 = (if \<not> UAString_is_null (en_namespace_uri e) then d0 OR 0x80 else d0)
      in if en_server_index e \<noteq> 0 then d1 OR 0x40 else d1)"

definition ExpandedNodeId_encode :: "ExpandedNodeId \<Rightarrow> writer" where
  "ExpandedNodeId_encode e =
     (let d = ExpandedNodeId_data_encoding e; ns = ni_namespace (en_node_id e)
      in assert_size (ExpandedNodeId_byte_len e)
       (thenW
         (case ni_identifier (en_node_id e) of
            IdNumeric v \<Rightarrow>
              if ns = 0 \<and> v \<le> 255 then thenW (write_u8 d) (write_u8 (ucast v))
              else if ns \<le> 255 \<and> v \<le> 65535 then
                thenW (write_u8 (d OR 1)) (thenW (write_u8 (ucast ns)) (write_u16 (ucast v)))
              else thenW (write_u8 (d OR 2)) (thenW (write_u16 ns) (write_u32 v))
          | IdString v \<Rightarrow> thenW (write_u8 (d OR 3)) (thenW (write_u16 ns) (UAString_encode v))
          | IdGuid v \<Rightarrow> thenW (write_u8 (d OR 4)) (thenW (write_u16 ns) (Guid_encode v))
          | IdByteString v \<Rightarrow> thenW (write_u8 (d OR 5)) (thenW (write_u16 ns) (ByteString_encode v)))
         (thenW (if \<not> UAString_is_null (en_namespace_uri e) then UAString_encode (en_namespace_uri e) else nopW)
                (if en_server_index e \<noteq> 0 then u32_encode (en_server_index e) else nopW))))"

definition ExpandedNodeId_decode :: "DecodingOptions \<Rightarrow> ExpandedNodeId reader" where
  "ExpandedNodeId_decode opts =
     bindD read_u8 (\<lambda>data_encoding.
     bindD (let identifier = data_encoding AND 0x0f in
       if identifier = 0 then
         bindD read_u8 (\<lambda>v. returnD (NodeId_new 0 (IdNumeric (ucast v))))
       else if identifier = 1 then
         bindD read_u8 (\<lambda>ns. bindD read_u16 (\<lambda>v. returnD (NodeId_new (ucast ns) (IdNumeric (ucast v)))))
       else if identifier = 2 then
         bindD read_u16 (\<lambda>ns. bindD read_u32 (\<lambda>v. returnD (NodeId_new ns (IdNumeric v))))
       else if identifier = 3 then
         bindD read_u16 (\<lambda>ns. bindD (UAString_decode opts) (\<lambda>v. returnD (NodeId_new ns (IdString v))))
       else if identifier = 4 then
         bindD read_u16 (\<lambda>ns. bindD (Guid_decode opts) (\<lambda>v. returnD (NodeId_new ns (IdGuid v))))
       else if identifier = 5 then
         bindD read_u16 (\<lambda>ns. bindD (ByteString_decode opts) (\<lambda>v. returnD (NodeId_new ns (IdByteString v))))
       else failD (Err BadDecodingError)) (\<lambda>node_id.
     bindD (if data_encoding AND 0x80 \<noteq> 0 then UAString_decode opts else returnD UAString_null) (\<lambda>uri.
     bindD (if data_encoding AND 0x40 \<noteq> 0 then u32_decode opts else returnD 0) (\<lambda>idx.
       returnD \<lparr> en_node_id = node_id, en_namespace_uri = uri, en_server_index = idx \<rparr>))))"

section \<open>Wire formats\<close>

definition UAString_bytes :: "UAString \<Rightarrow> u8 list" where
  "UAString_bytes s =
     (case ua_value s of None \<Rightarrow> le_bytes 4 (-1 :: 32 word)
      | Some v \<Rightarrow> le_bytes 4 (of_nat (length v) :: 32 word) @ v)"

definition UAString_fits :: "DecodingOptions \<Rightarrow> UAString \<Rightarrow> bool" where
  "UAString_fits opts s =
     (case ua_value s of None \<Rightarrow> True
      | Some v \<Rightarrow> utf8_valid v \<and> length v \<le> max_string_length opts \<and> length v < 2 ^ 31)"

definition ByteString_bytes :: "ByteString \<Rightarrow> u8 list" where
  "ByteString_bytes b =
     (case bs_value b of None \<Rightarrow> le_bytes 4 (-1 :: 32 word)
      | Some v \<Rightarrow> le_bytes 4 (of_nat (length v) :: 32 word) @ v)"

definition ByteString_fits :: "DecodingOptions \<Rightarrow> ByteString \<Rightarrow> bool" where
  "ByteString_fits opts b =
     (case bs_value b of None \<Rightarrow> True
      | Some v \<Rightarrow> length v \<le> max_byte_string_length opts \<and> length v < 2 ^ 31)"

definition Guid_valid :: "Guid \<Rightarrow> bool" where
  "Guid_valid g \<longleftrightarrow> length (guid_bytes g) = 16"

definition DateTime_bytes :: "DateTime \<Rightarrow> u8 list" where
  "DateTime_bytes dt = le_bytes 8 (DateTime_checked_ticks dt)"

definition DateTime_clamp :: "DateTime \<Rightarrow> DateTime" where
  "DateTime_clamp dt =
     (if date_time dt < epoch_chrono then \<lparr> date_time = epoch_chrono \<rparr>
      else if date_time dt \<ge> endtimes_chrono then \<lparr> date_time = endtimes_chrono \<rparr>
      else \<lparr> date_time = date_time dt - date_time dt mod NANOS_PER_TICK \<rparr>)"

definition DateTime_in_range :: "DateTime \<Rightarrow> bool" where
  "DateTime_in_range dt \<longleftrightarrow>
     0 \<le> date_time dt \<and> date_time dt \<le> endtimes_chrono \<and> date_time dt mod NANOS_PER_TICK = 0"

definition DateTime_fits :: "DecodingOptions \<Rightarrow> DateTime \<Rightarrow> bool" where
  "DateTime_fits opts dt \<longleftrightarrow> DateTime_in_range dt \<and> client_offset opts = 0"

definition QualifiedName_bytes :: "QualifiedName \<Rightarrow> u8 list" where
  "QualifiedName_bytes q = le_bytes 2 (namespace_index q) @ UAString_bytes (qn_name q)"

definition QualifiedName_fits :: "DecodingOptions \<Rightarrow> QualifiedName \<Rightarrow> bool" where
  "QualifiedName_fits opts q = UAString_fits opts (qn_name q)"

definition opt_string_bytes :: "UAString \<Rightarrow> u8 list" where
  "opt_string_bytes s = (if UAString_is_empty s then [] else UAString_bytes s)"

definition LocalizedText_mask :: "LocalizedText \<Rightarrow> u8" where
  "LocalizedText_mask t = (if UAString_is_empty (lt_locale t) then 0 else 1)
                       OR (if UAString_is_empty (lt_text t) then 0 else 2)"

definition LocalizedText_bytes :: "LocalizedText \<Rightarrow> u8 list" where
  "LocalizedText_bytes t =
     [LocalizedText_mask t] @ opt_string_bytes (lt_locale t) @ opt_string_bytes (lt_text t)"

definition null_or_nonempty :: "UAString \<Rightarrow> bool" where
  "null_or_nonempty s \<longleftrightarrow> ua_value s \<noteq> Some []"

definition LocalizedText_fits :: "DecodingOptions \<Rightarrow> LocalizedText \<Rightarrow> bool" where
  "LocalizedText_fits opts t \<longleftrightarrow>
     UAString_fits opts (lt_locale t) \<and> UAString_fits opts (lt_text t) \<and>
     null_or_nonempty (lt_locale t) \<and> null_or_nonempty (lt_text t)"

definition NodeId_tag :: "NodeId \<Rightarrow> u8" where
  "NodeId_tag n =
     (case ni_identifier n of
        IdNumeric v \<Rightarrow>
          if ni_namespace n = 0 \<and> v \<le> 255 then 0
          else if ni_namespace n \<le> 255 \<and> v \<le> 65535 then 1 else 2
      | IdString v \<Rightarrow> 3 | IdGuid v \<Rightarrow> 4 | IdByteString v \<Rightarrow> 5)"

definition NodeId_body_bytes :: "NodeId \<Rightarrow> u8 list" where
  "NodeId_body_bytes n =
     (case ni_identifier n of
        IdNumeric v \<Rightarrow>
          if ni_namespace n = 0 \<and> v \<le> 255 then [ucast v]
          else if ni_namespace n \<le> 255 \<and> v \<le> 65535 then
            ucast (ni_namespace n) # le_bytes 2 (ucast v :: u16)
          else le_bytes 2 (ni_namespace n) @ le_bytes 4 v
      | IdString v \<Rightarrow> le_bytes 2 (ni_namespace n) @ UAString_bytes v
      | IdGuid v \<Rightarrow> le_bytes 2 (ni_namespace n) @ guid_bytes v
      | IdByteString v \<Rightarrow> le_bytes 2 (ni_namespace n) @ ByteString_bytes v)"

definition NodeId_tagged_bytes :: "u8 \<Rightarrow> NodeId \<Rightarrow> u8 list" where
  "NodeId_tagged_bytes d n = (d OR NodeId_tag n) # NodeId_body_bytes n"

definition NodeId_bytes :: "NodeId \<Rightarrow> u8 list" where
  "NodeId_bytes n = NodeId_tagged_bytes 0 n"

definition NodeId_valid :: "NodeId \<Rightarrow> bool" where
  "NodeId_valid n = (case ni_identifier n of IdGuid g \<Rightarrow> Guid_valid g | _ \<Rightarrow> True)"

definition NodeId_fits :: "DecodingOptions \<Rightarrow> NodeId \<Rightarrow> bool" where
  "NodeId_fits opts n =
     (case ni_identifier n of
        IdNumeric v \<Rightarrow> True
      | IdString v \<Rightarrow> UAString_fits opts v
      | IdGuid g \<Rightarrow> Guid_valid g
      | IdByteString v \<Rightarrow> ByteString_fits opts v)"

definition ExpandedNodeId_bytes :: "ExpandedNodeId \<Rightarrow> u8 list" where
  "ExpandedNodeId_bytes e =
     NodeId_tagged_bytes (ExpandedNodeId_data_encoding e) (en_node_id e)
       @ (if \<not> UAString_is_null (en_namespace_uri e) then UAString_bytes (en_namespace_uri e) else [])
       @ (if en_server_index e \<noteq> 0 then le_bytes 4 (en_server_index e) else [])"

definition ExpandedNodeId_fits :: "DecodingOptions \<Rightarrow> ExpandedNodeId \<Rightarrow> bool" where
  "ExpandedNodeId_fits opts e \<longleftrightarrow>
     NodeId_fits opts (en_node_id e) \<and> UAString_fits opts (en_namespace_uri e)"

section \<open>Strings, byte strings, guids and status codes meet the contract\<close>

lemma length_UAString_bytes: "UAString_byte_len s = length (UAString_bytes s)"
  by (simp add: UAString_byte_len_def UAString_bytes_def split: option.splits)

lemma UAString_encode_writes [writes_rules]: "writes (UAString_encode s) (UAString_bytes s)"
proof (cases "ua_value s")
  case (Some v)
  then have "writes (thenW (write_i32 (of_nat (length v))) (writeW v)) (UAString_bytes s)"
    by (auto simp: UAString_bytes_def intro: writes_rules)
  with Some show ?thesis
    by (auto simp: UAString_encode_def length_UAString_bytes intro: writes_assert_size)
qed (auto simp: UAString_encode_def UAString_bytes_def intro: writes_rules)

lemma UAString_decode_reads:
  assumes "UAString_fits opts s"
  shows "reads (UAString_decode opts) (UAString_bytes s) s"
proof (cases "ua_value s")
  case None
  have "reads (UAString_decode opts) (le_bytes 4 (-1 :: 32 word) @ []) UAString_null"
    unfolding UAString_decode_def i32_decode_def by (rule reads_bindD [OF reads_ints(4)]) simp
  with None show ?thesis by (cases s) (simp add: UAString_bytes_def UAString_null_def)
next
  case (Some v)
  with assms have len: "length v \<le> max_string_length opts" "length v < 2 ^ 31" and u: "utf8_valid v"
    by (auto simp: UAString_fits_def)
  have "reads (bindD (read_exact (length v)) (\<lambda>buf.
          if utf8_valid buf then returnD (UAString_from buf) else failD (Err BadDecodingError)))
        (v @ []) (UAString_from v)"
    by (rule reads_bindD [OF reads_read_exact]) (simp_all add: u)
  then have "reads (UAString_decode opts) (le_bytes 4 (of_nat (length v) :: 32 word) @ v) (UAString_from v)"
    unfolding UAString_decode_def i32_decode_def
    by (intro reads_bindD [OF reads_ints(4)]) (use len in simp)
  with Some show ?thesis by (cases s) (simp add: UAString_bytes_def UAString_from_def)
qed

lemma UAString_decode_safe [safe_rules]: "safe_reader 4 (UAString_decode opts)"
  unfolding UAString_decode_def i32_decode_def
  by (rule safe_first [OF safe_ints(4)]) (intro safe0_rules)

lemmas UAString_decode_safe0 [safe0_rules] = UAString_decode_safe [THEN safe_reader_0]

interpretation UAString_codec: codec UAString_byte_len UAString_encode UAString_bytes "\<lambda>_. True"
  UAString_decode 4 UAString_fits
  by unfold_locales
    (simp_all add: UAString_encode_writes length_UAString_bytes UAString_decode_safe UAString_decode_reads)

lemma length_ByteString_bytes: "ByteString_byte_len b = length (ByteString_bytes b)"
  by (simp add: ByteString_byte_len_def ByteString_bytes_def split: option.splits)

lemma ByteString_encode_writes [writes_rules]: "writes (ByteString_encode b) (ByteString_bytes b)"
proof (cases "bs_value b")
  case (Some v)
  then have "writes (thenW (write_i32 (of_nat (length v))) (writeW v)) (ByteString_bytes b)"
    by (auto simp: ByteString_bytes_def intro: writes_rules)
  with Some show ?thesis
    by (auto simp: ByteString_encode_def length_ByteString_bytes intro: writes_assert_size)
qed (auto simp: ByteString_encode_def ByteString_bytes_def intro: writes_rules)

lemma ByteString_decode_reads:
  assumes "ByteString_fits opts b"
  shows "reads (ByteString_decode opts) (ByteString_bytes b) b"
proof (cases "bs_value b")
  case None
  have "reads (ByteString_decode opts) (le_bytes 4 (-1 :: 32 word) @ []) ByteString_null"
    unfolding ByteString_decode_def i32_decode_def by (rule reads_bindD [OF reads_ints(4)]) simp
  with None show ?thesis by (cases b) (simp add: ByteString_bytes_def ByteString_null_def)
next
  case (Some v)
  with assms have len: "length v \<le> max_byte_string_length opts" "length v < 2 ^ 31"
    by (auto simp: ByteString_fits_def)
  have "reads (ByteString_decode opts) (le_bytes 4 (of_nat (length v) :: 32 word) @ v) \<lparr> bs_value = Some v \<rparr>"
    unfolding ByteString_decode_def i32_decode_def
    by (intro reads_bindD [OF reads_ints(4)])
      (use len reads_mapD [OF reads_read_exact, of "length v" v] in simp)
  with Some show ?thesis by (cases b) (simp add: ByteString_bytes_def)
qed

lemma ByteString_decode_safe [safe_rules]: "safe_reader 4 (ByteString_decode opts)"
  unfolding ByteString_decode_def i32_decode_def
  by (rule safe_first [OF safe_ints(4)]) (intro safe0_rules)

lemmas ByteString_decode_safe0 [safe0_rules] = ByteString_decode_safe [THEN safe_reader_0]

interpretation ByteString_codec: codec ByteString_byte_len ByteString_encode ByteString_bytes "\<lambda>_. True"
  ByteString_decode 4 ByteString_fits
  by unfold_locales
    (simp_all add: ByteString_encode_writes length_ByteString_bytes ByteString_decode_safe ByteString_decode_reads)

lemma Guid_decode_reads: "Guid_valid g \<Longrightarrow> reads (Guid_decode opts) (guid_bytes g) g"
  unfolding Guid_decode_def
  using reads_mapD [OF reads_read_exact, of 16 "guid_bytes g" "\<lambda>b. \<lparr> guid_bytes = b \<rparr>"]
  by (cases g) (simp add: Guid_valid_def)

lemma Guid_decode_safe [safe_rules]: "safe_reader 16 (Guid_decode opts)"
  unfolding Guid_decode_def by (intro safe_mapD safe_read_exact)

lemmas Guid_decode_safe0 [safe0_rules] = Guid_decode_safe [THEN safe_reader_0]

interpretation Guid_codec: codec Guid_byte_len Guid_encode guid_bytes Guid_valid Guid_decode 16 "\<lambda>_. Guid_valid"
  by unfold_locales
    (simp_all add: Guid_encode_def Guid_byte_len_def Guid_valid_def writes_writeW Guid_decode_safe Guid_decode_reads)

interpretation StatusCode_codec: codec StatusCode_byte_len StatusCode_encode "le_bytes 4" "\<lambda>_. True"
  StatusCode_decode 4 "\<lambda>_ _. True"
proof unfold_locales
  fix opts and v :: StatusCode
  show "reads (StatusCode_decode opts) (le_bytes 4 v) v"
    using reads_mapD [OF reads_ints(5), of from_bits_truncate v] by (simp add: StatusCode_decode_def)
qed (simp_all add: StatusCode_encode_def StatusCode_byte_len_def StatusCode_decode_def writes_ints safe_rules)

section \<open>Dates meet the contract\<close>

lemma sdiv_nonneg: "0 \<le> a \<Longrightarrow> 0 < b \<Longrightarrow> (a::int) sdiv b = a div b"
  by (simp add: signed_divide_int_def sgn_if)

lemmas time_consts = NANOS_PER_SECOND_def NANOS_PER_TICK_def TICKS_PER_SECOND_def
  epoch_chrono_def endtimes_chrono_def

lemma div_100_split: "(d::int) div 100 = d div 1000000000 * 10000000 + d mod 1000000000 div 100"
proof -
  have "(r + (q * 10000000) * 100) div 100 = q * 10000000 + r div 100" for q r :: int by simp
  from this [of "d mod 1000000000" "d div 1000000000"] show ?thesis by simp
qed

lemma duration_to_ticks_nonneg:
  assumes "0 \<le> d"
  shows "duration_to_ticks d = d div 100"
    using assms
    by (simp add: div_100_split [of d] duration_to_ticks_def time_consts sdiv_nonneg minus_div_mult_eq_mod)

lemma DateTime_from_utc_ticks: "date_time (DateTime_from_utc t) = (t div 100) * 100"
  by (simp add: div_100_split [of t] DateTime_from_utc_def time_consts Let_def minus_mod_eq_mult_div)

lemma endtimes_ticks_eq: "endtimes_ticks = 2650467743990000000"
  by (simp add: endtimes_ticks_def duration_to_ticks_nonneg time_consts)

lemma DateTime_from_i64_ticks:
  assumes "0 \<le> n" "n < 2 ^ 63 - 1"
  shows "date_time (DateTime_from_i64 (word_of_int n)) = n * 100"
proof -
  have s: "sint (word_of_int n :: 64 word) = n"
    using assms by (simp add: sint_sbintrunc' signed_take_bit_int_eq_self)
  have "n div 10000000 * 1000000000 + (n - n div 10000000 * 10000000) * 100 = n * 100"
    by (simp only: left_diff_distrib mult.assoc)
  then show ?thesis
    using assms by (simp add: DateTime_from_i64_def s sdiv_nonneg time_consts DateTime_from_utc_ticks Let_def)
qed

lemma DateTime_checked_ticks_in_range:
  assumes "DateTime_in_range dt"
  shows "DateTime_checked_ticks dt = word_of_int (date_time dt div 100)"
    and "date_time dt div 100 \<le> endtimes_ticks"
  using assms
  by (auto simp: DateTime_checked_ticks_def DateTime_ticks_def DateTime_in_range_def
      duration_to_ticks_nonneg endtimes_ticks_def time_consts zdiv_mono1 not_less pos_imp_zdiv_nonneg_iff)

lemma duration_to_ticks_neg: "d < 0 \<Longrightarrow> duration_to_ticks d \<le> 0"
proof -
  assume d: "d < 0"
  have s: "a sdiv b \<le> 0" if "a \<le> 0" "0 < b" for a b :: int
    using that by (simp add: signed_divide_int_def sgn_if pos_imp_zdiv_nonneg_iff)
  have "d sdiv 1000000000 = - ((- d) div 1000000000)"
    using d by (simp add: signed_divide_int_def sgn_if)
  then have "d - d sdiv 1000000000 * 1000000000 = - ((- d) mod 1000000000)"
    by (simp add: minus_div_mult_eq_mod [symmetric])
  then have "d - d sdiv 1000000000 * 1000000000 \<le> 0" by simp
  then have "(d - d sdiv 1000000000 * 1000000000) sdiv 100 \<le> 0" by (rule s) simp
  moreover have "d sdiv 1000000000 \<le> 0" using d by (intro s) simp_all
  ultimately show ?thesis by (simp add: duration_to_ticks_def time_consts Let_def)
qed

lemma endtimes_chrono_ns: "endtimes_chrono = 265046774399000000000"
  by (simp add: time_consts)

lemma DateTime_from_i64_0: "DateTime_from_i64 0 = \<lparr> date_time = 0 \<rparr>"
  using DateTime_from_i64_ticks [of 0] by (cases "DateTime_from_i64 0") simp

lemma DateTime_checked_ticks_clamp: "DateTime_from_i64 (DateTime_checked_ticks dt) = DateTime_clamp dt"
proof (cases "date_time dt < 0")
  case True
  then have "DateTime_ticks dt \<le> 0"
    by (simp add: DateTime_ticks_def duration_to_ticks_neg epoch_chrono_def)
  then have "DateTime_checked_ticks dt = 0"
    by (auto simp: DateTime_checked_ticks_def endtimes_ticks_eq)
  with True show ?thesis by (simp add: DateTime_from_i64_0 DateTime_clamp_def epoch_chrono_def)
next
  case False
  then have ticks: "DateTime_ticks dt = date_time dt div 100"
    by (simp add: DateTime_ticks_def duration_to_ticks_nonneg epoch_chrono_def)
  have nn: "0 \<le> date_time dt div 100" using False by (simp add: pos_imp_zdiv_nonneg_iff)
  have roundtrip: "DateTime_from_i64 (word_of_int n) = \<lparr> date_time = n * 100 \<rparr>" if "0 \<le> n" "n < 2 ^ 63 - 1" for n
    using DateTime_from_i64_ticks [OF that] by (cases "DateTime_from_i64 (word_of_int n)") simp
  have endt: "DateTime_endtimes = \<lparr> date_time = endtimes_chrono \<rparr>"
    using DateTime_from_utc_ticks [of endtimes_chrono]
    by (cases DateTime_endtimes) (simp add: DateTime_endtimes_def time_consts)
  show ?thesis
  proof (cases "date_time dt div 100 > endtimes_ticks")
    case True
    then have "endtimes_chrono \<le> date_time dt" unfolding endtimes_ticks_eq time_consts by linarith
    with True False nn show ?thesis
      by (simp add: DateTime_checked_ticks_def ticks DateTime_from_i64_def endt DateTime_clamp_def epoch_chrono_def)
  next
    case le: False
    have n: "date_time dt div 100 < 2 ^ 63 - 1" using le by (simp add: endtimes_ticks_eq)
    have "DateTime_from_i64 (DateTime_checked_ticks dt) = \<lparr> date_time = date_time dt div 100 * 100 \<rparr>"
      using le nn roundtrip [OF nn n] by (simp add: DateTime_checked_ticks_def ticks)
    moreover have "date_time dt div 100 * 100 = date_time dt - date_time dt mod 100"
      by (simp add: minus_mod_eq_div_mult)
    moreover have "endtimes_chrono \<le> date_time dt \<Longrightarrow> date_time dt div 100 * 100 = endtimes_chrono"
      using le zdiv_mono1 [of endtimes_chrono "date_time dt" 100] unfolding endtimes_ticks_eq endtimes_chrono_ns by simp
    ultimately show ?thesis using False
      by (auto simp: DateTime_clamp_def NANOS_PER_TICK_def epoch_chrono_def)
  qed
qed

lemma DateTime_round_trip_ticks:
  assumes "DateTime_in_range dt"
  shows "DateTime_from_i64 (DateTime_checked_ticks dt) = dt"
proof -
  have "0 \<le> date_time dt div 100" and "date_time dt div 100 * 100 = date_time dt"
    using assms by (auto simp: DateTime_in_range_def time_consts pos_imp_zdiv_nonneg_iff)
  with DateTime_checked_ticks_in_range [OF assms] show ?thesis
    using DateTime_from_i64_ticks [of "date_time dt div 100"]
    by (cases dt, cases "DateTime_from_i64 (DateTime_checked_ticks dt)") (simp add: endtimes_ticks_eq)
qed

lemma DateTime_sub_0: "DateTime_in_range dt \<Longrightarrow> DateTime_sub dt 0 = dt"
  using DateTime_from_utc_ticks [of "date_time dt"]
  by (cases dt, cases "DateTime_sub dt 0")
    (auto simp: DateTime_sub_def DateTime_in_range_def time_consts)

lemma DateTime_decode_reads:
  "DateTime_fits opts dt \<Longrightarrow> reads (DateTime_decode opts) (DateTime_bytes dt) dt"
  unfolding DateTime_decode_def DateTime_bytes_def
  using reads_mapD [OF reads_ints(6), of "\<lambda>ticks. DateTime_sub (DateTime_from_i64 ticks) (client_offset opts)"
      "DateTime_checked_ticks dt"]
  by (simp add: DateTime_fits_def DateTime_round_trip_ticks DateTime_sub_0)

lemma DateTime_decode_safe [safe_rules]: "safe_reader 8 (DateTime_decode opts)"
  unfolding DateTime_decode_def by (intro safe_rules)

interpretation DateTime_codec: codec DateTime_byte_len DateTime_encode DateTime_bytes "\<lambda>_. True"
  DateTime_decode 8 DateTime_fits
  by unfold_locales
    (simp_all add: DateTime_decode_safe DateTime_decode_reads,
     simp_all add: DateTime_encode_def DateTime_bytes_def DateTime_byte_len_def writes_ints)

section \<open>Qualified names and localized texts meet the contract\<close>

lemma QualifiedName_codec_laws:
  "writes (QualifiedName_encode q) (QualifiedName_bytes q)"
  "QualifiedName_byte_len q = length (QualifiedName_bytes q)"
  "QualifiedName_fits opts q \<Longrightarrow> reads (QualifiedName_decode opts) (QualifiedName_bytes q) q"
  "safe_reader 6 (QualifiedName_decode opts)"
proof -
  show len: "QualifiedName_byte_len q = length (QualifiedName_bytes q)"
    by (simp add: QualifiedName_byte_len_def QualifiedName_bytes_def u16_byte_len_def length_UAString_bytes)
  show "writes (QualifiedName_encode q) (QualifiedName_bytes q)"
    unfolding QualifiedName_encode_def QualifiedName_bytes_def u16_encode_def
    by (intro writes_assert_size writes_rules) (use len in \<open>simp add: QualifiedName_bytes_def\<close>)
  show "reads (QualifiedName_decode opts) (QualifiedName_bytes q) q" if "QualifiedName_fits opts q"
    using that unfolding QualifiedName_decode_def QualifiedName_bytes_def u16_decode_def
    by (simp add: reads_def read_simps QualifiedName_fits_def readsD [OF UAString_decode_reads])
  have "safe_reader (2 + (4 + 0)) (QualifiedName_decode opts)"
    unfolding QualifiedName_decode_def u16_decode_def by (intro safe_bindD safe_rules)
  then show "safe_reader 6 (QualifiedName_decode opts)" by simp
qed

lemma UAString_empty_null: "null_or_nonempty s \<Longrightarrow> UAString_is_empty s \<Longrightarrow> s = UAString_null"
  by (cases s) (auto simp: null_or_nonempty_def UAString_is_empty_def UAString_null_def split: option.splits)

lemma reads_opt_string:
  assumes "UAString_fits opts s" "null_or_nonempty s" "b \<longleftrightarrow> \<not> UAString_is_empty s"
  shows "reads (if b then UAString_decode opts else returnD UAString_null) (opt_string_bytes s) s"
  using assms UAString_empty_null [of s]
  by (auto simp: opt_string_bytes_def intro: UAString_decode_reads)

lemma LocalizedText_codec_laws:
  "writes (LocalizedText_encode t) (LocalizedText_bytes t)"
  "LocalizedText_byte_len t = length (LocalizedText_bytes t)"
  "LocalizedText_fits opts t \<Longrightarrow> reads (LocalizedText_decode opts) (LocalizedText_bytes t) t"
  "safe_reader 1 (LocalizedText_decode opts)"
proof -
  show "LocalizedText_byte_len t = length (LocalizedText_bytes t)"
    by (simp add: LocalizedText_byte_len_def LocalizedText_bytes_def opt_string_bytes_def length_UAString_bytes)
  have opt: "writes (if \<not> UAString_is_empty s then UAString_encode s else nopW) (opt_string_bytes s)" for s
    by (simp add: opt_string_bytes_def writes_rules)
  have mask: "LocalizedText_mask t = (if \<not> UAString_is_empty (lt_text t)
      then (if \<not> UAString_is_empty (lt_locale t) then 0 OR 1 else 0) OR 2
      else if \<not> UAString_is_empty (lt_locale t) then 0 OR 1 else 0)"
    by (simp add: LocalizedText_mask_def)
  show "writes (LocalizedText_encode t) (LocalizedText_bytes t)"
    unfolding LocalizedText_encode_def LocalizedText_bytes_def Let_def u8_encode_def mask
    by (intro writes_thenW writes_ints opt)
  show "reads (LocalizedText_decode opts) (LocalizedText_bytes t) t" if "LocalizedText_fits opts t"
  proof -
    have m: "LocalizedText_mask t AND 1 \<noteq> 0 \<longleftrightarrow> \<not> UAString_is_empty (lt_locale t)"
      "LocalizedText_mask t AND 2 \<noteq> 0 \<longleftrightarrow> \<not> UAString_is_empty (lt_text t)"
      by (simp_all add: LocalizedText_mask_def)
    from that show ?thesis
      by (simp add: reads_def LocalizedText_decode_def LocalizedText_bytes_def u8_decode_def read_simps
          LocalizedText_fits_def readsD [OF reads_opt_string] m del: not_not)
  qed
  show "safe_reader 1 (LocalizedText_decode opts)"
    unfolding LocalizedText_decode_def u8_decode_def
    by (simp, rule safe_first [OF safe_ints(1)]) (intro safe0_rules)
qed

interpretation QualifiedName_codec: codec QualifiedName_byte_len QualifiedName_encode QualifiedName_bytes "\<lambda>_. True"
  QualifiedName_decode 6 QualifiedName_fits
  by unfold_locales (simp_all add: QualifiedName_codec_laws)

interpretation LocalizedText_codec: codec LocalizedText_byte_len LocalizedText_encode LocalizedText_bytes "\<lambda>_. True"
  LocalizedText_decode 1 LocalizedText_fits
  by unfold_locales (use LocalizedText_codec_laws in \<open>simp_all add: LocalizedText_codec_laws\<close>)

section \<open>Node ids meet the contract\<close>

definition NodeId_body_decode :: "DecodingOptions \<Rightarrow> u8 \<Rightarrow> NodeId reader" where
  "NodeId_body_decode opts identifier =
      (if identifier = 0 then
         bindD read_u8 (\<lambda>v. returnD (NodeId_new 0 (IdNumeric (ucast v))))
       else if identifier = 1 then
         bindD read_u8 (\<lambda>ns. bindD read_u16 (\<lambda>v. returnD (NodeId_new (ucast ns) (IdNumeric (ucast v)))))
       else if identifier = 2 then
         bindD read_u16 (\<lambda>ns. bindD read_u32 (\<lambda>v. returnD (NodeId_new ns (IdNumeric v))))
       else if identifier = 3 then
         bindD read_u16 (\<lambda>ns. bindD (UAString_decode opts) (\<lambda>v. returnD (NodeId_new ns (IdString v))))
       else if identifier = 4 then
         bindD read_u16 (\<lambda>ns. bindD (Guid_decode opts) (\<lambda>v. returnD (NodeId_new ns (IdGuid v))))
       else if identifier = 5 then
         bindD read_u16 (\<lambda>ns. bindD (ByteString_decode opts) (\<lambda>v. returnD (NodeId_new ns (IdByteString v))))
       else failD (Err BadDecodingError))"

lemma NodeId_decode_body: "NodeId_decode opts = bindD read_u8 (NodeId_body_decode opts)"
  by (simp only: NodeId_decode_def NodeId_body_decode_def [abs_def])

lemma ucast_ucast_small:
  fixes w :: "'a::len word"
  assumes "unat w < 2 ^ LENGTH('b::len)"
  shows "ucast (ucast w :: 'b word) = w"
  using assms by (simp add: word_unat_eq_iff unsigned_ucast_eq unsigned_take_bit_eq take_bit_nat_eq_self)

lemma ucast_back:
  "(v :: u32) \<le> 255 \<Longrightarrow> ucast (ucast v :: u8) = v"
  "(v :: u32) \<le> 65535 \<Longrightarrow> ucast (ucast v :: u16) = v"
  "(n :: u16) \<le> 255 \<Longrightarrow> ucast (ucast n :: u8) = n"
  by (rule ucast_ucast_small, simp add: word_le_nat_alt)+

lemma NodeId_body_reads:
  assumes "NodeId_fits opts n"
  shows "reads (NodeId_body_decode opts (NodeId_tag n)) (NodeId_body_bytes n) n"
  using assms
  by (cases n)
    (auto simp: reads_def NodeId_body_decode_def NodeId_tag_def NodeId_body_bytes_def read_simps
      NodeId_new_def ucast_back NodeId_fits_def readsD [OF UAString_decode_reads]
      readsD [OF Guid_decode_reads] readsD [OF ByteString_decode_reads] split: Identifier.splits)

lemma NodeId_body_safe: "safe_reader 0 (NodeId_body_decode opts i)"
  unfolding NodeId_body_decode_def by (intro safe0_rules)

lemma NodeId_body_safe_1: "safe_reader 1 (NodeId_body_decode opts i)"
  unfolding NodeId_body_decode_def One_nat_def
  by (intro safe_if safe_failD safe_first [OF safe_ints(1)] safe0_rules
      safe_first [OF safe_ints(3) [THEN safe_reader_mono]]) simp_all

lemma length_NodeId_body: "NodeId_valid n \<Longrightarrow> NodeId_byte_len n = Suc (length (NodeId_body_bytes n))"
  by (auto simp: NodeId_byte_len_def NodeId_body_bytes_def length_UAString_bytes length_ByteString_bytes
      NodeId_valid_def Guid_valid_def Guid_byte_len_def split: Identifier.splits)
  
lemma NodeId_tagged_writes:
  "writes (case ni_identifier n of
          IdNumeric v \<Rightarrow>
            if ni_namespace n = 0 \<and> v \<le> 255 then thenW (write_u8 d) (write_u8 (ucast v))
            else if ni_namespace n \<le> 255 \<and> v \<le> 65535 then
              thenW (write_u8 (d OR 1)) (thenW (write_u8 (ucast (ni_namespace n))) (write_u16 (ucast v)))
            else thenW (write_u8 (d OR 2)) (thenW (write_u16 (ni_namespace n)) (write_u32 v))
        | IdString v \<Rightarrow> thenW (write_u8 (d OR 3)) (thenW (write_u16 (ni_namespace n)) (UAString_encode v))
        | IdGuid v \<Rightarrow> thenW (write_u8 (d OR 4)) (thenW (write_u16 (ni_namespace n)) (Guid_encode v))
        | IdByteString v \<Rightarrow> thenW (write_u8 (d OR 5)) (thenW (write_u16 (ni_namespace n)) (ByteString_encode v)))
    (NodeId_tagged_bytes d n)"
  unfolding NodeId_tagged_bytes_def NodeId_tag_def NodeId_body_bytes_def writes_def
  using UAString_encode_writes ByteString_encode_writes
  by (auto split: Identifier.splits simp: thenW_def write_int_defs writeW_def writes_def Guid_encode_def)

lemma NodeId_codec_laws:
  "NodeId_valid n \<Longrightarrow> writes (NodeId_encode n) (NodeId_bytes n)"
  "NodeId_valid n \<Longrightarrow> NodeId_byte_len n = length (NodeId_bytes n)"
  "NodeId_fits opts n \<Longrightarrow> reads (NodeId_decode opts) (NodeId_bytes n) n"
  "safe_reader 2 (NodeId_decode opts)"
proof -
  show len: "NodeId_byte_len n = length (NodeId_bytes n)" if "NodeId_valid n"
    using that by (simp add: NodeId_bytes_def NodeId_tagged_bytes_def length_NodeId_body)
  show "writes (NodeId_encode n) (NodeId_bytes n)" if "NodeId_valid n"
    unfolding NodeId_encode_def 
    using NodeId_tagged_writes [of n 0] len [OF that]
    by (intro writes_assert_size) (simp_all add: NodeId_bytes_def cong: Identifier.case_cong if_cong)
  show "reads (NodeId_decode opts) (NodeId_bytes n) n" if "NodeId_fits opts n"
    using NodeId_body_reads [OF that]
    by (simp add: NodeId_decode_body NodeId_bytes_def NodeId_tagged_bytes_def reads_def read_simps)
  show "safe_reader 2 (NodeId_decode opts)"
    using safe_bindD [OF safe_ints(1), of 1 "NodeId_body_decode opts"] NodeId_body_safe_1 by (simp add: NodeId_decode_body numeral_2_eq_2)
qed

lemma NodeId_fits_valid: "NodeId_fits opts n \<Longrightarrow> NodeId_valid n"
  by (auto simp: NodeId_fits_def NodeId_valid_def split: Identifier.splits)

interpretation NodeId_codec: codec NodeId_byte_len NodeId_encode NodeId_bytes NodeId_valid NodeId_decode 2 NodeId_fits
  by unfold_locales (simp_all add: NodeId_codec_laws NodeId_fits_valid)

lemma NodeId_tag_small: "NodeId_tag n \<in> {0, 1, 2, 3, 4, 5}"
  by (auto simp: NodeId_tag_def split: Identifier.splits)

lemma data_encoding_bits:
  "(ExpandedNodeId_data_encoding e OR NodeId_tag n) AND 0x0f = NodeId_tag n"
  "(ExpandedNodeId_data_encoding e OR NodeId_tag n) AND 0x80 \<noteq> 0 \<longleftrightarrow> \<not> UAString_is_null (en_namespace_uri e)"
  "(ExpandedNodeId_data_encoding e OR NodeId_tag n) AND 0x40 \<noteq> 0 \<longleftrightarrow> en_server_index e \<noteq> 0"
  using NodeId_tag_small [of n] by (auto simp: ExpandedNodeId_data_encoding_def)

lemma ExpandedNodeId_decode_body:
  "ExpandedNodeId_decode opts =
     bindD read_u8 (\<lambda>d.
     bindD (NodeId_body_decode opts (d AND 0x0f)) (\<lambda>node_id.
     bindD (if d AND 0x80 \<noteq> 0 then UAString_decode opts else returnD UAString_null) (\<lambda>uri.
     bindD (if d AND 0x40 \<noteq> 0 then u32_decode opts else returnD 0) (\<lambda>idx.
       returnD \<lparr> en_node_id = node_id, en_namespace_uri = uri, en_server_index = idx \<rparr>))))"
  by (simp only: ExpandedNodeId_decode_def NodeId_body_decode_def [abs_def] Let_def)

definition ExpandedNodeId_valid :: "ExpandedNodeId \<Rightarrow> bool" where
  "ExpandedNodeId_valid e = NodeId_valid (en_node_id e)"

lemma ExpandedNodeId_codec_laws:
  "ExpandedNodeId_valid e \<Longrightarrow> writes (ExpandedNodeId_encode e) (ExpandedNodeId_bytes e)"
  "ExpandedNodeId_valid e \<Longrightarrow> ExpandedNodeId_byte_len e = length (ExpandedNodeId_bytes e)"
  "ExpandedNodeId_fits opts e \<Longrightarrow> reads (ExpandedNodeId_decode opts) (ExpandedNodeId_bytes e) e"
  "safe_reader 2 (ExpandedNodeId_decode opts)"
proof -
  show len: "ExpandedNodeId_byte_len e = length (ExpandedNodeId_bytes e)" if "ExpandedNodeId_valid e"
    using that
    by (simp add: ExpandedNodeId_byte_len_def ExpandedNodeId_bytes_def ExpandedNodeId_valid_def
        NodeId_tagged_bytes_def length_NodeId_body length_UAString_bytes u32_byte_len_def)
  show "writes (ExpandedNodeId_encode e) (ExpandedNodeId_bytes e)" if "ExpandedNodeId_valid e"
    unfolding ExpandedNodeId_encode_def Let_def
    using len [OF that] unfolding ExpandedNodeId_bytes_def u32_encode_def
    by (intro writes_assert_size writes_thenW NodeId_tagged_writes writes_rules)
  show "reads (ExpandedNodeId_decode opts) (ExpandedNodeId_bytes e) e" if fit: "ExpandedNodeId_fits opts e"
  proof -
    have uri: "reads (if \<not> UAString_is_null (en_namespace_uri e) then UAString_decode opts else returnD UAString_null)
        (if \<not> UAString_is_null (en_namespace_uri e) then UAString_bytes (en_namespace_uri e) else []) (en_namespace_uri e)"
      using fit
      by (cases "en_namespace_uri e")
        (auto simp: ExpandedNodeId_fits_def UAString_is_null_def UAString_null_def intro: UAString_decode_reads)
    have idx: "reads (if en_server_index e \<noteq> 0 then u32_decode opts else returnD 0)
        (if en_server_index e \<noteq> 0 then le_bytes 4 (en_server_index e) else []) (en_server_index e)"
      by (simp add: u32_decode_def reads_ints)
    show ?thesis
      using fit unfolding ExpandedNodeId_bytes_def NodeId_tagged_bytes_def
      by (simp add: ExpandedNodeId_decode_body ExpandedNodeId_fits_def reads_def read_simps data_encoding_bits
          readsD [OF NodeId_body_reads] readsD [OF uri] readsD [OF idx] del: not_not)
  qed
  have "safe_reader (Suc 0 + (1 + 0)) (ExpandedNodeId_decode opts)"
    unfolding ExpandedNodeId_decode_body u32_decode_def
    by (intro safe_bindD [OF safe_ints(1)] safe_bindD [OF NodeId_body_safe_1] safe0_rules)
  then show "safe_reader 2 (ExpandedNodeId_decode opts)" by (simp add: numeral_2_eq_2)
qed

interpretation ExpandedNodeId_codec: codec ExpandedNodeId_byte_len ExpandedNodeId_encode ExpandedNodeId_bytes
  ExpandedNodeId_valid ExpandedNodeId_decode 2 ExpandedNodeId_fits
  by unfold_locales
    (simp_all add: ExpandedNodeId_codec_laws, auto simp: ExpandedNodeId_fits_def ExpandedNodeId_valid_def NodeId_fits_valid)

section \<open>Properties\<close>

lemma DateTime_clamp_in_range: "DateTime_in_range (DateTime_clamp dt)"
  by (auto simp: DateTime_in_range_def DateTime_clamp_def endtimes_chrono_ns epoch_chrono_def NANOS_PER_TICK_def
      intro: zmod_le_nonneg_dividend)



text \<open>What decoding a string does on every branch: a length of -1 is the null string, any other
  negative length, a length above the limit of the options, a truncated body and a body that
  is not UTF-8 are decoding errors, and otherwise exactly the announced bytes are taken.\<close>

theorem UAString_decode_branches:
  "UAString_decode opts (le_bytes 4 (len :: 32 word) @ body) =
     (if sint len = -1 then Inr (UAString_null, body)
      else if 0 \<le> sint len \<and> sint len \<le> int (max_string_length opts) \<and> sint len \<le> int (length body)
              \<and> utf8_valid (take (nat (sint len)) body)
      then Inr (UAString_from (take (nat (sint len)) body), drop (nat (sint len)) body)
      else Inl (Err BadDecodingError))"
  by (auto simp: UAString_decode_def i32_decode_def read_simps read_exact_def failD_def)

text \<open>C28: Node ids and expanded node ids survive the wire: encoding one that meets the limits
  of the options returns its announced length, and decoding the bytes gives it back and
  leaves what follows, whichever of the six compact forms the encoder picked.\<close>

theorem NodeId_ExpandedNodeId_round_trip:
  assumes "ExpandedNodeId_fits opts e"
  shows "(\<exists>bs. ExpandedNodeId_encode e out = Inr (ExpandedNodeId_byte_len e, out @ bs) \<and>
            ExpandedNodeId_decode opts (bs @ rest) = Inr (e, rest)) \<and>
         (\<exists>bs. NodeId_encode (en_node_id e) out = Inr (NodeId_byte_len (en_node_id e), out @ bs) \<and>
            NodeId_decode opts (bs @ rest) = Inr (en_node_id e, rest))"
proof (intro conjI)
  have fit: "NodeId_fits opts (en_node_id e)" using assms by (simp add: ExpandedNodeId_fits_def)
  show "\<exists>bs. NodeId_encode (en_node_id e) out = Inr (NodeId_byte_len (en_node_id e), out @ bs) \<and>
              NodeId_decode opts (bs @ rest) = Inr (en_node_id e, rest)"
    using NodeId_codec.encode_returns_byte_len NodeId_codec.fits_valid [OF fit]
      NodeId_codec.decode_reads [OF fit] by (auto simp: reads_def)
qed (use ExpandedNodeId_codec.encode_returns_byte_len ExpandedNodeId_codec.fits_valid [OF assms]
      ExpandedNodeId_codec.decode_reads [OF assms] in \<open>auto simp: reads_def\<close>)

theorem NodeId_ExpandedNodeId_round_trip_witness:
  "(\<exists>bs. ExpandedNodeId_encode \<lparr> en_node_id = \<lparr> ni_namespace = 300, ni_identifier = IdNumeric 70000 \<rparr>,
            en_namespace_uri = UAString_null, en_server_index = 5 \<rparr> [] = Inr
        (ExpandedNodeId_byte_len \<lparr> en_node_id = \<lparr> ni_namespace = 300, ni_identifier = IdNumeric 70000 \<rparr>,
            en_namespace_uri = UAString_null, en_server_index = 5 \<rparr>, [] @ bs) \<and>
      ExpandedNodeId_decode DecodingOptions_minimal (bs @ [9]) = Inr (\<lparr> en_node_id =
          \<lparr> ni_namespace = 300, ni_identifier = IdNumeric 70000 \<rparr>,
            en_namespace_uri = UAString_null, en_server_index = 5 \<rparr>, [9]))"
  using NodeId_ExpandedNodeId_round_trip [of DecodingOptions_minimal "\<lparr> en_node_id =
          \<lparr> ni_namespace = 300, ni_identifier = IdNumeric 70000 \<rparr>,
            en_namespace_uri = UAString_null, en_server_index = 5 \<rparr>" "[]" "[9]"]
  by (simp add: ExpandedNodeId_fits_def NodeId_fits_def UAString_fits_def UAString_null_def)

end
