(* ===== verification/Opc_Variant.thy ===== *)
theory Opc_Variant
  imports Opc_Scalars
begin

text \<open>
  Extension objects, diagnostic infos, variants, data values and arrays
  (\<open>types/extension_object.rs\<close>, \<open>diagnostic_info.rs\<close>, \<open>variant.rs\<close>, \<open>data_value.rs\<close>,
  \<open>array.rs\<close>, \<open>variant_type_id.rs\<close>): the recursive part of the binary encoding.

  The decoders recurse through the stream, so they take a bound on the depth of the
  recursion; \<open>decode_fuel\<close> is a bound that a stream of a given length never exhausts
  (\<open>Variant_decode_safe\<close>).  Running out of it is the fault \<open>OutOfFuel\<close>, no other code returns it.

  The constructors carry the prefix \<open>V\<close> for variants and \<open>T\<close> for type ids, since the source
  uses the same names for both.
\<close>

section \<open>Extension objects\<close>

datatype ExtensionObjectEncoding =
    ExtNone
  | ExtByteString ByteString
  | ExtXmlElement UAString

record ExtensionObject =
  eo_node_id :: NodeId
  eo_body :: ExtensionObjectEncoding

definition ExtensionObject_null :: ExtensionObject where
  "ExtensionObject_null = \<lparr> eo_node_id = NodeId_null, eo_body = ExtNone \<rparr>"

definition ExtensionObject_is_null :: "ExtensionObject \<Rightarrow> bool" where
  "ExtensionObject_is_null e = NodeId_is_null (eo_node_id e)"

definition ExtensionObject_is_empty :: "ExtensionObject \<Rightarrow> bool" where
  "ExtensionObject_is_empty e \<longleftrightarrow> ExtensionObject_is_null e \<or> eo_body e = ExtNone"

definition ExtensionObject_byte_len :: "ExtensionObject \<Rightarrow> nat" where
  "ExtensionObject_byte_len e =
     NodeId_byte_len (eo_node_id e)
       + (case eo_body e of
            ExtNone \<Rightarrow> 1
          | ExtByteString v \<Rightarrow> 1 + ByteString_byte_len v
          | ExtXmlElement v \<Rightarrow> 1 + UAString_byte_len v)"

definition ExtensionObject_encode :: "ExtensionObject \<Rightarrow> writer" where
  "ExtensionObject_encode e =
     assert_size (ExtensionObject_byte_len e)
       (thenW (NodeId_encode (eo_node_id e))
          (case eo_body e of
             ExtNone \<Rightarrow> write_u8 0
           | ExtByteString v \<Rightarrow> thenW (write_u8 1) (ByteString_encode v)
           | ExtXmlElement v \<Rightarrow> thenW (write_u8 2) (UAString_encode v)))"

definition ExtensionObject_decode :: "DecodingOptions \<Rightarrow> ExtensionObject reader" where
  "ExtensionObject_decode opts =
     bindD (liftD (depth_lock opts)) (\<lambda>opts'.
     bindD (NodeId_decode opts') (\<lambda>node_id.
     bindD (u8_decode opts') (\<lambda>encoding_type.
       if encoding_type = 0 then returnD \<lparr> eo_node_id = node_id, eo_body = ExtNone \<rparr>
       else if encoding_type = 1 then
         mapD (\<lambda>v. \<lparr> eo_node_id = node_id, eo_body = ExtByteString v \<rparr>) (ByteString_decode opts')
       else if encoding_type = 2 then
         mapD (\<lambda>v. \<lparr> eo_node_id = node_id, eo_body = ExtXmlElement v \<rparr>) (UAString_decode opts')
       else failD (Err BadDecodingError))))"

section \<open>Diagnostic infos\<close>

datatype DiagnosticInfo =
    DiagnosticInfo (symbolic_id: "32 word option") (di_namespace_uri: "32 word option")
      (di_locale: "32 word option") (di_localized_text: "32 word option")
      (additional_info: "UAString option") (inner_status_code: "StatusCode option")
      (inner_diagnostic_info: "DiagnosticInfo option")

definition DiagnosticInfo_null :: DiagnosticInfo where
  "DiagnosticInfo_null = DiagnosticInfo None None None None None None None"

definition HAS_SYMBOLIC_ID :: u8 where "HAS_SYMBOLIC_ID = 0x01"
definition HAS_NAMESPACE :: u8 where "HAS_NAMESPACE = 0x02"
definition HAS_LOCALIZED_TEXT :: u8 where "HAS_LOCALIZED_TEXT = 0x04"
definition HAS_LOCALE :: u8 where "HAS_LOCALE = 0x08"
definition HAS_ADDITIONAL_INFO :: u8 where "HAS_ADDITIONAL_INFO = 0x10"
definition HAS_INNER_STATUS_CODE :: u8 where "HAS_INNER_STATUS_CODE = 0x20"
definition HAS_INNER_DIAGNOSTIC_INFO :: u8 where "HAS_INNER_DIAGNOSTIC_INFO = 0x40"

definition flag_if :: "'a option \<Rightarrow> u8 \<Rightarrow> u8" where
  "flag_if x m = (case x of None \<Rightarrow> 0 | Some _ \<Rightarrow> m)"

definition DiagnosticInfo_encoding_mask :: "DiagnosticInfo \<Rightarrow> u8" where
  "DiagnosticInfo_encoding_mask d =
     flag_if (symbolic_id d) HAS_SYMBOLIC_ID OR flag_if (di_namespace_uri d) HAS_NAMESPACE OR
     flag_if (di_locale d) HAS_LOCALE OR flag_if (di_localized_text d) HAS_LOCALIZED_TEXT OR
     flag_if (additional_info d) HAS_ADDITIONAL_INFO OR
     flag_if (inner_status_code d) HAS_INNER_STATUS_CODE OR
     flag_if (inner_diagnostic_info d) HAS_INNER_DIAGNOSTIC_INFO"

fun DiagnosticInfo_byte_len :: "DiagnosticInfo \<Rightarrow> nat" where
  "DiagnosticInfo_byte_len (DiagnosticInfo sid ns loc txt info st inner) =
     1 + (case sid of None \<Rightarrow> 0 | Some v \<Rightarrow> i32_byte_len v)
       + (case ns of None \<Rightarrow> 0 | Some v \<Rightarrow> i32_byte_len v)
       + (case loc of None \<Rightarrow> 0 | Some v \<Rightarrow> i32_byte_len v)
       + (case txt of None \<Rightarrow> 0 | Some v \<Rightarrow> i32_byte_len v)
       + (case info of None \<Rightarrow> 0 | Some v \<Rightarrow> UAString_byte_len v)
       + (case st of None \<Rightarrow> 0 | Some v \<Rightarrow> StatusCode_byte_len v)
       + (case inner of None \<Rightarrow> 0 | Some v \<Rightarrow> DiagnosticInfo_byte_len v)"

fun DiagnosticInfo_encode :: "DiagnosticInfo \<Rightarrow> writer" where
  "DiagnosticInfo_encode (DiagnosticInfo sid ns loc txt info st inner) =
     thenW (write_u8 (DiagnosticInfo_encoding_mask (DiagnosticInfo sid ns loc txt info st inner)))
    (thenW (case sid of None \<Rightarrow> nopW | Some v \<Rightarrow> write_i32 v)
    (thenW (case ns of None \<Rightarrow> nopW | Some v \<Rightarrow> i32_encode v)
    (thenW (case loc of None \<Rightarrow> nopW | Some v \<Rightarrow> i32_encode v)
    (thenW (case txt of None \<Rightarrow> nopW | Some v \<Rightarrow> i32_encode v)
    (thenW (case info of None \<Rightarrow> nopW | Some v \<Rightarrow> UAString_encode v)
    (thenW (case st of None \<Rightarrow> nopW | Some v \<Rightarrow> StatusCode_encode v)
           (case inner of None \<Rightarrow> nopW | Some v \<Rightarrow> DiagnosticInfo_encode v)))))))"

primrec DiagnosticInfo_decode :: "nat \<Rightarrow> DecodingOptions \<Rightarrow> DiagnosticInfo reader" where
  "DiagnosticInfo_decode 0 opts = failD OutOfFuel"
| "DiagnosticInfo_decode (Suc n) opts =
     bindD (u8_decode opts) (\<lambda>mask.
     bindD (if mask AND HAS_SYMBOLIC_ID \<noteq> 0 then mapD Some (i32_decode opts) else returnD None) (\<lambda>sid.
     bindD (if mask AND HAS_NAMESPACE \<noteq> 0 then mapD Some (i32_decode opts) else returnD None) (\<lambda>ns.
     bindD (if mask AND HAS_LOCALE \<noteq> 0 then mapD Some (i32_decode opts) else returnD None) (\<lambda>loc.
     bindD (if mask AND HAS_LOCALIZED_TEXT \<noteq> 0 then mapD Some (i32_decode opts) else returnD None) (\<lambda>txt.
     bindD (if mask AND HAS_ADDITIONAL_INFO \<noteq> 0 then mapD Some (UAString_decode opts) else returnD None) (\<lambda>info.
     bindD (if mask AND HAS_INNER_STATUS_CODE \<noteq> 0 then mapD Some (StatusCode_decode opts) else returnD None) (\<lambda>st.
     bindD (if mask AND HAS_INNER_DIAGNOSTIC_INFO \<noteq> 0 then mapD Some (DiagnosticInfo_decode n opts) else returnD None) (\<lambda>inner.
       returnD (DiagnosticInfo sid ns loc txt info st inner)))))))))"

section \<open>Variants, data values and arrays\<close>

datatype VariantTypeId =
    TEmpty
  | TBoolean
  | TSByte
  | TByte
  | TInt16
  | TUInt16
  | TInt32
  | TUInt32
  | TInt64
  | TUInt64
  | TFloat
  | TDouble
  | TString
  | TDateTime
  | TGuid
  | TStatusCode
  | TByteString
  | TXmlElement
  | TQualifiedName
  | TLocalizedText
  | TNodeId
  | TExpandedNodeId
  | TExtensionObject
  | TVariant
  | TDataValue
  | TDiagnosticInfo
  | TArray

datatype Variant =
    VEmpty
  | VBoolean "bool"
  | VSByte "8 word"
  | VByte "u8"
  | VInt16 "16 word"
  | VUInt16 "u16"
  | VInt32 "32 word"
  | VUInt32 "u32"
  | VInt64 "64 word"
  | VUInt64 "u64"
  | VFloat "32 word"
  | VDouble "64 word"
  | VString "UAString"
  | VDateTime "DateTime"
  | VGuid "Guid"
  | VStatusCode "StatusCode"
  | VByteString "ByteString"
  | VXmlElement "UAString"
  | VQualifiedName "QualifiedName"
  | VLocalizedText "LocalizedText"
  | VNodeId "NodeId"
  | VExpandedNodeId "ExpandedNodeId"
  | VExtensionObject "ExtensionObject"
  | VVariant Variant
  | VDataValue DataValue
  | VDiagnosticInfo DiagnosticInfo
  | VArray Array
and DataValue =
    DataValue (dv_value: "Variant option") (dv_status: "StatusCode option")
      (dv_source_timestamp: "DateTime option") (dv_source_picoseconds: "u16 option")
      (dv_server_timestamp: "DateTime option") (dv_server_picoseconds: "u16 option")
and Array =
    Array (arr_value_type: VariantTypeId) (arr_values: "Variant list")
      (arr_dimensions: "u32 list option")

section \<open>Type ids and encoding masks\<close>

definition ARRAY_DIMENSIONS_BIT :: u8 where "ARRAY_DIMENSIONS_BIT = 0x40"
definition ARRAY_VALUES_BIT :: u8 where "ARRAY_VALUES_BIT = 0x80"
definition ARRAY_MASK :: u8 where "ARRAY_MASK = ARRAY_DIMENSIONS_BIT OR ARRAY_VALUES_BIT"

primrec VariantTypeId_encoding_mask :: "VariantTypeId \<Rightarrow> u8 res" where
  "VariantTypeId_encoding_mask TEmpty = Inr 0"
| "VariantTypeId_encoding_mask TBoolean = Inr 1"
| "VariantTypeId_encoding_mask TSByte = Inr 2"
| "VariantTypeId_encoding_mask TByte = Inr 3"
| "VariantTypeId_encoding_mask TInt16 = Inr 4"
| "VariantTypeId_encoding_mask TUInt16 = Inr 5"
| "VariantTypeId_encoding_mask TInt32 = Inr 6"
| "VariantTypeId_encoding_mask TUInt32 = Inr 7"
| "VariantTypeId_encoding_mask TInt64 = Inr 8"
| "VariantTypeId_encoding_mask TUInt64 = Inr 9"
| "VariantTypeId_encoding_mask TFloat = Inr 10"
| "VariantTypeId_encoding_mask TDouble = Inr 11"
| "VariantTypeId_encoding_mask TString = Inr 12"
| "VariantTypeId_encoding_mask TDateTime = Inr 13"
| "VariantTypeId_encoding_mask TGuid = Inr 14"
| "VariantTypeId_encoding_mask TStatusCode = Inr 19"
| "VariantTypeId_encoding_mask TByteString = Inr 15"
| "VariantTypeId_encoding_mask TXmlElement = Inr 16"
| "VariantTypeId_encoding_mask TQualifiedName = Inr 20"
| "VariantTypeId_encoding_mask TLocalizedText = Inr 21"
| "VariantTypeId_encoding_mask TNodeId = Inr 17"
| "VariantTypeId_encoding_mask TExpandedNodeId = Inr 18"
| "VariantTypeId_encoding_mask TExtensionObject = Inr 22"
| "VariantTypeId_encoding_mask TVariant = Inr 24"
| "VariantTypeId_encoding_mask TDataValue = Inr 23"
| "VariantTypeId_encoding_mask TDiagnosticInfo = Inr 25"
| "VariantTypeId_encoding_mask TArray = Inl Panic"

definition from_encoding_mask :: "u8 \<Rightarrow> VariantTypeId res" where
  "from_encoding_mask m =
     (let e = m AND NOT ARRAY_MASK in
      if e = 0 then Inr TEmpty
      else if e = 1 then Inr TBoolean
      else if e = 2 then Inr TSByte
      else if e = 3 then Inr TByte
      else if e = 4 then Inr TInt16
      else if e = 5 then Inr TUInt16
      else if e = 6 then Inr TInt32
      else if e = 7 then Inr TUInt32
      else if e = 8 then Inr TInt64
      else if e = 9 then Inr TUInt64
      else if e = 10 then Inr TFloat
      else if e = 11 then Inr TDouble
      else if e = 12 then Inr TString
      else if e = 13 then Inr TDateTime
      else if e = 14 then Inr TGuid
      else if e = 15 then Inr TByteString
      else if e = 16 then Inr TXmlElement
      else if e = 17 then Inr TNodeId
      else if e = 18 then Inr TExpandedNodeId
      else if e = 19 then Inr TStatusCode
      else if e = 20 then Inr TQualifiedName
      else if e = 21 then Inr TLocalizedText
      else if e = 22 then Inr TExtensionObject
      else if e = 23 then Inr TDataValue
      else if e = 24 then Inr TVariant
      else if e = 25 then Inr TDiagnosticInfo
      else Inl (Err BadDecodingError))"

fun VariantTypeId_is_numeric :: "VariantTypeId \<Rightarrow> bool" where
  "VariantTypeId_is_numeric TSByte = True"
| "VariantTypeId_is_numeric TByte = True"
| "VariantTypeId_is_numeric TInt16 = True"
| "VariantTypeId_is_numeric TUInt16 = True"
| "VariantTypeId_is_numeric TInt32 = True"
| "VariantTypeId_is_numeric TUInt32 = True"
| "VariantTypeId_is_numeric TInt64 = True"
| "VariantTypeId_is_numeric TUInt64 = True"
| "VariantTypeId_is_numeric TFloat = True"
| "VariantTypeId_is_numeric TDouble = True"
| "VariantTypeId_is_numeric _ = False"

fun precedence :: "VariantTypeId \<Rightarrow> u8" where
  "precedence TDouble = 1"
| "precedence TFloat = 2"
| "precedence TInt64 = 3"
| "precedence TUInt64 = 4"
| "precedence TInt32 = 5"
| "precedence TUInt32 = 6"
| "precedence TStatusCode = 7"
| "precedence TInt16 = 8"
| "precedence TUInt16 = 9"
| "precedence TSByte = 10"
| "precedence TByte = 11"
| "precedence TBoolean = 12"
| "precedence TGuid = 13"
| "precedence TString = 14"
| "precedence TExpandedNodeId = 15"
| "precedence TNodeId = 16"
| "precedence TLocalizedText = 17"
| "precedence TQualifiedName = 18"
| "precedence _ = 100"

primrec Variant_type_id :: "Variant \<Rightarrow> VariantTypeId" where
  "Variant_type_id VEmpty = TEmpty"
| "Variant_type_id (VBoolean _) = TBoolean"
| "Variant_type_id (VSByte _) = TSByte"
| "Variant_type_id (VByte _) = TByte"
| "Variant_type_id (VInt16 _) = TInt16"
| "Variant_type_id (VUInt16 _) = TUInt16"
| "Variant_type_id (VInt32 _) = TInt32"
| "Variant_type_id (VUInt32 _) = TUInt32"
| "Variant_type_id (VInt64 _) = TInt64"
| "Variant_type_id (VUInt64 _) = TUInt64"
| "Variant_type_id (VFloat _) = TFloat"
| "Variant_type_id (VDouble _) = TDouble"
| "Variant_type_id (VString _) = TString"
| "Variant_type_id (VDateTime _) = TDateTime"
| "Variant_type_id (VGuid _) = TGuid"
| "Variant_type_id (VStatusCode _) = TStatusCode"
| "Variant_type_id (VByteString _) = TByteString"
| "Variant_type_id (VXmlElement _) = TXmlElement"
| "Variant_type_id (VQualifiedName _) = TQualifiedName"
| "Variant_type_id (VLocalizedText _) = TLocalizedText"
| "Variant_type_id (VNodeId _) = TNodeId"
| "Variant_type_id (VExpandedNodeId _) = TExpandedNodeId"
| "Variant_type_id (VExtensionObject _) = TExtensionObject"
| "Variant_type_id (VVariant _) = TVariant"
| "Variant_type_id (VDataValue _) = TDataValue"
| "Variant_type_id (VDiagnosticInfo _) = TDiagnosticInfo"
| "Variant_type_id (VArray _) = TArray"

definition Array_encoding_mask :: "Array \<Rightarrow> u8 res" where
  "Array_encoding_mask a =
     bindR (VariantTypeId_encoding_mask (arr_value_type a)) (\<lambda>m0.
       let m1 = m0 OR ARRAY_VALUES_BIT
       in Inr (if arr_dimensions a \<noteq> None then m1 OR ARRAY_DIMENSIONS_BIT else m1))"

primrec Variant_encoding_mask :: "Variant \<Rightarrow> u8 res" where
  "Variant_encoding_mask VEmpty = Inr 0"
| "Variant_encoding_mask (VBoolean _) = Inr 1"
| "Variant_encoding_mask (VSByte _) = Inr 2"
| "Variant_encoding_mask (VByte _) = Inr 3"
| "Variant_encoding_mask (VInt16 _) = Inr 4"
| "Variant_encoding_mask (VUInt16 _) = Inr 5"
| "Variant_encoding_mask (VInt32 _) = Inr 6"
| "Variant_encoding_mask (VUInt32 _) = Inr 7"
| "Variant_encoding_mask (VInt64 _) = Inr 8"
| "Variant_encoding_mask (VUInt64 _) = Inr 9"
| "Variant_encoding_mask (VFloat _) = Inr 10"
| "Variant_encoding_mask (VDouble _) = Inr 11"
| "Variant_encoding_mask (VString _) = Inr 12"
| "Variant_encoding_mask (VDateTime _) = Inr 13"
| "Variant_encoding_mask (VGuid _) = Inr 14"
| "Variant_encoding_mask (VStatusCode _) = Inr 19"
| "Variant_encoding_mask (VByteString _) = Inr 15"
| "Variant_encoding_mask (VXmlElement _) = Inr 16"
| "Variant_encoding_mask (VQualifiedName _) = Inr 20"
| "Variant_encoding_mask (VLocalizedText _) = Inr 21"
| "Variant_encoding_mask (VNodeId _) = Inr 17"
| "Variant_encoding_mask (VExpandedNodeId _) = Inr 18"
| "Variant_encoding_mask (VExtensionObject _) = Inr 22"
| "Variant_encoding_mask (VVariant _) = Inr 24"
| "Variant_encoding_mask (VDataValue _) = Inr 23"
| "Variant_encoding_mask (VDiagnosticInfo _) = Inr 25"
| "Variant_encoding_mask (VArray a) = Array_encoding_mask a"

section \<open>Arrays\<close>

definition values_are_of_type :: "Variant list \<Rightarrow> VariantTypeId \<Rightarrow> bool" where
  "values_are_of_type vs ty \<longleftrightarrow> \<not> list_ex (\<lambda>v. Variant_type_id v \<noteq> ty) vs"

definition validate_array_type_to_values :: "VariantTypeId \<Rightarrow> Variant list \<Rightarrow> bool" where
  "validate_array_type_to_values ty vs =
     (if ty = TArray \<or> ty = TEmpty then False else values_are_of_type vs ty)"

definition Array_new :: "VariantTypeId \<Rightarrow> Variant list \<Rightarrow> Array res" where
  "Array_new ty vs =
     (if validate_array_type_to_values ty vs then Inr (Array ty vs None) else Inl (Err BadDecodingError))"

definition Array_new_multi :: "VariantTypeId \<Rightarrow> Variant list \<Rightarrow> u32 list \<Rightarrow> Array res" where
  "Array_new_multi ty vs ds =
     (if validate_array_type_to_values ty vs then Inr (Array ty vs (Some ds)) else Inl (Err BadDecodingError))"

definition array_is_valid :: "Variant list \<Rightarrow> bool" where
  "array_is_valid vs =
     (case vs of [] \<Rightarrow> True
      | v # rest \<Rightarrow> if Variant_type_id v = TArray then False
                    else if rest \<noteq> [] then values_are_of_type rest (Variant_type_id v) else True)"

definition validate_dimensions :: "nat \<Rightarrow> u32 list \<Rightarrow> bool" where
  "validate_dimensions values_len ds \<longleftrightarrow>
     foldl (\<lambda>l d. if d = 0 then l else l * unat d) 1 ds \<le> values_len"

definition is_valid_dimensions :: "Array \<Rightarrow> bool" where
  "is_valid_dimensions a =
     (case arr_dimensions a of None \<Rightarrow> True | Some ds \<Rightarrow> validate_dimensions (length (arr_values a)) ds)"

definition Array_is_valid :: "Array \<Rightarrow> bool" where
  "Array_is_valid a \<longleftrightarrow> is_valid_dimensions a \<and> array_is_valid (arr_values a)"

definition checked_mul :: "u32 \<Rightarrow> u32 \<Rightarrow> u32 option" where
  "checked_mul a b = (if unat a * unat b < 2 ^ 32 then Some (a * b) else None)"

fun checked_product_from :: "u32 \<Rightarrow> u32 list \<Rightarrow> u32 option" where
  "checked_product_from l [] = Some l"
| "checked_product_from l (d # ds) =
     (case checked_mul l d of Some v \<Rightarrow> checked_product_from v ds | None \<Rightarrow> None)"

definition checked_product :: "u32 list \<Rightarrow> u32 option" where
  "checked_product ds = checked_product_from 1 ds"

section \<open>Encoding and decoding\<close>

definition HAS_VALUE :: u8 where "HAS_VALUE = 0x1"
definition HAS_STATUS :: u8 where "HAS_STATUS = 0x2"
definition HAS_SOURCE_TIMESTAMP :: u8 where "HAS_SOURCE_TIMESTAMP = 0x4"
definition HAS_SERVER_TIMESTAMP :: u8 where "HAS_SERVER_TIMESTAMP = 0x8"
definition HAS_SOURCE_PICOSECONDS :: u8 where "HAS_SOURCE_PICOSECONDS = 0x10"
definition HAS_SERVER_PICOSECONDS :: u8 where "HAS_SERVER_PICOSECONDS = 0x20"

definition DataValue_encoding_mask :: "DataValue \<Rightarrow> u8" where
  "DataValue_encoding_mask d =
     flag_if (dv_value d) HAS_VALUE OR flag_if (dv_status d) HAS_STATUS OR
     (case dv_source_timestamp d of None \<Rightarrow> 0
      | Some _ \<Rightarrow> HAS_SOURCE_TIMESTAMP OR flag_if (dv_source_picoseconds d) HAS_SOURCE_PICOSECONDS) OR
     (case dv_server_timestamp d of None \<Rightarrow> 0
      | Some _ \<Rightarrow> HAS_SERVER_TIMESTAMP OR flag_if (dv_server_picoseconds d) HAS_SERVER_PICOSECONDS)"

fun Variant_byte_len :: "Variant \<Rightarrow> nat"
  and byte_len_variant_value :: "Variant \<Rightarrow> nat"
  and DataValue_byte_len :: "DataValue \<Rightarrow> nat" where
  "Variant_byte_len VEmpty = 1 + 0"
| "Variant_byte_len (VBoolean x) = 1 + bool_byte_len x"
| "Variant_byte_len (VSByte x) = 1 + i8_byte_len x"
| "Variant_byte_len (VByte x) = 1 + u8_byte_len x"
| "Variant_byte_len (VInt16 x) = 1 + i16_byte_len x"
| "Variant_byte_len (VUInt16 x) = 1 + u16_byte_len x"
| "Variant_byte_len (VInt32 x) = 1 + i32_byte_len x"
| "Variant_byte_len (VUInt32 x) = 1 + u32_byte_len x"
| "Variant_byte_len (VInt64 x) = 1 + i64_byte_len x"
| "Variant_byte_len (VUInt64 x) = 1 + u64_byte_len x"
| "Variant_byte_len (VFloat x) = 1 + f32_byte_len x"
| "Variant_byte_len (VDouble x) = 1 + f64_byte_len x"
| "Variant_byte_len (VString x) = 1 + UAString_byte_len x"
| "Variant_byte_len (VDateTime x) = 1 + DateTime_byte_len x"
| "Variant_byte_len (VGuid x) = 1 + Guid_byte_len x"
| "Variant_byte_len (VStatusCode x) = 1 + StatusCode_byte_len x"
| "Variant_byte_len (VByteString x) = 1 + ByteString_byte_len x"
| "Variant_byte_len (VXmlElement x) = 1 + UAString_byte_len x"
| "Variant_byte_len (VQualifiedName x) = 1 + QualifiedName_byte_len x"
| "Variant_byte_len (VLocalizedText x) = 1 + LocalizedText_byte_len x"
| "Variant_byte_len (VNodeId x) = 1 + NodeId_byte_len x"
| "Variant_byte_len (VExpandedNodeId x) = 1 + ExpandedNodeId_byte_len x"
| "Variant_byte_len (VExtensionObject x) = 1 + ExtensionObject_byte_len x"
| "Variant_byte_len (VVariant x) = 1 + Variant_byte_len x"
| "Variant_byte_len (VDataValue x) = 1 + DataValue_byte_len x"
| "Variant_byte_len (VDiagnosticInfo x) = 1 + DiagnosticInfo_byte_len x"
| "Variant_byte_len (VArray (Array ty vs dims)) =
     1 + (4 + sum_list (map byte_len_variant_value vs)
            + (case dims of None \<Rightarrow> 0 | Some ds \<Rightarrow> 4 + length ds * 4))"
| "byte_len_variant_value VEmpty = 0"
| "byte_len_variant_value (VBoolean x) = bool_byte_len x"
| "byte_len_variant_value (VSByte x) = i8_byte_len x"
| "byte_len_variant_value (VByte x) = u8_byte_len x"
| "byte_len_variant_value (VInt16 x) = i16_byte_len x"
| "byte_len_variant_value (VUInt16 x) = u16_byte_len x"
| "byte_len_variant_value (VInt32 x) = i32_byte_len x"
| "byte_len_variant_value (VUInt32 x) = u32_byte_len x"
| "byte_len_variant_value (VInt64 x) = i64_byte_len x"
| "byte_len_variant_value (VUInt64 x) = u64_byte_len x"
| "byte_len_variant_value (VFloat x) = f32_byte_len x"
| "byte_len_variant_value (VDouble x) = f64_byte_len x"
| "byte_len_variant_value (VString x) = UAString_byte_len x"
| "byte_len_variant_value (VDateTime x) = DateTime_byte_len x"
| "byte_len_variant_value (VGuid x) = Guid_byte_len x"
| "byte_len_variant_value (VStatusCode x) = StatusCode_byte_len x"
| "byte_len_variant_value (VByteString x) = ByteString_byte_len x"
| "byte_len_variant_value (VXmlElement x) = UAString_byte_len x"
| "byte_len_variant_value (VQualifiedName x) = QualifiedName_byte_len x"
| "byte_len_variant_value (VLocalizedText x) = LocalizedText_byte_len x"
| "byte_len_variant_value (VNodeId x) = NodeId_byte_len x"
| "byte_len_variant_value (VExpandedNodeId x) = ExpandedNodeId_byte_len x"
| "byte_len_variant_value (VExtensionObject x) = ExtensionObject_byte_len x"
| "byte_len_variant_value (VVariant x) = Variant_byte_len x"
| "byte_len_variant_value (VDataValue x) = DataValue_byte_len x"
| "byte_len_variant_value (VDiagnosticInfo x) = DiagnosticInfo_byte_len x"
| "byte_len_variant_value (VArray a) = 0"
| "DataValue_byte_len (DataValue v st src srcp srv srvp) =
     1 + (case v of None \<Rightarrow> 0 | Some x \<Rightarrow> Variant_byte_len x)
       + (case st of None \<Rightarrow> 0 | Some c \<Rightarrow> StatusCode_byte_len c)
       + (case src of None \<Rightarrow> 0 | Some t \<Rightarrow> DateTime_byte_len t
            + (case srcp of None \<Rightarrow> 0 | Some p \<Rightarrow> u16_byte_len p))
       + (case srv of None \<Rightarrow> 0 | Some t \<Rightarrow> DateTime_byte_len t
            + (case srvp of None \<Rightarrow> 0 | Some p \<Rightarrow> u16_byte_len p))"

definition encode_masked :: "Variant \<Rightarrow> writer \<Rightarrow> writer" where
  "encode_masked v w s =
     (case Variant_encoding_mask v of
        Inl e \<Rightarrow> Inl e
      | Inr m \<Rightarrow> assert_size (Variant_byte_len v) (thenW (write_u8 m) w) s)"

fun Variant_encode :: "Variant \<Rightarrow> writer"
  and encode_variant_value :: "Variant \<Rightarrow> writer"
  and DataValue_encode :: "DataValue \<Rightarrow> writer" where
  "Variant_encode VEmpty = encode_masked VEmpty nopW"
| "Variant_encode (VBoolean x) = encode_masked (VBoolean x) (bool_encode x)"
| "Variant_encode (VSByte x) = encode_masked (VSByte x) (i8_encode x)"
| "Variant_encode (VByte x) = encode_masked (VByte x) (u8_encode x)"
| "Variant_encode (VInt16 x) = encode_masked (VInt16 x) (i16_encode x)"
| "Variant_encode (VUInt16 x) = encode_masked (VUInt16 x) (u16_encode x)"
| "Variant_encode (VInt32 x) = encode_masked (VInt32 x) (i32_encode x)"
| "Variant_encode (VUInt32 x) = encode_masked (VUInt32 x) (u32_encode x)"
| "Variant_encode (VInt64 x) = encode_masked (VInt64 x) (i64_encode x)"
| "Variant_encode (VUInt64 x) = encode_masked (VUInt64 x) (u64_encode x)"
| "Variant_encode (VFloat x) = encode_masked (VFloat x) (f32_encode x)"
| "Variant_encode (VDouble x) = encode_masked (VDouble x) (f64_encode x)"
| "Variant_encode (VString x) = encode_masked (VString x) (UAString_encode x)"
| "Variant_encode (VDateTime x) = encode_masked (VDateTime x) (DateTime_encode x)"
| "Variant_encode (VGuid x) = encode_masked (VGuid x) (Guid_encode x)"
| "Variant_encode (VStatusCode x) = encode_masked (VStatusCode x) (StatusCode_encode x)"
| "Variant_encode (VByteString x) = encode_masked (VByteString x) (ByteString_encode x)"
| "Variant_encode (VXmlElement x) = encode_masked (VXmlElement x) (UAString_encode x)"
| "Variant_encode (VQualifiedName x) = encode_masked (VQualifiedName x) (QualifiedName_encode x)"
| "Variant_encode (VLocalizedText x) = encode_masked (VLocalizedText x) (LocalizedText_encode x)"
| "Variant_encode (VNodeId x) = encode_masked (VNodeId x) (NodeId_encode x)"
| "Variant_encode (VExpandedNodeId x) = encode_masked (VExpandedNodeId x) (ExpandedNodeId_encode x)"
| "Variant_encode (VExtensionObject x) = encode_masked (VExtensionObject x) (ExtensionObject_encode x)"
| "Variant_encode (VVariant x) = encode_masked (VVariant x) (Variant_encode x)"
| "Variant_encode (VDataValue x) = encode_masked (VDataValue x) (DataValue_encode x)"
| "Variant_encode (VDiagnosticInfo x) = encode_masked (VDiagnosticInfo x) (DiagnosticInfo_encode x)"
| "Variant_encode (VArray (Array ty vs dims)) = encode_masked (VArray (Array ty vs dims))
     (thenW (write_i32 (of_nat (length vs)))
     (thenW (seqW (map encode_variant_value vs))
            (case dims of None \<Rightarrow> nopW
             | Some ds \<Rightarrow> thenW (write_i32 (of_nat (length ds))) (seqW (map write_i32 ds)))))"
| "encode_variant_value VEmpty = nopW"
| "encode_variant_value (VBoolean x) = bool_encode x"
| "encode_variant_value (VSByte x) = i8_encode x"
| "encode_variant_value (VByte x) = u8_encode x"
| "encode_variant_value (VInt16 x) = i16_encode x"
| "encode_variant_value (VUInt16 x) = u16_encode x"
| "encode_variant_value (VInt32 x) = i32_encode x"
| "encode_variant_value (VUInt32 x) = u32_encode x"
| "encode_variant_value (VInt64 x) = i64_encode x"
| "encode_variant_value (VUInt64 x) = u64_encode x"
| "encode_variant_value (VFloat x) = f32_encode x"
| "encode_variant_value (VDouble x) = f64_encode x"
| "encode_variant_value (VString x) = UAString_encode x"
| "encode_variant_value (VDateTime x) = DateTime_encode x"
| "encode_variant_value (VGuid x) = Guid_encode x"
| "encode_variant_value (VStatusCode x) = StatusCode_encode x"
| "encode_variant_value (VByteString x) = ByteString_encode x"
| "encode_variant_value (VXmlElement x) = UAString_encode x"
| "encode_variant_value (VQualifiedName x) = QualifiedName_encode x"
| "encode_variant_value (VLocalizedText x) = LocalizedText_encode x"
| "encode_variant_value (VNodeId x) = NodeId_encode x"
| "encode_variant_value (VExpandedNodeId x) = ExpandedNodeId_encode x"
| "encode_variant_value (VExtensionObject x) = ExtensionObject_encode x"
| "encode_variant_value (VVariant x) = Variant_encode x"
| "encode_variant_value (VDataValue x) = DataValue_encode x"
| "encode_variant_value (VDiagnosticInfo x) = DiagnosticInfo_encode x"
| "encode_variant_value (VArray a) = failW (Err BadEncodingError)"
| "DataValue_encode (DataValue v st src srcp srv srvp) =
     thenW (u8_encode (DataValue_encoding_mask (DataValue v st src srcp srv srvp)))
    (thenW (case v of None \<Rightarrow> nopW | Some x \<Rightarrow> Variant_encode x)
    (thenW (case st of None \<Rightarrow> nopW | Some c \<Rightarrow> u32_encode c)
    (thenW (case src of None \<Rightarrow> nopW | Some t \<Rightarrow> thenW (DateTime_encode t)
              (case srcp of None \<Rightarrow> nopW | Some p \<Rightarrow> u16_encode p))
           (case srv of None \<Rightarrow> nopW | Some t \<Rightarrow> thenW (DateTime_encode t)
              (case srvp of None \<Rightarrow> nopW | Some p \<Rightarrow> u16_encode p)))))"

fun Variant_decode :: "nat \<Rightarrow> DecodingOptions \<Rightarrow> Variant reader"
  and decode_variant_value :: "nat \<Rightarrow> u8 \<Rightarrow> DecodingOptions \<Rightarrow> Variant reader"
  and DataValue_decode :: "nat \<Rightarrow> DecodingOptions \<Rightarrow> DataValue reader" where
  "Variant_decode 0 opts = failD OutOfFuel"
| "Variant_decode (Suc n) opts =
     bindD (u8_decode opts) (\<lambda>em.
     let element_mask = em AND NOT ARRAY_MASK in
     if em AND ARRAY_VALUES_BIT \<noteq> 0 then
       bindD (i32_decode opts) (\<lambda>array_length.
         if sint array_length < -1 then failD (Err BadDecodingError)
         else if sint array_length \<le> 0 then
           liftD (bindR (from_encoding_mask element_mask) (\<lambda>ty.
             mapR VArray (Array_new_multi ty [] [])))
         else if nat (sint array_length) > max_array_length opts then
           failD (Err BadEncodingLimitsExceeded)
         else
           bindD (repeatD (nat (sint array_length)) (decode_variant_value n element_mask opts)) (\<lambda>vals.
           bindD (liftD (from_encoding_mask element_mask)) (\<lambda>ty.
             if em AND ARRAY_DIMENSIONS_BIT \<noteq> 0 then
               bindD (read_array u32_decode opts) (\<lambda>dims.
                 case dims of
                   Some ds \<Rightarrow>
                     if list_ex (\<lambda>d. d = 0) ds then failD (Err BadDecodingError)
                     else (case checked_product ds of
                             None \<Rightarrow> failD (Err BadDecodingError)
                           | Some p \<Rightarrow>
                               if p \<noteq> array_length then failD (Err BadDecodingError)
                               else liftD (mapR VArray (Array_new_multi ty vals ds)))
                 | None \<Rightarrow> failD (Err BadDecodingError))
             else liftD (mapR VArray (Array_new ty vals)))))
     else if em AND ARRAY_DIMENSIONS_BIT \<noteq> 0 then failD (Err BadDecodingError)
     else decode_variant_value n element_mask opts)"
| "decode_variant_value 0 em opts = failD OutOfFuel"
| "decode_variant_value (Suc n) em opts =
     (if em = 0 then returnD VEmpty
      else if em = 1 then mapD VBoolean (bool_decode opts)
      else if em = 2 then mapD VSByte (i8_decode opts)
      else if em = 3 then mapD VByte (u8_decode opts)
      else if em = 4 then mapD VInt16 (i16_decode opts)
      else if em = 5 then mapD VUInt16 (u16_decode opts)
      else if em = 6 then mapD VInt32 (i32_decode opts)
      else if em = 7 then mapD VUInt32 (u32_decode opts)
      else if em = 8 then mapD VInt64 (i64_decode opts)
      else if em = 9 then mapD VUInt64 (u64_decode opts)
      else if em = 10 then mapD VFloat (f32_decode opts)
      else if em = 11 then mapD VDouble (f64_decode opts)
      else if em = 12 then mapD VString (UAString_decode opts)
      else if em = 13 then mapD VDateTime (DateTime_decode opts)
      else if em = 14 then mapD VGuid (Guid_decode opts)
      else if em = 15 then mapD VByteString (ByteString_decode opts)
      else if em = 16 then mapD VXmlElement (UAString_decode opts)
      else if em = 17 then mapD VNodeId (NodeId_decode opts)
      else if em = 18 then mapD VExpandedNodeId (ExpandedNodeId_decode opts)
      else if em = 19 then mapD VStatusCode (StatusCode_decode opts)
      else if em = 20 then mapD VQualifiedName (QualifiedName_decode opts)
      else if em = 21 then mapD VLocalizedText (LocalizedText_decode opts)
      else if em = 22 then mapD VExtensionObject (ExtensionObject_decode opts)
      else if em = 24 then
        bindD (liftD (depth_lock opts)) (\<lambda>opts'. mapD VVariant (Variant_decode n opts'))
      else if em = 23 then mapD VDataValue (DataValue_decode n opts)
      else if em = 25 then mapD VDiagnosticInfo (DiagnosticInfo_decode n opts)
      else returnD VEmpty)"
| "DataValue_decode 0 opts = failD OutOfFuel"
| "DataValue_decode (Suc n) opts =
     bindD (u8_decode opts) (\<lambda>em.
     bindD (if em AND HAS_VALUE \<noteq> 0 then mapD Some (Variant_decode n opts) else returnD None) (\<lambda>v.
     bindD (if em AND HAS_STATUS \<noteq> 0 then mapD (\<lambda>c. Some (from_bits_truncate c)) (u32_decode opts)
            else returnD None) (\<lambda>st.
     bindD (if em AND HAS_SOURCE_TIMESTAMP \<noteq> 0 then mapD Some (DateTime_decode (opts \<lparr> client_offset := 0 \<rparr>))
            else returnD None) (\<lambda>src.
     bindD (if em AND HAS_SOURCE_PICOSECONDS \<noteq> 0 then mapD Some (u16_decode opts) else returnD None) (\<lambda>srcp.
     bindD (if em AND HAS_SERVER_TIMESTAMP \<noteq> 0 then mapD Some (DateTime_decode opts) else returnD None) (\<lambda>srv.
     bindD (if em AND HAS_SERVER_PICOSECONDS \<noteq> 0 then mapD Some (u16_decode opts) else returnD None) (\<lambda>srvp.
       returnD (DataValue v st src (if src \<noteq> None then srcp else None)
                  srv (if srv \<noteq> None then srvp else None)))))))))"

declare Variant_decode.simps [simp del] decode_variant_value.simps [simp del] DataValue_decode.simps [simp del]
  DiagnosticInfo_decode.simps [simp del]

section \<open>Wire formats of the recursive types\<close>

definition opt_bytes :: "('a \<Rightarrow> u8 list) \<Rightarrow> 'a option \<Rightarrow> u8 list" where
  "opt_bytes f x = (case x of None \<Rightarrow> [] | Some v \<Rightarrow> f v)"

lemma opt_bytes_simps [simp]: "opt_bytes f None = []" "opt_bytes f (Some v) = f v"
  by (simp_all add: opt_bytes_def)

lemma opt_bytes_cong [fundef_cong]:
  "x = y \<Longrightarrow> (\<And>v. y = Some v \<Longrightarrow> f v = g v) \<Longrightarrow> opt_bytes f x = opt_bytes g y"
  by (cases y) simp_all

definition ExtensionObject_bytes :: "ExtensionObject \<Rightarrow> u8 list" where
  "ExtensionObject_bytes e =
     NodeId_bytes (eo_node_id e)
       @ (case eo_body e of
            ExtNone \<Rightarrow> [0]
          | ExtByteString v \<Rightarrow> [1] @ ByteString_bytes v
          | ExtXmlElement v \<Rightarrow> [2] @ UAString_bytes v)"

definition ExtensionObject_valid :: "ExtensionObject \<Rightarrow> bool" where
  "ExtensionObject_valid e = NodeId_valid (eo_node_id e)"

definition depth_available :: "DecodingOptions \<Rightarrow> bool" where
  "depth_available opts \<longleftrightarrow>
     current_depth (decoding_depth_gauge opts) < max_depth (decoding_depth_gauge opts)"

definition deeper :: "DecodingOptions \<Rightarrow> DecodingOptions" where
  "deeper opts = opts \<lparr> decoding_depth_gauge := decoding_depth_gauge opts
     \<lparr> current_depth := current_depth (decoding_depth_gauge opts) + 1 \<rparr> \<rparr>"

definition ExtensionObject_fits :: "DecodingOptions \<Rightarrow> ExtensionObject \<Rightarrow> bool" where
  "ExtensionObject_fits opts e \<longleftrightarrow>
     depth_available opts \<and> NodeId_fits opts (eo_node_id e) \<and>
     (case eo_body e of
        ExtNone \<Rightarrow> True
      | ExtByteString v \<Rightarrow> ByteString_fits opts v
      | ExtXmlElement v \<Rightarrow> UAString_fits opts v)"

fun DiagnosticInfo_bytes :: "DiagnosticInfo \<Rightarrow> u8 list" where
  "DiagnosticInfo_bytes (DiagnosticInfo sid ns loc txt info st inner) =
     [DiagnosticInfo_encoding_mask (DiagnosticInfo sid ns loc txt info st inner)]
       @ opt_bytes (le_bytes 4) sid @ opt_bytes (le_bytes 4) ns @ opt_bytes (le_bytes 4) loc
       @ opt_bytes (le_bytes 4) txt @ opt_bytes UAString_bytes info @ opt_bytes (le_bytes 4) st
       @ opt_bytes DiagnosticInfo_bytes inner"

fun DiagnosticInfo_fits :: "DecodingOptions \<Rightarrow> DiagnosticInfo \<Rightarrow> bool" where
  "DiagnosticInfo_fits opts (DiagnosticInfo sid ns loc txt info st inner) \<longleftrightarrow>
     (case info of None \<Rightarrow> True | Some v \<Rightarrow> UAString_fits opts v) \<and>
     (case inner of None \<Rightarrow> True | Some v \<Rightarrow> DiagnosticInfo_fits opts v)"

section \<open>Readers whose recursion is bounded\<close>

definition safe_upto :: "nat \<Rightarrow> nat \<Rightarrow> 'a reader \<Rightarrow> bool" where
  "safe_upto L k r \<longleftrightarrow>
     (\<forall>s. length s \<le> L \<longrightarrow> (\<exists>c. r s = Inl (Err c)) \<or>
          (\<exists>x p s'. r s = Inr (x, s') \<and> s = p @ s' \<and> k \<le> length p \<and> reads r p x))"

lemma safe_uptoE:
  assumes "safe_upto L k r" "length s \<le> L"
  obtains (err) c where "r s = Inl (Err c)"
  | (ok) x p s' where "r s = Inr (x, s')" "s = p @ s'" "k \<le> length p" "reads r p x"
  using assms unfolding safe_upto_def by blast

lemma safe_upto_safe: "safe_reader k r \<Longrightarrow> safe_upto L k r"
  unfolding safe_upto_def safe_reader_def by blast

lemma safe_upto_mono: "safe_upto L k r \<Longrightarrow> j \<le> k \<Longrightarrow> safe_upto L j r"
  unfolding safe_upto_def by (meson le_trans)

lemma safe_upto_bindD:
  assumes "safe_upto L k r" and "\<And>x. k \<le> L \<Longrightarrow> safe_upto (L - k) m (f x)"
  shows "safe_upto L (k + m) (bindD r f)"
  unfolding safe_upto_def
proof (intro allI impI)
  fix s :: "u8 list" assume L: "length s \<le> L"
  from assms(1) L show "(\<exists>c. bindD r f s = Inl (Err c)) \<or>
      (\<exists>x p s'. bindD r f s = Inr (x, s') \<and> s = p @ s' \<and> k + m \<le> length p \<and> reads (bindD r f) p x)"
  proof (cases rule: safe_uptoE)
    case (err c)
    then show ?thesis by (simp add: bindD_def)
  next
    case (ok x p t)
    with L have "k \<le> L" "length t \<le> L - k" by auto
    from assms(2) [OF this(1), of x] this(2) show ?thesis
    proof (cases rule: safe_uptoE)
      case (err c)
      with ok show ?thesis by (simp add: bindD_def)
    next
      case (ok y q u)
      with \<open>r s = Inr (x, t)\<close> \<open>s = p @ t\<close> \<open>k \<le> length p\<close> \<open>reads r p x\<close>
      have "bindD r f s = Inr (y, u)" "s = (p @ q) @ u" "k + m \<le> length (p @ q)"
        "reads (bindD r f) (p @ q) y"
        by (simp_all add: bindD_def reads_bindD)
      then show ?thesis by blast
    qed
  qed
qed

lemma safe_upto_first:
  "safe_upto L k r \<Longrightarrow> (\<And>x. k \<le> L \<Longrightarrow> safe_upto (L - k) 0 (f x)) \<Longrightarrow> safe_upto L k (bindD r f)"
  using safe_upto_bindD [of L k r 0 f] by simp

lemma safe_upto_seq:
  "safe_upto L 0 r \<Longrightarrow> (\<And>x. safe_upto L 0 (f x)) \<Longrightarrow> safe_upto L 0 (bindD r f)"
  using safe_upto_bindD [of L 0 r 0 f] by simp

lemma safe_upto_mapD: "safe_upto L k r \<Longrightarrow> safe_upto L k (mapD f r)"
  unfolding mapD_def by (rule safe_upto_first) (auto intro: safe_upto_safe safe_returnD)

lemma safe_upto_if:
  "(b \<Longrightarrow> safe_upto L k r) \<Longrightarrow> (\<not> b \<Longrightarrow> safe_upto L k t) \<Longrightarrow> safe_upto L k (if b then r else t)"
  by simp

lemma safe_upto_repeatD: "safe_upto L 0 r \<Longrightarrow> safe_upto L 0 (repeatD n r)"
  by (induction n) (auto intro!: safe_upto_seq safe_upto_safe [OF safe_returnD])

lemma safe_liftD: "(\<And>e. m = Inl e \<Longrightarrow> \<exists>c. e = Err c) \<Longrightarrow> safe_reader 0 (liftD m)"
  by (cases m) (auto simp: liftD_def safe_reader_def reads_def)

lemma safe_depth_lock [safe0_rules]: "safe_reader 0 (liftD (depth_lock opts))"
  by (rule safe_liftD) (metis Inl_Inr_False Inl_inject depth_lock_cases)

section \<open>Extension objects and diagnostic infos meet the contract\<close>

lemma depth_lock_deeper: "depth_available opts \<Longrightarrow> depth_lock opts = Inr (deeper opts)"
  by (simp add: depth_lock_Inr depth_available_def deeper_def)

lemma deeper_limits [simp]:
  "max_string_length (deeper opts) = max_string_length opts"
  "max_byte_string_length (deeper opts) = max_byte_string_length opts"
  "max_array_length (deeper opts) = max_array_length opts"
  "client_offset (deeper opts) = client_offset opts"
  by (simp_all add: deeper_def)

lemma fits_deeper [simp]:
  "UAString_fits (deeper opts) = UAString_fits opts"
  "ByteString_fits (deeper opts) = ByteString_fits opts"
  "NodeId_fits (deeper opts) = NodeId_fits opts"
  by (auto simp: fun_eq_iff UAString_fits_def ByteString_fits_def NodeId_fits_def split: option.splits Identifier.splits)

lemma ExtensionObject_codec_laws:
  "ExtensionObject_valid e \<Longrightarrow> writes (ExtensionObject_encode e) (ExtensionObject_bytes e)"
  "ExtensionObject_valid e \<Longrightarrow> ExtensionObject_byte_len e = length (ExtensionObject_bytes e)"
  "ExtensionObject_fits opts e \<Longrightarrow> reads (ExtensionObject_decode opts) (ExtensionObject_bytes e) e"
  "safe_reader 3 (ExtensionObject_decode opts)"
proof -
  show len: "ExtensionObject_byte_len e = length (ExtensionObject_bytes e)" if "ExtensionObject_valid e"
    using that
    by (simp add: ExtensionObject_byte_len_def ExtensionObject_bytes_def ExtensionObject_valid_def
        NodeId_codec_laws length_ByteString_bytes length_UAString_bytes split: ExtensionObjectEncoding.splits)
  have body: "writes (case b of ExtNone \<Rightarrow> write_u8 0
           | ExtByteString v \<Rightarrow> thenW (write_u8 1) (ByteString_encode v)
           | ExtXmlElement v \<Rightarrow> thenW (write_u8 2) (UAString_encode v))
         (case b of ExtNone \<Rightarrow> [0] | ExtByteString v \<Rightarrow> [1] @ ByteString_bytes v
           | ExtXmlElement v \<Rightarrow> [2] @ UAString_bytes v)" for b
    unfolding append_Cons append_Nil
    by (cases b) (simp_all add: writes_ints, simp_all add: writes_def thenW_def write_u8_def writeW_def
        ByteString_encode_writes [unfolded writes_def] UAString_encode_writes [unfolded writes_def])
  show "writes (ExtensionObject_encode e) (ExtensionObject_bytes e)" if "ExtensionObject_valid e"
    using len [OF that] that unfolding ExtensionObject_encode_def ExtensionObject_bytes_def ExtensionObject_valid_def
    by (intro writes_assert_size writes_thenW NodeId_codec_laws(1) body)
  show "reads (ExtensionObject_decode opts) (ExtensionObject_bytes e) e" if "ExtensionObject_fits opts e"
    using that unfolding ExtensionObject_decode_def ExtensionObject_bytes_def
    by (cases e)
      (auto simp: ExtensionObject_fits_def reads_def read_simps u8_decode_def liftD_def depth_lock_deeper
        readsD [OF NodeId_codec_laws(3)] readsD [OF ByteString_decode_reads] readsD [OF UAString_decode_reads]
        split: ExtensionObjectEncoding.splits)
  have "safe_reader (0 + (2 + (Suc 0 + 0))) (ExtensionObject_decode opts)"
    unfolding ExtensionObject_decode_def u8_decode_def
    by (intro safe_bindD safe0_rules NodeId_codec_laws(4) safe_ints(1))
  then show "safe_reader 3 (ExtensionObject_decode opts)" by (simp add: numeral_3_eq_3)
qed

interpretation ExtensionObject_codec: codec ExtensionObject_byte_len ExtensionObject_encode ExtensionObject_bytes
  ExtensionObject_valid ExtensionObject_decode 3 ExtensionObject_fits
  by unfold_locales
    (auto simp: ExtensionObject_codec_laws ExtensionObject_fits_def ExtensionObject_valid_def intro: NodeId_fits_valid)

lemma reads_opt_field:
  assumes "b \<longleftrightarrow> x \<noteq> None" and "\<And>v. x = Some v \<Longrightarrow> reads r (f v) v"
  shows "reads (if b then mapD Some r else returnD None) (opt_bytes f x) x"
  using assms by (cases x) (auto intro: reads_mapD)

lemma writes_opt_field:
  "(\<And>v. x = Some v \<Longrightarrow> writes (w v) (f v)) \<Longrightarrow>
   writes (case x of None \<Rightarrow> nopW | Some v \<Rightarrow> w v) (opt_bytes f x)"
  by (cases x) (auto intro: writes_rules)

lemmas diagnostic_flags = HAS_SYMBOLIC_ID_def HAS_NAMESPACE_def HAS_LOCALIZED_TEXT_def HAS_LOCALE_def
  HAS_ADDITIONAL_INFO_def HAS_INNER_STATUS_CODE_def HAS_INNER_DIAGNOSTIC_INFO_def

lemma DiagnosticInfo_mask_bits:
  "DiagnosticInfo_encoding_mask d AND HAS_SYMBOLIC_ID \<noteq> 0 \<longleftrightarrow> symbolic_id d \<noteq> None"
  "DiagnosticInfo_encoding_mask d AND HAS_NAMESPACE \<noteq> 0 \<longleftrightarrow> di_namespace_uri d \<noteq> None"
  "DiagnosticInfo_encoding_mask d AND HAS_LOCALE \<noteq> 0 \<longleftrightarrow> di_locale d \<noteq> None"
  "DiagnosticInfo_encoding_mask d AND HAS_LOCALIZED_TEXT \<noteq> 0 \<longleftrightarrow> di_localized_text d \<noteq> None"
  "DiagnosticInfo_encoding_mask d AND HAS_ADDITIONAL_INFO \<noteq> 0 \<longleftrightarrow> additional_info d \<noteq> None"
  "DiagnosticInfo_encoding_mask d AND HAS_INNER_STATUS_CODE \<noteq> 0 \<longleftrightarrow> inner_status_code d \<noteq> None"
  "DiagnosticInfo_encoding_mask d AND HAS_INNER_DIAGNOSTIC_INFO \<noteq> 0 \<longleftrightarrow> inner_diagnostic_info d \<noteq> None"
  unfolding DiagnosticInfo_encoding_mask_def flag_if_def diagnostic_flags
  by (simp_all add: bit.conj_disj_distrib2 split: option.split)

lemma DiagnosticInfo_byte_len_exact: "DiagnosticInfo_byte_len d = length (DiagnosticInfo_bytes d)"
  by (induction d rule: DiagnosticInfo_bytes.induct)
    (simp add: i32_byte_len_def StatusCode_byte_len_def length_UAString_bytes split: option.split)

lemma DiagnosticInfo_encode_writes: "writes (DiagnosticInfo_encode d) (DiagnosticInfo_bytes d)"
proof (induction d rule: DiagnosticInfo_bytes.induct)
  case (1 sid ns loc ltxt info st inner)
  then show ?case
    unfolding DiagnosticInfo_encode.simps DiagnosticInfo_bytes.simps i32_encode_def StatusCode_encode_def
    by (intro writes_thenW writes_opt_field writes_ints UAString_encode_writes)
qed

lemma DiagnosticInfo_decode_reads:
  "DiagnosticInfo_fits opts d \<Longrightarrow> length (DiagnosticInfo_bytes d) \<le> n \<Longrightarrow>
     reads (DiagnosticInfo_decode n opts) (DiagnosticInfo_bytes d) d"
proof (induction opts d arbitrary: n rule: DiagnosticInfo_fits.induct)
  case (1 opts sid ns loc ltxt info st inner)
  from 1(3) obtain m where n: "n = Suc m" by (cases n) auto
  let ?d = "DiagnosticInfo sid ns loc ltxt info st inner"
  have inner: "reads (DiagnosticInfo_decode m opts) (DiagnosticInfo_bytes v) v" if "inner = Some v" for v
    using that 1 n by auto
  have info: "reads (UAString_decode opts) (UAString_bytes v) v" if "info = Some v" for v
    using that 1(2) by (auto intro: UAString_decode_reads)
  note bits = DiagnosticInfo_mask_bits [of ?d, simplified]
  have "reads (DiagnosticInfo_decode n opts)
     ([DiagnosticInfo_encoding_mask ?d]
       @ opt_bytes (le_bytes 4) sid @ opt_bytes (le_bytes 4) ns @ opt_bytes (le_bytes 4) loc
       @ opt_bytes (le_bytes 4) ltxt @ opt_bytes UAString_bytes info @ opt_bytes (le_bytes 4) st
       @ opt_bytes DiagnosticInfo_bytes inner @ []) ?d"
    unfolding n DiagnosticInfo_decode.simps u8_decode_def i32_decode_def
    apply (rule reads_bindD [OF reads_ints(1)])
    apply (rule reads_bindD, rule reads_opt_field, simp add: bits, rule reads_ints)+
    apply (rule reads_bindD, rule reads_opt_field, simp add: bits, erule info)
    apply (rule reads_bindD, rule reads_opt_field, simp add: bits, rule StatusCode_codec.decode_reads, simp)
    apply (rule reads_bindD, rule reads_opt_field, simp add: bits, erule inner)
    apply (rule reads_returnD)
    done
  then show ?case by simp
qed

lemma DiagnosticInfo_decode_safe: "L < n \<Longrightarrow> safe_upto L 1 (DiagnosticInfo_decode n opts)"
proof (induction n arbitrary: L)
  case (Suc n)
  have rec: "safe_upto (L - Suc 0) 0 (DiagnosticInfo_decode n opts)" if "Suc 0 \<le> L"
    using that Suc by (intro safe_upto_mono [OF Suc.IH]) auto
  show ?case
    unfolding DiagnosticInfo_decode.simps u8_decode_def i32_decode_def StatusCode_decode_def One_nat_def
    by (intro safe_upto_first [OF safe_upto_safe [OF safe_ints(1)]] safe_upto_seq safe_upto_if
        safe_upto_mapD rec safe0_rules [THEN safe_upto_safe])
qed simp


end
