(* ===== verification/Opc_Variant_Codec.thy ===== *)
theory Opc_Variant_Codec
  imports Opc_Variant
begin

text \<open>
  The encoding of variants and data values is correct: a valid value is encoded as its wire
  format with exactly \<open>byte_len\<close> bytes; decoding any byte string neither panics nor recurses
  deeper than twice the length of the stream; and decoding the wire format of a value that
  respects the limits of the options gives the value back.
\<close>

section \<open>Wire format of variants and data values\<close>

primrec scalar_mask :: "Variant \<Rightarrow> u8" where
  "scalar_mask VEmpty = 0"
| "scalar_mask (VBoolean x) = 1"
| "scalar_mask (VSByte x) = 2"
| "scalar_mask (VByte x) = 3"
| "scalar_mask (VInt16 x) = 4"
| "scalar_mask (VUInt16 x) = 5"
| "scalar_mask (VInt32 x) = 6"
| "scalar_mask (VUInt32 x) = 7"
| "scalar_mask (VInt64 x) = 8"
| "scalar_mask (VUInt64 x) = 9"
| "scalar_mask (VFloat x) = 10"
| "scalar_mask (VDouble x) = 11"
| "scalar_mask (VString x) = 12"
| "scalar_mask (VDateTime x) = 13"
| "scalar_mask (VGuid x) = 14"
| "scalar_mask (VStatusCode x) = 19"
| "scalar_mask (VByteString x) = 15"
| "scalar_mask (VXmlElement x) = 16"
| "scalar_mask (VQualifiedName x) = 20"
| "scalar_mask (VLocalizedText x) = 21"
| "scalar_mask (VNodeId x) = 17"
| "scalar_mask (VExpandedNodeId x) = 18"
| "scalar_mask (VExtensionObject x) = 22"
| "scalar_mask (VVariant x) = 24"
| "scalar_mask (VDataValue x) = 23"
| "scalar_mask (VDiagnosticInfo x) = 25"
| "scalar_mask (VArray a) = 0"

fun Variant_bytes :: "Variant \<Rightarrow> u8 list"
  and variant_value_bytes :: "Variant \<Rightarrow> u8 list"
  and DataValue_bytes :: "DataValue \<Rightarrow> u8 list" where
  "Variant_bytes VEmpty = [0]"
| "Variant_bytes (VBoolean x) = 1 # bool_bytes x"
| "Variant_bytes (VSByte x) = 2 # byte_bytes x"
| "Variant_bytes (VByte x) = 3 # byte_bytes x"
| "Variant_bytes (VInt16 x) = 4 # le_bytes 2 x"
| "Variant_bytes (VUInt16 x) = 5 # le_bytes 2 x"
| "Variant_bytes (VInt32 x) = 6 # le_bytes 4 x"
| "Variant_bytes (VUInt32 x) = 7 # le_bytes 4 x"
| "Variant_bytes (VInt64 x) = 8 # le_bytes 8 x"
| "Variant_bytes (VUInt64 x) = 9 # le_bytes 8 x"
| "Variant_bytes (VFloat x) = 10 # le_bytes 4 x"
| "Variant_bytes (VDouble x) = 11 # le_bytes 8 x"
| "Variant_bytes (VString x) = 12 # UAString_bytes x"
| "Variant_bytes (VDateTime x) = 13 # DateTime_bytes x"
| "Variant_bytes (VGuid x) = 14 # guid_bytes x"
| "Variant_bytes (VStatusCode x) = 19 # le_bytes 4 x"
| "Variant_bytes (VByteString x) = 15 # ByteString_bytes x"
| "Variant_bytes (VXmlElement x) = 16 # UAString_bytes x"
| "Variant_bytes (VQualifiedName x) = 20 # QualifiedName_bytes x"
| "Variant_bytes (VLocalizedText x) = 21 # LocalizedText_bytes x"
| "Variant_bytes (VNodeId x) = 17 # NodeId_bytes x"
| "Variant_bytes (VExpandedNodeId x) = 18 # ExpandedNodeId_bytes x"
| "Variant_bytes (VExtensionObject x) = 22 # ExtensionObject_bytes x"
| "Variant_bytes (VVariant x) = 24 # Variant_bytes x"
| "Variant_bytes (VDataValue x) = 23 # DataValue_bytes x"
| "Variant_bytes (VDiagnosticInfo x) = 25 # DiagnosticInfo_bytes x"
| "Variant_bytes (VArray (Array ty vs dims)) =
     ((case VariantTypeId_encoding_mask ty of Inr m \<Rightarrow> m | Inl _ \<Rightarrow> 0) OR ARRAY_VALUES_BIT
        OR (if dims \<noteq> None then ARRAY_DIMENSIONS_BIT else 0))
       # le_bytes 4 (of_nat (length vs) :: 32 word) @ concat (map variant_value_bytes vs)
       @ opt_bytes (\<lambda>ds. le_bytes 4 (of_nat (length ds) :: 32 word) @ concat (map (le_bytes 4) ds)) dims"
| "variant_value_bytes VEmpty = []"
| "variant_value_bytes (VBoolean x) = bool_bytes x"
| "variant_value_bytes (VSByte x) = byte_bytes x"
| "variant_value_bytes (VByte x) = byte_bytes x"
| "variant_value_bytes (VInt16 x) = le_bytes 2 x"
| "variant_value_bytes (VUInt16 x) = le_bytes 2 x"
| "variant_value_bytes (VInt32 x) = le_bytes 4 x"
| "variant_value_bytes (VUInt32 x) = le_bytes 4 x"
| "variant_value_bytes (VInt64 x) = le_bytes 8 x"
| "variant_value_bytes (VUInt64 x) = le_bytes 8 x"
| "variant_value_bytes (VFloat x) = le_bytes 4 x"
| "variant_value_bytes (VDouble x) = le_bytes 8 x"
| "variant_value_bytes (VString x) = UAString_bytes x"
| "variant_value_bytes (VDateTime x) = DateTime_bytes x"
| "variant_value_bytes (VGuid x) = guid_bytes x"
| "variant_value_bytes (VStatusCode x) = le_bytes 4 x"
| "variant_value_bytes (VByteString x) = ByteString_bytes x"
| "variant_value_bytes (VXmlElement x) = UAString_bytes x"
| "variant_value_bytes (VQualifiedName x) = QualifiedName_bytes x"
| "variant_value_bytes (VLocalizedText x) = LocalizedText_bytes x"
| "variant_value_bytes (VNodeId x) = NodeId_bytes x"
| "variant_value_bytes (VExpandedNodeId x) = ExpandedNodeId_bytes x"
| "variant_value_bytes (VExtensionObject x) = ExtensionObject_bytes x"
| "variant_value_bytes (VVariant x) = Variant_bytes x"
| "variant_value_bytes (VDataValue x) = DataValue_bytes x"
| "variant_value_bytes (VDiagnosticInfo x) = DiagnosticInfo_bytes x"
| "variant_value_bytes (VArray x) = []"
| "DataValue_bytes (DataValue v st src srcp srv srvp) =
     DataValue_encoding_mask (DataValue v st src srcp srv srvp)
       # opt_bytes Variant_bytes v @ opt_bytes (le_bytes 4) st
       @ opt_bytes (\<lambda>t. DateTime_bytes t @ opt_bytes (le_bytes 2) srcp) src
       @ opt_bytes (\<lambda>t. DateTime_bytes t @ opt_bytes (le_bytes 2) srvp) srv"

fun Variant_valid :: "Variant \<Rightarrow> bool" and DataValue_valid :: "DataValue \<Rightarrow> bool" where
  "Variant_valid VEmpty = True"
| "Variant_valid (VBoolean x) = True"
| "Variant_valid (VSByte x) = True"
| "Variant_valid (VByte x) = True"
| "Variant_valid (VInt16 x) = True"
| "Variant_valid (VUInt16 x) = True"
| "Variant_valid (VInt32 x) = True"
| "Variant_valid (VUInt32 x) = True"
| "Variant_valid (VInt64 x) = True"
| "Variant_valid (VUInt64 x) = True"
| "Variant_valid (VFloat x) = True"
| "Variant_valid (VDouble x) = True"
| "Variant_valid (VString x) = True"
| "Variant_valid (VDateTime x) = True"
| "Variant_valid (VGuid x) = Guid_valid x"
| "Variant_valid (VStatusCode x) = True"
| "Variant_valid (VByteString x) = True"
| "Variant_valid (VXmlElement x) = True"
| "Variant_valid (VQualifiedName x) = True"
| "Variant_valid (VLocalizedText x) = True"
| "Variant_valid (VNodeId x) = NodeId_valid x"
| "Variant_valid (VExpandedNodeId x) = ExpandedNodeId_valid x"
| "Variant_valid (VExtensionObject x) = ExtensionObject_valid x"
| "Variant_valid (VVariant x) = Variant_valid x"
| "Variant_valid (VDataValue x) = DataValue_valid x"
| "Variant_valid (VDiagnosticInfo x) = True"
| "Variant_valid (VArray (Array ty vs dims)) \<longleftrightarrow>
     ty \<noteq> TArray \<and> list_all (\<lambda>v. Variant_type_id v \<noteq> TArray \<and> Variant_valid v) vs"
| "DataValue_valid (DataValue v st src srcp srv srvp) =
     (case v of None \<Rightarrow> True | Some x \<Rightarrow> Variant_valid x)"

fun Variant_fits :: "DecodingOptions \<Rightarrow> Variant \<Rightarrow> bool"
  and DataValue_fits :: "DecodingOptions \<Rightarrow> DataValue \<Rightarrow> bool" where
  "Variant_fits opts VEmpty = True"
| "Variant_fits opts (VBoolean x) = True"
| "Variant_fits opts (VSByte x) = True"
| "Variant_fits opts (VByte x) = True"
| "Variant_fits opts (VInt16 x) = True"
| "Variant_fits opts (VUInt16 x) = True"
| "Variant_fits opts (VInt32 x) = True"
| "Variant_fits opts (VUInt32 x) = True"
| "Variant_fits opts (VInt64 x) = True"
| "Variant_fits opts (VUInt64 x) = True"
| "Variant_fits opts (VFloat x) = True"
| "Variant_fits opts (VDouble x) = True"
| "Variant_fits opts (VString x) = UAString_fits opts x"
| "Variant_fits opts (VDateTime x) = DateTime_fits opts x"
| "Variant_fits opts (VGuid x) = Guid_valid x"
| "Variant_fits opts (VStatusCode x) = True"
| "Variant_fits opts (VByteString x) = ByteString_fits opts x"
| "Variant_fits opts (VXmlElement x) = UAString_fits opts x"
| "Variant_fits opts (VQualifiedName x) = QualifiedName_fits opts x"
| "Variant_fits opts (VLocalizedText x) = LocalizedText_fits opts x"
| "Variant_fits opts (VNodeId x) = NodeId_fits opts x"
| "Variant_fits opts (VExpandedNodeId x) = ExpandedNodeId_fits opts x"
| "Variant_fits opts (VExtensionObject x) = ExtensionObject_fits opts x"
| "Variant_fits opts (VVariant x) \<longleftrightarrow> depth_available opts \<and> Variant_fits (deeper opts) x"
| "Variant_fits opts (VDataValue x) = DataValue_fits opts x"
| "Variant_fits opts (VDiagnosticInfo x) = DiagnosticInfo_fits opts x"
| "Variant_fits opts (VArray (Array ty vs dims)) \<longleftrightarrow>
     ty \<noteq> TArray \<and> ty \<noteq> TEmpty \<and> vs \<noteq> [] \<and> length vs \<le> max_array_length opts \<and> length vs < 2 ^ 31 \<and>
     list_all (\<lambda>v. Variant_type_id v = ty \<and> Variant_fits opts v) vs \<and>
     (case dims of None \<Rightarrow> True
      | Some ds \<Rightarrow> length ds \<le> max_array_length opts \<and> length ds < 2 ^ 31 \<and>
                   list_all (\<lambda>d. d \<noteq> 0) ds \<and> prod_list (map unat ds) = length vs)"
| "DataValue_fits opts (DataValue v st src srcp srv srvp) \<longleftrightarrow>
     (case v of None \<Rightarrow> True | Some x \<Rightarrow> Variant_fits opts x) \<and>
     (case src of None \<Rightarrow> srcp = None | Some t \<Rightarrow> DateTime_in_range t) \<and>
     (case srv of None \<Rightarrow> srvp = None | Some t \<Rightarrow> DateTime_fits opts t)"
section \<open>Variants encode to their wire format\<close>

lemmas codec_len_defs = bool_byte_len_def i8_byte_len_def u8_byte_len_def i16_byte_len_def u16_byte_len_def
  i32_byte_len_def u32_byte_len_def i64_byte_len_def u64_byte_len_def f32_byte_len_def f64_byte_len_def
  StatusCode_byte_len_def DateTime_byte_len_def Guid_byte_len_def

lemma byte_bytes_length [simp]: "length (byte_bytes b) = 1"
  by (simp add: byte_bytes_def)

lemma DateTime_bytes_length [simp]: "length (DateTime_bytes t) = 8"
  by (simp add: DateTime_bytes_def)

lemma Guid_valid_length: "Guid_valid g \<Longrightarrow> length (guid_bytes g) = 16"
  by (simp add: Guid_valid_def)

lemma sum_list_le_bytes [simp]: "length (concat (map (le_bytes n) ds)) = length ds * n"
  by (induction ds) simp_all

lemmas codec_lens = codec_len_defs length_UAString_bytes length_ByteString_bytes QualifiedName_codec_laws(2)
  LocalizedText_codec_laws(2) NodeId_codec_laws(2) ExpandedNodeId_codec_laws(2) ExtensionObject_codec_laws(2)
  DiagnosticInfo_byte_len_exact Guid_valid_length

lemma Variant_byte_len_exact:
  "Variant_valid v \<Longrightarrow> Variant_byte_len v = length (Variant_bytes v)"
  "Variant_valid w \<Longrightarrow> Variant_type_id w \<noteq> TArray \<Longrightarrow> byte_len_variant_value w = length (variant_value_bytes w)"
  "DataValue_valid d \<Longrightarrow> DataValue_byte_len d = length (DataValue_bytes d)"
proof (induction v and w and d rule: Variant_bytes_variant_value_bytes_DataValue_bytes.induct)
  case (27 ty vs dims)
  then have "\<forall>x\<in>set vs. byte_len_variant_value x = length (variant_value_bytes x)"
    by (auto simp: list_all_iff)
  then have "sum_list (map byte_len_variant_value vs) = length (concat (map variant_value_bytes vs))"
    by (induction vs) simp_all
  then show ?case
    by (cases dims) (simp_all del: length_concat)
next
  case (55 v st src srcp srv srvp)
  then show ?case
    by (cases v; cases st; cases src; cases srcp; cases srv; cases srvp)
      (simp_all add: codec_lens)
qed (simp_all add: codec_lens)

lemma encode_masked_writes:
  assumes "Variant_encoding_mask v = Inr m" "writes w bs" "Variant_byte_len v = Suc (length bs)"
  shows "writes (encode_masked v w) (m # bs)"
  using writes_assert_size [OF writes_thenW [OF writes_ints(1) assms(2)], of "Variant_byte_len v" m] assms
  by (simp add: writes_def encode_masked_def)

lemma scalar_encode_writes:
  "writes (bool_encode b) (bool_bytes b)" "writes (i8_encode c) (byte_bytes c)" "writes (u8_encode c) (byte_bytes c)"
  "writes (i16_encode h) (le_bytes 2 h)" "writes (u16_encode h) (le_bytes 2 h)"
  "writes (i32_encode w) (le_bytes 4 w)" "writes (u32_encode w) (le_bytes 4 w)"
  "writes (i64_encode d) (le_bytes 8 d)" "writes (u64_encode d) (le_bytes 8 d)"
  "writes (f32_encode w) (le_bytes 4 w)" "writes (f64_encode d) (le_bytes 8 d)"
  "writes (StatusCode_encode w) (le_bytes 4 w)" "writes (DateTime_encode t) (DateTime_bytes t)"
  "writes (Guid_encode g) (guid_bytes g)"
  by (simp_all add: bool_codec.encode_writes i8_codec.encode_writes u8_codec.encode_writes
      i16_codec.encode_writes u16_codec.encode_writes i32_codec.encode_writes u32_codec.encode_writes
      i64_codec.encode_writes u64_codec.encode_writes f32_codec.encode_writes f64_codec.encode_writes
      StatusCode_codec.encode_writes DateTime_codec.encode_writes Guid_encode_def writes_writeW)

lemmas encode_writes_rules = scalar_encode_writes UAString_encode_writes ByteString_encode_writes
  QualifiedName_codec_laws(1) LocalizedText_codec_laws(1) NodeId_codec_laws(1) ExpandedNodeId_codec_laws(1)
  ExtensionObject_codec_laws(1) DiagnosticInfo_encode_writes

lemma Variant_encode_writes:
  "Variant_valid v \<Longrightarrow> writes (Variant_encode v) (Variant_bytes v)"
  "Variant_valid w \<Longrightarrow> Variant_type_id w \<noteq> TArray \<Longrightarrow> writes (encode_variant_value w) (variant_value_bytes w)"
  "DataValue_valid d \<Longrightarrow> writes (DataValue_encode d) (DataValue_bytes d)"
proof (induction v and w and d rule: Variant_bytes_variant_value_bytes_DataValue_bytes.induct)
  case (27 ty vs dims)
  have "writes (seqW (map encode_variant_value vs)) (concat (map variant_value_bytes vs))"
    by (rule writes_seqW) (use 27 in \<open>auto simp: list_all_iff\<close>)
  moreover have "writes (case dims of None \<Rightarrow> nopW
             | Some ds \<Rightarrow> thenW (write_i32 (of_nat (length ds))) (seqW (map write_i32 ds)))
     (opt_bytes (\<lambda>ds. le_bytes 4 (of_nat (length ds) :: 32 word) @ concat (map (le_bytes 4) ds)) dims)"
    by (intro writes_opt_field writes_thenW writes_seqW writes_ints)
  ultimately have "writes (thenW (write_i32 (of_nat (length vs))) (thenW (seqW (map encode_variant_value vs))
            (case dims of None \<Rightarrow> nopW
             | Some ds \<Rightarrow> thenW (write_i32 (of_nat (length ds))) (seqW (map write_i32 ds)))))
     (le_bytes 4 (of_nat (length vs) :: 32 word) @ concat (map variant_value_bytes vs)
       @ opt_bytes (\<lambda>ds. le_bytes 4 (of_nat (length ds) :: 32 word) @ concat (map (le_bytes 4) ds)) dims)"
    by (intro writes_thenW writes_ints)
  moreover obtain m where m: "VariantTypeId_encoding_mask ty = Inr m"
    using 27 by (cases ty) auto
  moreover have "Variant_byte_len (VArray (Array ty vs dims)) = length (Variant_bytes (VArray (Array ty vs dims)))"
    using 27 Variant_byte_len_exact(1) by blast
  ultimately show ?case
    unfolding Variant_encode.simps Variant_bytes.simps
    by (intro encode_masked_writes) (simp_all add: Array_encoding_mask_def Let_def or.assoc)
next
  case (55 v st src srcp srv srvp)
  have "writes (case t of None \<Rightarrow> nopW | Some t \<Rightarrow> thenW (DateTime_encode t)
              (case p of None \<Rightarrow> nopW | Some p \<Rightarrow> u16_encode p))
        (opt_bytes (\<lambda>t. DateTime_bytes t @ opt_bytes (le_bytes 2) p) t)" for t p
    by (intro writes_opt_field writes_thenW scalar_encode_writes)
  moreover have "writes (case v of None \<Rightarrow> nopW | Some x \<Rightarrow> Variant_encode x) (opt_bytes Variant_bytes v)"
    by (rule writes_opt_field) (use 55 in auto)
  moreover have "writes (case st of None \<Rightarrow> nopW | Some c \<Rightarrow> u32_encode c) (opt_bytes (le_bytes 4) st)"
    by (intro writes_opt_field scalar_encode_writes)
  ultimately show ?case
    unfolding DataValue_encode.simps DataValue_bytes.simps u8_encode_def
    by (intro writes_Cons writes_thenW)
qed (simp_all add: encode_writes_rules writes_nopW encode_masked_writes codec_lens Variant_byte_len_exact)
section \<open>Decoding never panics and never runs out of depth\<close>

lemma from_encoding_mask_err: "from_encoding_mask m = Inl e \<Longrightarrow> e = Err BadDecodingError"
  by (simp add: from_encoding_mask_def Let_def split: if_splits)

lemma Array_new_err:
  "Array_new ty vs = Inl e \<Longrightarrow> e = Err BadDecodingError"
  "Array_new_multi ty vs ds = Inl e \<Longrightarrow> e = Err BadDecodingError"
  by (auto simp: Array_new_def Array_new_multi_def split: if_splits)

lemma safe_array_lifts:
  "safe_reader 0 (liftD (from_encoding_mask m))"
  "safe_reader 0 (liftD (mapR VArray (Array_new ty vs)))"
  "safe_reader 0 (liftD (mapR VArray (Array_new_multi ty vs ds)))"
  "safe_reader 0 (liftD (bindR (from_encoding_mask m) (\<lambda>ty. mapR VArray (Array_new_multi ty vs ds))))"
  by (rule safe_liftD; auto simp: bindR_eq_Inl mapR_eq_Inl dest: from_encoding_mask_err Array_new_err)+

lemma safe_case_option:
  "safe_upto L k r \<Longrightarrow> (\<And>x. safe_upto L k (f x)) \<Longrightarrow> safe_upto L k (case v of None \<Rightarrow> r | Some x \<Rightarrow> f x)"
  by (cases v) simp_all

lemma safe_u32_array: "safe_reader 0 (read_array u32_decode opts)"
  by (rule safe_reader_0 [OF u32_codec.read_array_safe])

lemmas scalar_decode_safe =
  bool_codec.decode_safe i8_codec.decode_safe u8_codec.decode_safe i16_codec.decode_safe u16_codec.decode_safe
  i32_codec.decode_safe u32_codec.decode_safe i64_codec.decode_safe u64_codec.decode_safe f32_codec.decode_safe
  f64_codec.decode_safe UAString_codec.decode_safe ByteString_codec.decode_safe Guid_codec.decode_safe
  StatusCode_codec.decode_safe DateTime_codec.decode_safe QualifiedName_codec.decode_safe
  LocalizedText_codec.decode_safe NodeId_codec.decode_safe ExpandedNodeId_codec.decode_safe
  ExtensionObject_codec.decode_safe

lemmas scalar_decode_upto = scalar_decode_safe [THEN safe_reader_0, THEN safe_upto_safe]

lemmas upto_rules = safe_upto_if safe_upto_mapD safe_upto_seq safe_case_option safe_upto_repeatD
  scalar_decode_upto safe_array_lifts [THEN safe_upto_safe] safe_u32_array [THEN safe_upto_safe]
  safe_failD [THEN safe_upto_safe] safe_returnD [THEN safe_upto_safe] safe_depth_lock [THEN safe_upto_safe]

lemma decode_value_step:
  assumes "\<And>opts. safe_upto L 1 (Variant_decode n opts)" "\<And>opts. safe_upto L 1 (DataValue_decode n opts)" "L < n"
  shows "safe_upto L 0 (decode_variant_value (Suc n) em opts)"
  unfolding decode_variant_value.simps
  by (intro upto_rules safe_upto_mono [OF assms(1)] safe_upto_mono [OF assms(2)]
      safe_upto_mono [OF DiagnosticInfo_decode_safe] assms(3)) simp_all

lemma Variant_decode_step:
  assumes "\<And>em. 1 \<le> L \<Longrightarrow> safe_upto (L - 1) 0 (decode_variant_value n em opts)"
  shows "safe_upto L 1 (Variant_decode (Suc n) opts)"
  unfolding Variant_decode.simps Let_def
  by (intro safe_upto_first [OF safe_upto_safe [OF u8_codec.decode_safe]] upto_rules assms)

lemma DataValue_decode_step:
  assumes "1 \<le> L \<Longrightarrow> safe_upto (L - 1) 0 (Variant_decode n opts)"
  shows "safe_upto L 1 (DataValue_decode (Suc n) opts)"
  unfolding DataValue_decode.simps
  by (intro safe_upto_first [OF safe_upto_safe [OF u8_codec.decode_safe]] upto_rules assms)

lemma decode_depth_suffices:
  "(\<forall>L opts. 2 * L + 1 \<le> n \<longrightarrow> safe_upto L 1 (Variant_decode n opts)) \<and>
   (\<forall>L em opts. 2 * L + 2 \<le> n \<longrightarrow> safe_upto L 0 (decode_variant_value n em opts)) \<and>
   (\<forall>L opts. 2 * L + 1 \<le> n \<longrightarrow> safe_upto L 1 (DataValue_decode n opts))"
proof (induction n)
  case (Suc n)
  have "safe_upto L 1 (Variant_decode (Suc n) opts)" if "2 * L + 1 \<le> Suc n" for L opts
    by (rule Variant_decode_step) (use Suc that in auto)
  moreover have "safe_upto L 0 (decode_variant_value (Suc n) em opts)" if "2 * L + 2 \<le> Suc n" for L em opts
    by (rule decode_value_step) (use Suc that in auto)
  moreover have "safe_upto L 1 (DataValue_decode (Suc n) opts)" if "2 * L + 1 \<le> Suc n" for L opts
    by (rule DataValue_decode_step, rule safe_upto_mono [of _ 1]) (use Suc that in auto)
  ultimately show ?case by blast
qed simp

definition decode_fuel :: "u8 list \<Rightarrow> nat" where
  "decode_fuel s = 2 * length s + 2"

lemma Variant_decode_safe: "safe_upto (length s) 1 (Variant_decode (decode_fuel s) opts)"
  using decode_depth_suffices [of "decode_fuel s"] by (simp add: decode_fuel_def)

section \<open>Decoding inverts encoding\<close>

lemma checked_product_from_exact:
  assumes "list_all (\<lambda>d. d \<noteq> 0) ds" "unat l * prod_list (map unat ds) = n" "n < 2 ^ 32" "0 < unat l"
  shows "checked_product_from l ds = Some (of_nat n)"
  using assms
proof (induction ds arbitrary: l)
  case Nil
  then show ?case by auto
next
  case (Cons d ds)
  have pos: "0 < prod_list (map unat ds)"
    using Cons.prems(1) by (induction ds) (auto simp: unat_gt_0)
  have d: "0 < unat d" using Cons.prems(1) by (simp add: unat_gt_0)
  have n: "unat l * unat d * prod_list (map unat ds) = n" using Cons.prems(2) by (simp add: mult.assoc)
  with pos have "unat l * unat d \<le> n" by (metis One_nat_def Suc_leI mult.right_neutral mult_le_mono2)
  with Cons.prems(3) have lt: "unat l * unat d < 2 ^ 32" by simp
  then have u: "unat (l * d) = unat l * unat d" by (simp add: unat_word_ariths)
  have "checked_product_from (l * d) ds = Some (of_nat n)"
    by (rule Cons.IH) (use Cons.prems d n u in auto)
  with lt show ?case by (simp add: checked_mul_def)
qed

lemma checked_product_exact:
  "list_all (\<lambda>d. d \<noteq> 0) ds \<Longrightarrow> prod_list (map unat ds) = n \<Longrightarrow> n < 2 ^ 32 \<Longrightarrow>
     checked_product ds = Some (of_nat n)"
  unfolding checked_product_def by (rule checked_product_from_exact) auto

lemmas mask_defs = ARRAY_MASK_def ARRAY_VALUES_BIT_def ARRAY_DIMENSIONS_BIT_def

lemma Variant_decode_scalar:
  assumes "Variant_type_id v \<noteq> TArray" "reads (decode_variant_value n (scalar_mask v) opts) bs v"
  shows "reads (Variant_decode (Suc n) opts) (scalar_mask v # bs) v"
  using assms by (cases v) (simp_all add: Variant_decode.simps reads_def u8_decode_def read_simps mask_defs)

lemma type_mask:
  assumes "Variant_type_id v = ty" "ty \<noteq> TArray" "ty \<noteq> TEmpty"
  shows "VariantTypeId_encoding_mask ty = Inr (scalar_mask v)"
    and "from_encoding_mask (scalar_mask v) = Inr ty"
  using assms by (cases v; simp add: from_encoding_mask_def mask_defs)+

lemma array_mask_bits:
  fixes v :: Variant and d :: bool
  defines "m \<equiv> scalar_mask v OR ARRAY_VALUES_BIT OR (if d then ARRAY_DIMENSIONS_BIT else 0)"
  shows "m AND ARRAY_VALUES_BIT \<noteq> 0" and "m AND NOT ARRAY_MASK = scalar_mask v"
    and "m AND ARRAY_DIMENSIONS_BIT \<noteq> 0 \<longleftrightarrow> d"
  unfolding m_def by (cases d; cases v; simp add: mask_defs)+

definition reads_value :: "DecodingOptions \<Rightarrow> Variant \<Rightarrow> bool" where
  "reads_value opts v \<longleftrightarrow> (\<forall>n. 2 * length (variant_value_bytes v) + 2 \<le> n \<longrightarrow>
     reads (decode_variant_value n (scalar_mask v) opts) (variant_value_bytes v) v)"

definition reads_variant :: "DecodingOptions \<Rightarrow> Variant \<Rightarrow> bool" where
  "reads_variant opts v \<longleftrightarrow> (\<forall>n. 2 * length (Variant_bytes v) + 1 \<le> n \<longrightarrow>
     reads (Variant_decode n opts) (Variant_bytes v) v)"

definition reads_data_value :: "DecodingOptions \<Rightarrow> DataValue \<Rightarrow> bool" where
  "reads_data_value opts d \<longleftrightarrow> (\<forall>n. 2 * length (DataValue_bytes d) + 1 \<le> n \<longrightarrow>
     reads (DataValue_decode n opts) (DataValue_bytes d) d)"

lemma Variant_bytes_scalar:
  "Variant_type_id v \<noteq> TArray \<Longrightarrow> Variant_bytes v = scalar_mask v # variant_value_bytes v"
  by (cases v) simp_all

lemma reads_variant_scalar:
  assumes "Variant_type_id v \<noteq> TArray" "reads_value opts v"
  shows "reads_variant opts v"
  unfolding reads_variant_def
proof (intro allI impI)
  fix n assume "2 * length (Variant_bytes v) + 1 \<le> n"
  then obtain m where m: "n = Suc m" "2 * length (variant_value_bytes v) + 2 \<le> m"
    using assms(1) by (cases n) (auto simp: Variant_bytes_scalar)
  with assms show "reads (Variant_decode n opts) (Variant_bytes v) v"
    by (simp add: Variant_bytes_scalar Variant_decode_scalar reads_value_def)
qed

lemmas scalar_decode_reads =
  bool_codec.decode_reads i8_codec.decode_reads u8_codec.decode_reads i16_codec.decode_reads u16_codec.decode_reads
  i32_codec.decode_reads u32_codec.decode_reads i64_codec.decode_reads u64_codec.decode_reads f32_codec.decode_reads
  f64_codec.decode_reads UAString_decode_reads ByteString_decode_reads Guid_decode_reads
  StatusCode_codec.decode_reads DateTime_decode_reads QualifiedName_codec_laws(3)
  LocalizedText_codec_laws(3) NodeId_codec_laws(3) ExpandedNodeId_codec_laws(3) ExtensionObject_codec_laws(3)

lemma reads_value_scalar:
  assumes "Variant_fits opts v" "Variant_type_id v \<notin> {TVariant, TDataValue, TDiagnosticInfo, TArray}"
  shows "reads_value opts v"
  unfolding reads_value_def
proof (intro allI impI)
  fix n assume "2 * length (variant_value_bytes v) + 2 \<le> n"
  then obtain m where "n = Suc m" by (cases n) auto
  with assms show "reads (decode_variant_value n (scalar_mask v) opts) (variant_value_bytes v) v"
    by (cases v) (simp_all add: decode_variant_value.simps scalar_decode_reads reads_mapD)
qed

lemma reads_data_value_fields:
  assumes "n = Suc m" "\<And>x. v = Some x \<Longrightarrow> reads (Variant_decode m opts) (Variant_bytes x) x"
    and "case src of None \<Rightarrow> srcp = None | Some t \<Rightarrow> DateTime_in_range t"
    and "case srv of None \<Rightarrow> srvp = None | Some t \<Rightarrow> DateTime_fits opts t"
  shows "reads (DataValue_decode n opts) (DataValue_bytes (DataValue v st src srcp srv srvp))
           (DataValue v st src srcp srv srvp)"
proof -
  let ?m = "DataValue_encoding_mask (DataValue v st src srcp srv srvp)"
  note flags = HAS_VALUE_def HAS_STATUS_def HAS_SOURCE_TIMESTAMP_def HAS_SERVER_TIMESTAMP_def
    HAS_SOURCE_PICOSECONDS_def HAS_SERVER_PICOSECONDS_def
  have bits: "?m AND HAS_VALUE \<noteq> 0 \<longleftrightarrow> v \<noteq> None" "?m AND HAS_STATUS \<noteq> 0 \<longleftrightarrow> st \<noteq> None"
    "?m AND HAS_SOURCE_TIMESTAMP \<noteq> 0 \<longleftrightarrow> src \<noteq> None" "?m AND HAS_SERVER_TIMESTAMP \<noteq> 0 \<longleftrightarrow> srv \<noteq> None"
    "?m AND HAS_SOURCE_PICOSECONDS \<noteq> 0 \<longleftrightarrow> src \<noteq> None \<and> srcp \<noteq> None"
    "?m AND HAS_SERVER_PICOSECONDS \<noteq> 0 \<longleftrightarrow> srv \<noteq> None \<and> srvp \<noteq> None"
    unfolding DataValue_encoding_mask_def flag_if_def flags
    by (simp_all add: bit.conj_disj_distrib2 split: option.split)
  have src: "reads (DateTime_decode (opts \<lparr> client_offset := 0 \<rparr>)) (DateTime_bytes t) t" if "src = Some t" for t
    using that assms(3) by (simp add: DateTime_fits_def DateTime_decode_reads)
  have srv: "reads (DateTime_decode opts) (DateTime_bytes t) t" if "srv = Some t" for t
    using that assms(4) by (simp add: DateTime_decode_reads)
  have split: "opt_bytes (\<lambda>t. DateTime_bytes t @ opt_bytes (le_bytes 2) p) x
      = opt_bytes DateTime_bytes x @ opt_bytes (le_bytes 2) p" if "x = None \<longrightarrow> p = None" for x and p :: "u16 option"
    using that by (cases x) auto
  have pico: "src = None \<longrightarrow> srcp = None" "srv = None \<longrightarrow> srvp = None"
    using assms(3,4) by (auto split: option.splits)
  have "reads (DataValue_decode n opts) ([?m] @ opt_bytes Variant_bytes v @ opt_bytes (le_bytes 4) st
       @ opt_bytes DateTime_bytes src @ opt_bytes (le_bytes 2) srcp
       @ opt_bytes DateTime_bytes srv @ opt_bytes (le_bytes 2) srvp @ []) (DataValue v st src srcp srv srvp)"
    unfolding assms(1) DataValue_decode.simps u8_decode_def from_bits_truncate_id
    apply (rule reads_bindD [OF reads_ints(1)])
    apply (rule reads_bindD, rule reads_opt_field, rule bits, erule assms(2))
    apply (rule reads_bindD, rule reads_opt_field, rule bits, simp add: u32_decode_def reads_ints)
    apply (rule reads_bindD, rule reads_opt_field, rule bits, erule src)
    apply (rule reads_bindD, rule reads_opt_field, use bits pico in blast, simp add: u16_decode_def reads_ints)
    apply (rule reads_bindD, rule reads_opt_field, rule bits, erule srv)
    apply (rule reads_bindD, rule reads_opt_field, use bits pico in blast, simp add: u16_decode_def reads_ints)
    apply (use pico in auto)
    done
  then show ?thesis using pico by (simp add: split)
qed

lemma reads_array_variant:
  assumes "ty \<noteq> TArray" "ty \<noteq> TEmpty" "vs \<noteq> []" "length vs \<le> max_array_length opts" "length vs < 2 ^ 31"
    and elems: "\<And>v. v \<in> set vs \<Longrightarrow> Variant_type_id v = ty \<and> reads_value opts v"
    and dims: "\<And>ds. dims = Some ds \<Longrightarrow> length ds \<le> max_array_length opts \<and> length ds < 2 ^ 31 \<and>
                   list_all (\<lambda>d. d \<noteq> 0) ds \<and> prod_list (map unat ds) = length vs"
  shows "reads_variant opts (VArray (Array ty vs dims))"
  unfolding reads_variant_def
proof (intro allI impI)
  fix n assume n: "2 * length (Variant_bytes (VArray (Array ty vs dims))) + 1 \<le> n"
  obtain v where v: "v \<in> set vs" using assms(3) by (cases vs) auto
  with elems have tv: "Variant_type_id v = ty" by simp
  note tm = type_mask [OF tv assms(1,2)]
  have m_eq: "scalar_mask w = scalar_mask v" if "w \<in> set vs" for w
    using type_mask(1) [of w ty] elems [OF that] tm(1) assms(1,2) by simp
  from n obtain m where m: "n = Suc m" "2 * (5 + length (concat (map variant_value_bytes vs))) \<le> m"
    by (cases n) auto
  have rd: "reads (decode_variant_value m (scalar_mask v) opts) (variant_value_bytes w) w" if "w \<in> set vs" for w
  proof -
    have "length (variant_value_bytes w) \<le> length (concat (map variant_value_bytes vs))"
      using that by (induction vs) auto
    with m(2) elems [OF that] m_eq [OF that] show ?thesis by (simp add: reads_value_def)
  qed
  have vals: "reads (repeatD (length vs) (decode_variant_value m (scalar_mask v) opts))
     (concat (map variant_value_bytes vs)) vs"
    by (rule reads_repeatD) (rule rd)
  have type_ok: "validate_array_type_to_values ty vs"
    using elems assms(1,2) by (auto simp: validate_array_type_to_values_def values_are_of_type_def list_ex_iff)
  have s: "sint (of_nat (length vs) :: 32 word) = int (length vs)" using assms(5) by (rule sint_of_nat_i32)
  define d where "d \<longleftrightarrow> dims \<noteq> None"
  define em where "em = scalar_mask v OR ARRAY_VALUES_BIT OR (if d then ARRAY_DIMENSIONS_BIT else 0)"
  note bits = array_mask_bits [of v d, folded em_def]
  have "reads (Variant_decode n opts) ([em] @ le_bytes 4 (of_nat (length vs) :: 32 word)
      @ concat (map variant_value_bytes vs)
      @ opt_bytes (\<lambda>ds. le_bytes 4 (of_nat (length ds) :: 32 word) @ concat (map (le_bytes 4) ds)) dims)
      (VArray (Array ty vs dims))"
  proof (cases dims)
    case None
    then show ?thesis
      using assms(3,4) s bits tm vals type_ok
      by (simp add: reads_def m(1) Variant_decode.simps u8_decode_def i32_decode_def read_simps d_def
          liftD_def Array_new_def Let_def)
  next
    case (Some ds)
    with dims have ds: "length ds \<le> max_array_length opts" "length ds < 2 ^ 31"
      "list_all (\<lambda>d. d \<noteq> 0) ds" "prod_list (map unat ds) = length vs" by auto
    have arr: "reads (read_array u32_decode opts)
       (le_bytes 4 (of_nat (length ds) :: 32 word) @ concat (map (le_bytes 4) ds)) (Some ds)"
      using u32_codec.read_array_reads [of opts "Some ds"] ds
      by (simp add: u32_codec.array_fits_def u32_codec.array_bytes_def list_all_iff)
    have "checked_product ds = Some (of_nat (length vs))"
      using checked_product_exact [OF ds(3,4)] assms(5) by simp
    moreover have "\<not> list_ex (\<lambda>d. d = 0) ds" using ds(3) by (auto simp: list_all_iff list_ex_iff)
    ultimately show ?thesis
      using assms(3,4) s bits tm vals type_ok arr Some
      by (simp add: reads_def m(1) Variant_decode.simps u8_decode_def i32_decode_def read_simps d_def
          liftD_def Array_new_multi_def Let_def)
  qed
  then show "reads (Variant_decode n opts) (Variant_bytes (VArray (Array ty vs dims))) (VArray (Array ty vs dims))"
    by (simp add: tm em_def d_def)
qed

lemma Variant_reads:
  "Variant_fits opts v \<Longrightarrow>
     reads_variant opts v \<and> (Variant_type_id v \<noteq> TArray \<longrightarrow> reads_value opts v)"
  "DataValue_fits opts d \<Longrightarrow> reads_data_value opts d"
proof (induction opts v and opts d rule: Variant_fits_DataValue_fits.induct)
  case (24 opts x)
  have "reads_value opts (VVariant x)"
    unfolding reads_value_def
  proof (intro allI impI)
    fix n assume "2 * length (variant_value_bytes (VVariant x)) + 2 \<le> n"
    then obtain m where "n = Suc m" "2 * length (Variant_bytes x) + 1 \<le> m" by (cases n) auto
    with 24 show "reads (decode_variant_value n (scalar_mask (VVariant x)) opts) (variant_value_bytes (VVariant x)) (VVariant x)"
      by (simp add: decode_variant_value.simps reads_variant_def reads_def bindD_def liftD_def mapD_def returnD_def
          depth_lock_deeper)
  qed
  then show ?case by (simp add: reads_variant_scalar)
next
  case (25 opts x)
  have "reads_value opts (VDataValue x)"
    unfolding reads_value_def
  proof (intro allI impI)
    fix n assume "2 * length (variant_value_bytes (VDataValue x)) + 2 \<le> n"
    then obtain m where "n = Suc m" "2 * length (DataValue_bytes x) + 1 \<le> m" by (cases n) auto
    with 25 show "reads (decode_variant_value n (scalar_mask (VDataValue x)) opts) (variant_value_bytes (VDataValue x)) (VDataValue x)"
      by (simp add: decode_variant_value.simps reads_data_value_def reads_mapD)
  qed
  then show ?case by (simp add: reads_variant_scalar)
next
  case (26 opts x)
  have "reads_value opts (VDiagnosticInfo x)"
    unfolding reads_value_def
  proof (intro allI impI)
    fix n assume "2 * length (variant_value_bytes (VDiagnosticInfo x)) + 2 \<le> n"
    then obtain m where "n = Suc m" "length (DiagnosticInfo_bytes x) \<le> m" by (cases n) auto
    with 26 show "reads (decode_variant_value n (scalar_mask (VDiagnosticInfo x)) opts) (variant_value_bytes (VDiagnosticInfo x)) (VDiagnosticInfo x)"
      by (simp add: decode_variant_value.simps DiagnosticInfo_decode_reads reads_mapD)
  qed
  then show ?case by (simp add: reads_variant_scalar)
next
  case (27 opts ty vs dims)
  have "reads_variant opts (VArray (Array ty vs dims))"
    by (rule reads_array_variant) (use 27 in \<open>auto simp: list_all_iff\<close>)
  then show ?case by simp
next
  case (28 opts v st src srcp srv srvp)
  show ?case
    unfolding reads_data_value_def
  proof (intro allI impI)
    fix n assume n: "2 * length (DataValue_bytes (DataValue v st src srcp srv srvp)) + 1 \<le> n"
    then obtain m where m: "n = Suc m" by (cases n) auto
    have "reads (Variant_decode m opts) (Variant_bytes x) x" if "v = Some x" for x
      using 28 that n m by (auto simp: reads_variant_def)
    with m 28(2) show "reads (DataValue_decode n opts) (DataValue_bytes (DataValue v st src srcp srv srvp))
        (DataValue v st src srcp srv srvp)"
      by (intro reads_data_value_fields) auto
  qed
qed (simp_all add: reads_variant_scalar reads_value_scalar)

section \<open>The depth bound does not matter once it suffices\<close>

definition fuel_le :: "'a reader \<Rightarrow> 'a reader \<Rightarrow> bool" where
  "fuel_le r t \<longleftrightarrow> (\<forall>s. r s = Inl OutOfFuel \<or> r s = t s)"

named_theorems fuel_rules \<open>readers that only get more defined\<close>

lemma fuel_le_refl [fuel_rules]: "fuel_le r r"
  by (simp add: fuel_le_def)

lemma fuel_le_OutOfFuel [fuel_rules]: "fuel_le (failD OutOfFuel) r"
  by (simp add: fuel_le_def failD_def)

lemma fuel_leD: "fuel_le r t \<Longrightarrow> r s = Inl OutOfFuel \<or> r s = t s"
  by (simp add: fuel_le_def)

lemma fuel_le_trans: "fuel_le r t \<Longrightarrow> fuel_le t u \<Longrightarrow> fuel_le r u"
  unfolding fuel_le_def by metis

lemma fuel_le_bindD [fuel_rules]:
  assumes "fuel_le r t" "\<And>x. fuel_le (f x) (g x)"
  shows "fuel_le (bindD r f) (bindD t g)"
  unfolding fuel_le_def
proof
  fix s
  from assms(1) have "r s = Inl OutOfFuel \<or> r s = t s" by (simp add: fuel_le_def)
  then show "bindD r f s = Inl OutOfFuel \<or> bindD r f s = bindD t g s"
    using assms(2) unfolding bindD_def fuel_le_def by (cases "t s") fastforce+
qed

lemma fuel_le_mapD [fuel_rules]: "fuel_le r t \<Longrightarrow> fuel_le (mapD f r) (mapD f t)"
  unfolding mapD_def by (intro fuel_rules)

lemma fuel_le_if [fuel_rules]:
  "fuel_le r t \<Longrightarrow> fuel_le r' t' \<Longrightarrow> fuel_le (if b then r else r') (if b then t else t')"
  by simp

lemma fuel_le_repeatD [fuel_rules]: "fuel_le r t \<Longrightarrow> fuel_le (repeatD n r) (repeatD n t)"
  by (induction n) (auto intro!: fuel_rules)

lemma DiagnosticInfo_decode_mono: "fuel_le (DiagnosticInfo_decode n opts) (DiagnosticInfo_decode (Suc n) opts)"
proof (induction n)
  case (Suc n)
  define nxt where "nxt = DiagnosticInfo_decode (Suc n) opts"
  show ?case
    unfolding DiagnosticInfo_decode.simps(2) [of "Suc n" opts, folded nxt_def]
    unfolding DiagnosticInfo_decode.simps(2) [of n opts]
    by (intro fuel_rules Suc.IH [folded nxt_def])
qed (simp add: fuel_rules DiagnosticInfo_decode.simps(1))

lemma decode_mono_step:
  "(\<forall>opts. fuel_le (Variant_decode n opts) (Variant_decode (Suc n) opts)) \<and>
   (\<forall>em opts. fuel_le (decode_variant_value n em opts) (decode_variant_value (Suc n) em opts)) \<and>
   (\<forall>opts. fuel_le (DataValue_decode n opts) (DataValue_decode (Suc n) opts))"
proof (induction n)
  case 0
  show ?case
    by (simp add: fuel_rules Variant_decode.simps(1) decode_variant_value.simps(1) DataValue_decode.simps(1))
next
  case (Suc n)
  have V: "fuel_le (Variant_decode n opts) (Variant_decode (Suc n) opts)" for opts using Suc by blast
  have W: "fuel_le (decode_variant_value n em opts) (decode_variant_value (Suc n) em opts)" for em opts
    using Suc by blast
  have D: "fuel_le (DataValue_decode n opts) (DataValue_decode (Suc n) opts)" for opts using Suc by blast
  have "fuel_le (Variant_decode (Suc n) opts) (Variant_decode (Suc (Suc n)) opts)" for opts
    unfolding Variant_decode.simps(2) [of "Suc n"] unfolding Variant_decode.simps(2) [of n] Let_def
    by (intro fuel_rules W)
  moreover have "fuel_le (decode_variant_value (Suc n) em opts) (decode_variant_value (Suc (Suc n)) em opts)" for em opts
    unfolding decode_variant_value.simps(2) [of "Suc n"] unfolding decode_variant_value.simps(2) [of n]
    by (intro fuel_rules V D DiagnosticInfo_decode_mono)
  moreover have "fuel_le (DataValue_decode (Suc n) opts) (DataValue_decode (Suc (Suc n)) opts)" for opts
    unfolding DataValue_decode.simps(2) [of "Suc n"] unfolding DataValue_decode.simps(2) [of n]
    by (intro fuel_rules V)
  ultimately show ?case by blast
qed

lemma fuel_le_add:
  assumes "\<And>n. fuel_le (r n) (r (Suc n))" "n \<le> m"
  shows "fuel_le (r n) (r m)"
  using assms(2)
proof (induction m rule: dec_induct)
  case (step m)
  then show ?case using fuel_le_trans assms(1) by blast
qed (rule fuel_le_refl)

lemma safe_stream_reader:
  fixes r :: "nat \<Rightarrow> 'a reader"
  assumes safe: "\<And>L n. 2 * L + 1 \<le> n \<Longrightarrow> safe_upto L k (r n)"
    and mono: "\<And>n. fuel_le (r n) (r (Suc n))"
  shows "safe_reader k (\<lambda>s. r (decode_fuel s) s)"
proof (rule safe_readerI)
  fix s
  let ?R = "\<lambda>s. r (decode_fuel s) s"
  have "safe_upto (length s) k (r (decode_fuel s))" by (rule safe) (simp add: decode_fuel_def)
  from this order_refl show "(\<exists>c. ?R s = Inl (Err c)) \<or>
      (\<exists>x p s'. ?R s = Inr (x, s') \<and> s = p @ s' \<and> k \<le> length p \<and> reads ?R p x)"
  proof (cases rule: safe_uptoE)
    case (ok x p s')
    have "?R (p @ t) = Inr (x, t)" for t
    proof (cases "decode_fuel s \<le> decode_fuel (p @ t)")
      case True
      with fuel_leD [OF fuel_le_add [of r, OF mono True], of "p @ t"] readsD [OF ok(4), of t]
      show ?thesis by auto
    next
      case False
      then have le: "decode_fuel (p @ t) \<le> decode_fuel s" by simp
      have "?R (p @ t) \<noteq> Inl OutOfFuel"
      proof -
        have "safe_upto (length (p @ t)) k (r (decode_fuel (p @ t)))"
          by (rule safe) (simp add: decode_fuel_def)
        from this order_refl show ?thesis by (cases rule: safe_uptoE) auto
      qed
      with fuel_leD [OF fuel_le_add [of r, OF mono le], of "p @ t"] readsD [OF ok(4), of t]
      show ?thesis by simp
    qed
    with ok show ?thesis by (auto simp: reads_def)
  qed auto
qed

definition Variant_decode_stream :: "DecodingOptions \<Rightarrow> Variant reader" where
  "Variant_decode_stream opts s = Variant_decode (decode_fuel s) opts s"

definition DataValue_decode_stream :: "DecodingOptions \<Rightarrow> DataValue reader" where
  "DataValue_decode_stream opts s = DataValue_decode (decode_fuel s) opts s"

definition DiagnosticInfo_decode_stream :: "DecodingOptions \<Rightarrow> DiagnosticInfo reader" where
  "DiagnosticInfo_decode_stream opts s = DiagnosticInfo_decode (decode_fuel s) opts s"

lemma Variant_fits_valid:
  "Variant_fits opts v \<Longrightarrow> Variant_valid v"
  "DataValue_fits opts d \<Longrightarrow> DataValue_valid d"
  by (induction opts v and opts d rule: Variant_fits_DataValue_fits.induct)
    (auto simp: list_all_iff ExpandedNodeId_fits_def ExpandedNodeId_valid_def ExtensionObject_fits_def
      ExtensionObject_valid_def intro: NodeId_fits_valid split: option.splits)

interpretation Variant_codec: codec Variant_byte_len Variant_encode Variant_bytes Variant_valid
  Variant_decode_stream 1 Variant_fits
proof unfold_locales
  fix opts
  show "safe_reader 1 (Variant_decode_stream opts)"
    unfolding Variant_decode_stream_def [abs_def]
    by (rule safe_stream_reader) (use decode_depth_suffices decode_mono_step in auto)
next
  fix opts v assume "Variant_fits opts v"
  then show "reads (Variant_decode_stream opts) (Variant_bytes v) v"
    using Variant_reads(1) [of opts v]
    by (auto simp: reads_variant_def reads_def Variant_decode_stream_def decode_fuel_def)
qed (simp_all add: Variant_encode_writes Variant_byte_len_exact Variant_fits_valid)

interpretation DataValue_codec: codec DataValue_byte_len DataValue_encode DataValue_bytes DataValue_valid
  DataValue_decode_stream 1 DataValue_fits
proof unfold_locales
  fix opts
  show "safe_reader 1 (DataValue_decode_stream opts)"
    unfolding DataValue_decode_stream_def [abs_def]
    by (rule safe_stream_reader) (use decode_depth_suffices decode_mono_step in auto)
next
  fix opts d assume "DataValue_fits opts d"
  then show "reads (DataValue_decode_stream opts) (DataValue_bytes d) d"
    using Variant_reads(2) [of opts d]
    by (auto simp: reads_data_value_def reads_def DataValue_decode_stream_def decode_fuel_def)
qed (simp_all add: Variant_encode_writes Variant_byte_len_exact Variant_fits_valid)

interpretation DiagnosticInfo_codec: codec DiagnosticInfo_byte_len DiagnosticInfo_encode DiagnosticInfo_bytes
  "\<lambda>_. True" DiagnosticInfo_decode_stream 1 DiagnosticInfo_fits
proof unfold_locales
  fix opts
  show "safe_reader 1 (DiagnosticInfo_decode_stream opts)"
    unfolding DiagnosticInfo_decode_stream_def [abs_def]
    by (rule safe_stream_reader) (auto intro!: DiagnosticInfo_decode_safe [unfolded One_nat_def] DiagnosticInfo_decode_mono)
next
  fix opts d assume "DiagnosticInfo_fits opts d"
  then show "reads (DiagnosticInfo_decode_stream opts) (DiagnosticInfo_bytes d) d"
    using DiagnosticInfo_decode_reads [of opts d]
    by (auto simp: reads_def DiagnosticInfo_decode_stream_def decode_fuel_def)
qed (simp_all add: DiagnosticInfo_encode_writes DiagnosticInfo_byte_len_exact)

section \<open>Properties\<close>

primrec nested_data_value :: "nat \<Rightarrow> Variant" where
  "nested_data_value 0 = VEmpty"
| "nested_data_value (Suc n) = VDataValue (DataValue (Some (nested_data_value n)) None None None None None)"

primrec nested_variant :: "nat \<Rightarrow> Variant" where
  "nested_variant 0 = VEmpty"
| "nested_variant (Suc n) = VVariant (nested_variant n)"

lemma Variant_decode_stream_Suc:
  "Variant_decode_stream opts s = Variant_decode (Suc (2 * length s + 1)) opts s"
  by (simp add: Variant_decode_stream_def decode_fuel_def)

text \<open>C2: Encoding a variant that respects the limits of the options appends exactly
  \<open>byte_len\<close> bytes to the stream, and decoding them gives the variant back and leaves what
  follows: for scalars, arrays, multi-dimensional arrays and values nested in variants,
  data values and diagnostic infos.\<close>

theorem Variant_round_trip:
  assumes "Variant_fits opts v"
  shows "\<exists>bs. Variant_encode v out = Inr (length bs, out @ bs) \<and> Variant_byte_len v = length bs \<and>
             (\<forall>rest. Variant_decode_stream opts (bs @ rest) = Inr (v, rest))"
  using assms Variant_codec.encode_writes [of v] Variant_codec.byte_len_exact [of v]
    Variant_codec.decode_reads [of opts v] Variant_codec.fits_valid
  by (intro exI [of _ "Variant_bytes v"]) (simp add: writes_def reads_def)

theorem Variant_round_trip_witness:
  "\<exists>bs. Variant_encode (VVariant (VArray (Array TInt32 [VInt32 1, VInt32 2, VInt32 3, VInt32 (-1)] (Some [2, 2])))) []
            = Inr (length bs, [] @ bs) \<and>
         Variant_byte_len (VVariant (VArray (Array TInt32 [VInt32 1, VInt32 2, VInt32 3, VInt32 (-1)] (Some [2, 2]))))
            = length bs \<and>
         (\<forall>rest. Variant_decode_stream DecodingOptions_default (bs @ rest) =
            Inr (VVariant (VArray (Array TInt32 [VInt32 1, VInt32 2, VInt32 3, VInt32 (-1)] (Some [2, 2]))), rest))"
  by (rule Variant_round_trip) (simp add: depth_available_def deeper_def DecodingOptions_default_def
      DepthGauge_default_def MAX_DECODING_DEPTH_def MAX_ARRAY_LENGTH_def)

text \<open>C7: Decoding a variant from arbitrary bytes, under any options, never panics and always
  returns: either an error status code, or a value whose bytes are a non-empty prefix of the
  input that decodes to the same value whatever follows it.\<close>

theorem Variant_decode_total:
  "(\<exists>c. Variant_decode_stream opts s = Inl (Err c)) \<or>
   (\<exists>v p rest. Variant_decode_stream opts s = Inr (v, rest) \<and> s = p @ rest \<and> p \<noteq> [] \<and>
      (\<forall>t. Variant_decode_stream opts (p @ t) = Inr (v, t)))"
  using Variant_codec.decode_safe [of opts]
  by (rule safe_readerE [of _ _ s]) (auto simp: reads_def)


lemma decode_variant_tag:
  "Variant_decode (Suc (Suc n)) opts (24 # s) =
     bindR (depth_lock opts) (\<lambda>opts'. mapD VVariant (Variant_decode n opts') s)"
  by (simp add: Variant_decode.simps(2) decode_variant_value.simps(2) u8_decode_def read_simps
      bindD_def mask_defs liftD_def bindR_def split: sum.splits)

lemma nested_variant_bytes: "Variant_bytes (nested_variant n) = replicate n 24 @ [0]"
  by (induction n) simp_all

lemma nested_variant_too_deep:
  assumes "\<not> depth_available opts \<or> max_depth (decoding_depth_gauge opts) < current_depth (decoding_depth_gauge opts) + Suc n"
    and "n \<le> m"
  shows "Variant_decode (Suc (Suc (2 * m))) opts (replicate (Suc n) 24 @ s) = Inl (Err BadDecodingError)"
  using assms
proof (induction n arbitrary: opts m)
  case (Suc n)
  obtain k where m: "m = Suc k" using Suc.prems(2) by (cases m) auto
  show ?case
  proof (cases "depth_available opts")
    case True
    then have "Variant_decode (Suc (Suc (2 * k))) (deeper opts) (replicate (Suc n) 24 @ s) = Inl (Err BadDecodingError)"
      using Suc.prems m by (intro Suc.IH) (auto simp: deeper_def)
    with True m show ?thesis by (simp add: decode_variant_tag depth_lock_deeper mapD_def bindD_def)
  next
    case False
    then show ?thesis
      by (simp add: decode_variant_tag depth_lock_def DepthLock_obtain_def depth_available_def)
  qed
qed (auto simp: decode_variant_tag depth_lock_def DepthLock_obtain_def depth_available_def)

lemma nested_variant_fits:
  "current_depth (decoding_depth_gauge opts) + n \<le> max_depth (decoding_depth_gauge opts) \<Longrightarrow>
     Variant_fits opts (nested_variant n)"
  by (induction n arbitrary: opts) (auto simp: depth_available_def deeper_def)

text \<open>C25: Variants nested in variants are accepted exactly as deep as the depth gauge has
  locks left; one level more is a decoding error.\<close>

theorem nested_variant_depth_limit:
  "Variant_decode_stream opts (replicate n 24 @ [0]) =
     (if n = 0 \<or> current_depth (decoding_depth_gauge opts) + n \<le> max_depth (decoding_depth_gauge opts)
      then Inr (nested_variant n, []) else Inl (Err BadDecodingError))"
proof (cases "n = 0 \<or> current_depth (decoding_depth_gauge opts) + n \<le> max_depth (decoding_depth_gauge opts)")
  case True
  then have "Variant_fits opts (nested_variant n)" using nested_variant_fits by auto
  from Variant_codec.decode_reads [OF this] True show ?thesis
    by (auto simp: reads_def nested_variant_bytes [symmetric] dest: spec [of _ "[]"])
next
  case False
  then obtain k where n: "n = Suc k" by (cases n) auto
  have "Variant_decode (Suc (Suc (2 * (n + 1)))) opts (replicate n 24 @ [0]) = Inl (Err BadDecodingError)"
    unfolding n by (rule nested_variant_too_deep) (use False n in auto)
  with False show ?thesis by (simp add: Variant_decode_stream_def decode_fuel_def)
qed

text \<open>C26: The depth gauge does not bound values nested through data values: whatever the limit
  of the options, two bytes buy one more level of recursion and the decoder follows them all.\<close>

theorem nested_data_value_ignores_depth_limit:
  "Variant_byte_len (nested_data_value n) = 2 * n + 1 \<and>
   (\<exists>bs. Variant_encode (nested_data_value n) [] = Inr (2 * n + 1, bs) \<and>
      Variant_decode_stream opts bs = Inr (nested_data_value n, []))"
proof -
  have "Variant_fits opts (nested_data_value n)" by (induction n) simp_all
  moreover have "Variant_byte_len (nested_data_value n) = 2 * n + 1" by (induction n) simp_all
  ultimately show ?thesis using Variant_codec.round_trip [of opts "nested_data_value n" "[]"] by auto
qed


end
