(* ===== verification/Opc_Tcp.thy ===== *)
theory Opc_Tcp
  imports Opc_Scalars
begin

text \<open>
  The messages of the TCP transport, \<open>src/lib/src/core/comms/tcp_types.rs\<close>: the eight byte
  message header and the hello, acknowledge and error messages of the connection handshake.
  Encoding a header whose type is a chunk or invalid panics, as in the source; each message
  meets the codec contract of \<open>Opc_Encoding\<close>. The four letters of a message type are given by
  their ASCII codes.
\<close>

section \<open>Message headers\<close>

definition CHUNK_MESSAGE :: "u8 list" where "CHUNK_MESSAGE = [0x4D, 0x53, 0x47]"
definition OPEN_SECURE_CHANNEL_MESSAGE :: "u8 list" where "OPEN_SECURE_CHANNEL_MESSAGE = [0x4F, 0x50, 0x4E]"
definition CLOSE_SECURE_CHANNEL_MESSAGE :: "u8 list" where "CLOSE_SECURE_CHANNEL_MESSAGE = [0x43, 0x4C, 0x4F]"
definition HELLO_MESSAGE :: "u8 list" where "HELLO_MESSAGE = [0x48, 0x45, 0x4C]"
definition ACKNOWLEDGE_MESSAGE :: "u8 list" where "ACKNOWLEDGE_MESSAGE = [0x41, 0x43, 0x4B]"
definition ERROR_MESSAGE :: "u8 list" where "ERROR_MESSAGE = [0x45, 0x52, 0x52]"
definition CHUNK_FINAL :: u8 where "CHUNK_FINAL = 0x46"
definition CHUNK_INTERMEDIATE :: u8 where "CHUNK_INTERMEDIATE = 0x43"
definition CHUNK_FINAL_ERROR :: u8 where "CHUNK_FINAL_ERROR = 0x41"
definition MIN_CHUNK_SIZE :: nat where "MIN_CHUNK_SIZE = 8196"
definition MESSAGE_HEADER_LEN :: nat where "MESSAGE_HEADER_LEN = 8"

datatype MessageType = MtInvalid | MtHello | MtAcknowledge | MtChunk | MtError

record MessageHeader =
  mh_message_type :: MessageType
  mh_message_size :: u32

definition MessageHeader_new :: "MessageType \<Rightarrow> MessageHeader" where
  "MessageHeader_new ty = \<lparr> mh_message_type = ty, mh_message_size = 0 \<rparr>"

definition message_type :: "u8 list \<Rightarrow> MessageType" where
  "message_type t =
     (if length t \<noteq> 4 then MtInvalid
      else
        let ty = (if take 3 t = HELLO_MESSAGE then MtHello
                  else if take 3 t = ACKNOWLEDGE_MESSAGE then MtAcknowledge
                  else if take 3 t = ERROR_MESSAGE then MtError
                  else if take 3 t = CHUNK_MESSAGE \<or> take 3 t = OPEN_SECURE_CHANNEL_MESSAGE
                          \<or> take 3 t = CLOSE_SECURE_CHANNEL_MESSAGE then MtChunk
                  else MtInvalid) in
        if t ! 3 = CHUNK_FINAL then ty
        else if t ! 3 = CHUNK_INTERMEDIATE \<or> t ! 3 = CHUNK_FINAL_ERROR then
          (if ty = MtChunk then ty else MtInvalid)
        else MtInvalid)"

definition MessageHeader_byte_len :: "MessageHeader \<Rightarrow> nat" where
  "MessageHeader_byte_len h = MESSAGE_HEADER_LEN"

definition MessageHeader_encode :: "MessageHeader \<Rightarrow> writer" where
  "MessageHeader_encode h =
     thenW (case mh_message_type h of
              MtHello \<Rightarrow> writeW HELLO_MESSAGE
            | MtAcknowledge \<Rightarrow> writeW ACKNOWLEDGE_MESSAGE
            | MtError \<Rightarrow> writeW ERROR_MESSAGE
            | MtChunk \<Rightarrow> failW Panic
            | MtInvalid \<Rightarrow> failW Panic)
       (thenW (write_u8 CHUNK_FINAL) (write_u32 (mh_message_size h)))"

definition MessageHeader_decode :: "DecodingOptions \<Rightarrow> MessageHeader reader" where
  "MessageHeader_decode opts =
     bindD (read_exact 4) (\<lambda>t.
     bindD read_u32 (\<lambda>size.
       returnD \<lparr> mh_message_type = message_type t, mh_message_size = size \<rparr>))"

text \<open>The io errors of \<open>MessageHeader::read_bytes\<close>: an end of file from \<open>read_exact\<close>, an error
  with a message of its own, and the panic of a slice out of range.\<close>

datatype io_fault = UnexpectedEof | OtherError | IoPanic

definition MessageHeader_read_bytes :: "DecodingOptions \<Rightarrow> u8 list \<Rightarrow> io_fault + u8 list \<times> u8 list" where
  "MessageHeader_read_bytes opts s =
     (if length s < 4 then Inl UnexpectedEof
      else if message_type (take 4 s) = MtInvalid then Inl OtherError
      else case u32_decode opts (drop 4 s) of
             Inl _ \<Rightarrow> Inl OtherError
           | Inr (message_size, s') \<Rightarrow>
               let out = take 4 s @ le_bytes 4 message_size;
                   pos = length out;
                   result = take (unat message_size) out @ replicate (unat message_size - length out) 0
               in if length result < pos then Inl IoPanic
                  else if length s' < length result - pos then Inl UnexpectedEof
                  else Inr (take pos result @ take (length result - pos) s', drop (length result - pos) s'))"

section \<open>The handshake messages\<close>

record HelloMessage =
  hel_message_header :: MessageHeader
  hel_protocol_version :: u32
  hel_receive_buffer_size :: u32
  hel_send_buffer_size :: u32
  hel_max_message_size :: u32
  hel_max_chunk_count :: u32
  hel_endpoint_url :: UAString

definition MAX_URL_LEN :: nat where "MAX_URL_LEN = 4096"

definition HelloMessage_byte_len :: "HelloMessage \<Rightarrow> nat" where
  "HelloMessage_byte_len m = MessageHeader_byte_len (hel_message_header m) + 20 + UAString_byte_len (hel_endpoint_url m)"

definition HelloMessage_encode :: "HelloMessage \<Rightarrow> writer" where
  "HelloMessage_encode m =
     thenW (MessageHeader_encode (hel_message_header m))
    (thenW (u32_encode (hel_protocol_version m))
    (thenW (u32_encode (hel_receive_buffer_size m))
    (thenW (u32_encode (hel_send_buffer_size m))
    (thenW (u32_encode (hel_max_message_size m))
    (thenW (u32_encode (hel_max_chunk_count m))
           (UAString_encode (hel_endpoint_url m)))))))"

definition HelloMessage_decode :: "DecodingOptions \<Rightarrow> HelloMessage reader" where
  "HelloMessage_decode opts =
     bindD (MessageHeader_decode opts) (\<lambda>header.
     bindD (u32_decode opts) (\<lambda>version.
     bindD (u32_decode opts) (\<lambda>receive_size.
     bindD (u32_decode opts) (\<lambda>send_size.
     bindD (u32_decode opts) (\<lambda>message_size.
     bindD (u32_decode opts) (\<lambda>chunk_count.
     bindD (UAString_decode opts) (\<lambda>url.
       returnD \<lparr> hel_message_header = header, hel_protocol_version = version,
         hel_receive_buffer_size = receive_size, hel_send_buffer_size = send_size,
         hel_max_message_size = message_size, hel_max_chunk_count = chunk_count,
         hel_endpoint_url = url \<rparr>)))))))"

definition HelloMessage_new :: "u8 list \<Rightarrow> nat \<Rightarrow> nat \<Rightarrow> nat \<Rightarrow> nat \<Rightarrow> HelloMessage" where
  "HelloMessage_new endpoint_url send_size receive_size message_size chunk_count =
     (let msg = \<lparr> hel_message_header = MessageHeader_new MtHello, hel_protocol_version = 0,
                  hel_receive_buffer_size = of_nat receive_size,
                  hel_send_buffer_size = of_nat send_size,
                  hel_max_message_size = of_nat message_size,
                  hel_max_chunk_count = of_nat chunk_count,
                  hel_endpoint_url = UAString_from endpoint_url \<rparr>
      in msg \<lparr> hel_message_header := (hel_message_header msg)
               \<lparr> mh_message_size := of_nat (HelloMessage_byte_len msg) \<rparr> \<rparr>)"

definition is_endpoint_valid_length :: "HelloMessage \<Rightarrow> bool" where
  "is_endpoint_valid_length m =
     (case ua_value (hel_endpoint_url m) of Some url \<Rightarrow> length url \<le> MAX_URL_LEN | None \<Rightarrow> False)"

definition is_valid_buffer_sizes :: "HelloMessage \<Rightarrow> bool" where
  "is_valid_buffer_sizes m \<longleftrightarrow>
     of_nat MIN_CHUNK_SIZE \<le> hel_receive_buffer_size m \<and> of_nat MIN_CHUNK_SIZE \<le> hel_send_buffer_size m"

record AcknowledgeMessage =
  ack_message_header :: MessageHeader
  ack_protocol_version :: u32
  ack_receive_buffer_size :: u32
  ack_send_buffer_size :: u32
  ack_max_message_size :: u32
  ack_max_chunk_count :: u32

definition AcknowledgeMessage_byte_len :: "AcknowledgeMessage \<Rightarrow> nat" where
  "AcknowledgeMessage_byte_len m = MessageHeader_byte_len (ack_message_header m) + 20"

definition AcknowledgeMessage_encode :: "AcknowledgeMessage \<Rightarrow> writer" where
  "AcknowledgeMessage_encode m =
     thenW (MessageHeader_encode (ack_message_header m))
    (thenW (u32_encode (ack_protocol_version m))
    (thenW (u32_encode (ack_receive_buffer_size m))
    (thenW (u32_encode (ack_send_buffer_size m))
    (thenW (u32_encode (ack_max_message_size m))
           (u32_encode (ack_max_chunk_count m))))))"

definition AcknowledgeMessage_decode :: "DecodingOptions \<Rightarrow> AcknowledgeMessage reader" where
  "AcknowledgeMessage_decode opts =
     bindD (MessageHeader_decode opts) (\<lambda>header.
     bindD (u32_decode opts) (\<lambda>version.
     bindD (u32_decode opts) (\<lambda>receive_size.
     bindD (u32_decode opts) (\<lambda>send_size.
     bindD (u32_decode opts) (\<lambda>message_size.
     bindD (u32_decode opts) (\<lambda>chunk_count.
       returnD \<lparr> ack_message_header = header, ack_protocol_version = version,
         ack_receive_buffer_size = receive_size, ack_send_buffer_size = send_size,
         ack_max_message_size = message_size, ack_max_chunk_count = chunk_count \<rparr>))))))"

record ErrorMessage =
  err_message_header :: MessageHeader
  err_error :: u32
  err_reason :: UAString

definition ErrorMessage_byte_len :: "ErrorMessage \<Rightarrow> nat" where
  "ErrorMessage_byte_len m =
     MessageHeader_byte_len (err_message_header m) + u32_byte_len (err_error m) + UAString_byte_len (err_reason m)"

definition ErrorMessage_encode :: "ErrorMessage \<Rightarrow> writer" where
  "ErrorMessage_encode m =
     thenW (MessageHeader_encode (err_message_header m))
    (thenW (u32_encode (err_error m)) (UAString_encode (err_reason m)))"

definition ErrorMessage_decode :: "DecodingOptions \<Rightarrow> ErrorMessage reader" where
  "ErrorMessage_decode opts =
     bindD (MessageHeader_decode opts) (\<lambda>header.
     bindD (u32_decode opts) (\<lambda>err.
     bindD (UAString_decode opts) (\<lambda>reason.
       returnD \<lparr> err_message_header = header, err_error = err, err_reason = reason \<rparr>)))"

section \<open>The wire format of the messages\<close>

definition message_tag :: "MessageType \<Rightarrow> u8 list" where
  "message_tag ty =
     (case ty of MtHello \<Rightarrow> HELLO_MESSAGE | MtAcknowledge \<Rightarrow> ACKNOWLEDGE_MESSAGE | MtError \<Rightarrow> ERROR_MESSAGE
      | MtChunk \<Rightarrow> [] | MtInvalid \<Rightarrow> [])"

definition MessageHeader_bytes :: "MessageHeader \<Rightarrow> u8 list" where
  "MessageHeader_bytes h = message_tag (mh_message_type h) @ [CHUNK_FINAL] @ le_bytes 4 (mh_message_size h)"

definition MessageHeader_valid :: "MessageHeader \<Rightarrow> bool" where
  "MessageHeader_valid h \<longleftrightarrow> mh_message_type h \<in> {MtHello, MtAcknowledge, MtError}"

definition HelloMessage_bytes :: "HelloMessage \<Rightarrow> u8 list" where
  "HelloMessage_bytes m = MessageHeader_bytes (hel_message_header m)
     @ le_bytes 4 (hel_protocol_version m) @ le_bytes 4 (hel_receive_buffer_size m)
     @ le_bytes 4 (hel_send_buffer_size m) @ le_bytes 4 (hel_max_message_size m)
     @ le_bytes 4 (hel_max_chunk_count m) @ UAString_bytes (hel_endpoint_url m)"

definition AcknowledgeMessage_bytes :: "AcknowledgeMessage \<Rightarrow> u8 list" where
  "AcknowledgeMessage_bytes m = MessageHeader_bytes (ack_message_header m)
     @ le_bytes 4 (ack_protocol_version m) @ le_bytes 4 (ack_receive_buffer_size m)
     @ le_bytes 4 (ack_send_buffer_size m) @ le_bytes 4 (ack_max_message_size m)
     @ le_bytes 4 (ack_max_chunk_count m)"

definition ErrorMessage_bytes :: "ErrorMessage \<Rightarrow> u8 list" where
  "ErrorMessage_bytes m = MessageHeader_bytes (err_message_header m) @ le_bytes 4 (err_error m)
     @ UAString_bytes (err_reason m)"

lemmas message_tags = CHUNK_MESSAGE_def OPEN_SECURE_CHANNEL_MESSAGE_def CLOSE_SECURE_CHANNEL_MESSAGE_def
  HELLO_MESSAGE_def ACKNOWLEDGE_MESSAGE_def ERROR_MESSAGE_def CHUNK_FINAL_def CHUNK_INTERMEDIATE_def
  CHUNK_FINAL_ERROR_def

lemma message_type_tag:
  "ty \<in> {MtHello, MtAcknowledge, MtError} \<Longrightarrow> message_type (message_tag ty @ [CHUNK_FINAL]) = ty"
  by (auto simp: message_type_def message_tag_def message_tags)

lemma length_message_tag: "ty \<in> {MtHello, MtAcknowledge, MtError} \<Longrightarrow> length (message_tag ty) = 3"
  by (auto simp: message_tag_def message_tags)

lemma length_MessageHeader_bytes: "MessageHeader_valid h \<Longrightarrow> length (MessageHeader_bytes h) = 8"
  by (simp add: MessageHeader_bytes_def MessageHeader_valid_def length_message_tag)

lemma MessageHeader_encode_writes [writes_rules]:
  "MessageHeader_valid h \<Longrightarrow> writes (MessageHeader_encode h) (MessageHeader_bytes h)"
  unfolding MessageHeader_encode_def MessageHeader_bytes_def
  by (intro writes_thenW writes_rules) (auto simp: MessageHeader_valid_def message_tag_def writes_def writeW_def)

lemma MessageHeader_decode_reads [reads_rules]:
  assumes "MessageHeader_valid h"
  shows "reads (MessageHeader_decode opts) (MessageHeader_bytes h) h"
proof -
  have "length (message_tag (mh_message_type h) @ [CHUNK_FINAL]) = 4"
    using assms by (simp add: MessageHeader_valid_def length_message_tag)
  then have "read_exact 4 (message_tag (mh_message_type h) @ CHUNK_FINAL # s) =
      Inr (message_tag (mh_message_type h) @ [CHUNK_FINAL], s)" for s
    by (simp add: read_exact_def)
  with message_type_tag [of "mh_message_type h"] assms show ?thesis
    by (cases h) (simp add: reads_def MessageHeader_decode_def MessageHeader_bytes_def read_simps MessageHeader_valid_def)
qed

lemma MessageHeader_decode_safe: "safe_reader 8 (MessageHeader_decode opts)"
proof -
  have "safe_reader (4 + (4 + 0)) (MessageHeader_decode opts)"
    unfolding MessageHeader_decode_def
    by (intro safe_bindD safe_read_exact safe_ints safe0_rules)
  then show ?thesis by simp
qed

lemmas [safe0_rules] = MessageHeader_decode_safe [THEN safe_reader_0]

definition HelloMessage_fits :: "DecodingOptions \<Rightarrow> HelloMessage \<Rightarrow> bool" where
  "HelloMessage_fits opts m \<longleftrightarrow> MessageHeader_valid (hel_message_header m) \<and> UAString_fits opts (hel_endpoint_url m)"

definition ErrorMessage_fits :: "DecodingOptions \<Rightarrow> ErrorMessage \<Rightarrow> bool" where
  "ErrorMessage_fits opts m \<longleftrightarrow> MessageHeader_valid (err_message_header m) \<and> UAString_fits opts (err_reason m)"

section \<open>The messages meet the codec contract\<close>

interpretation MessageHeader_codec: codec MessageHeader_byte_len MessageHeader_encode MessageHeader_bytes
  MessageHeader_valid MessageHeader_decode 8 "\<lambda>_. MessageHeader_valid"
  by unfold_locales
    (simp_all add: MessageHeader_encode_writes MessageHeader_byte_len_def MESSAGE_HEADER_LEN_def
      length_MessageHeader_bytes MessageHeader_decode_safe MessageHeader_decode_reads)

interpretation HelloMessage_codec: codec HelloMessage_byte_len HelloMessage_encode HelloMessage_bytes
  "\<lambda>m. MessageHeader_valid (hel_message_header m)" HelloMessage_decode 8 HelloMessage_fits
proof unfold_locales
  fix opts m
  show "writes (HelloMessage_encode m) (HelloMessage_bytes m)" if "MessageHeader_valid (hel_message_header m)"
    unfolding HelloMessage_encode_def HelloMessage_bytes_def u32_encode_def
    by (intro writes_thenW writes_rules that)
  show "HelloMessage_byte_len m = length (HelloMessage_bytes m)" if "MessageHeader_valid (hel_message_header m)"
    using that by (simp add: HelloMessage_byte_len_def HelloMessage_bytes_def length_MessageHeader_bytes
        MessageHeader_byte_len_def MESSAGE_HEADER_LEN_def length_UAString_bytes)
  have "safe_reader (8 + 0) (HelloMessage_decode opts)"
    unfolding HelloMessage_decode_def u32_decode_def
    by (intro safe_bindD [OF MessageHeader_decode_safe] safe0_rules)
  then show "safe_reader 8 (HelloMessage_decode opts)" by simp
  show "reads (HelloMessage_decode opts) (HelloMessage_bytes m) m" if "HelloMessage_fits opts m"
    using that unfolding reads_def HelloMessage_bytes_def HelloMessage_fits_def
    by (simp add: HelloMessage_decode_def u32_decode_def read_simps MessageHeader_decode_reads [THEN readsD]
        UAString_decode_reads [THEN readsD])
qed (simp add: HelloMessage_fits_def)

interpretation AcknowledgeMessage_codec: codec AcknowledgeMessage_byte_len AcknowledgeMessage_encode
  AcknowledgeMessage_bytes "\<lambda>m. MessageHeader_valid (ack_message_header m)" AcknowledgeMessage_decode 8
  "\<lambda>_ m. MessageHeader_valid (ack_message_header m)"
proof unfold_locales
  fix opts m
  show "writes (AcknowledgeMessage_encode m) (AcknowledgeMessage_bytes m)"
    if "MessageHeader_valid (ack_message_header m)"
    unfolding AcknowledgeMessage_encode_def AcknowledgeMessage_bytes_def u32_encode_def
    by (intro writes_thenW writes_rules that)
  show "AcknowledgeMessage_byte_len m = length (AcknowledgeMessage_bytes m)"
    if "MessageHeader_valid (ack_message_header m)"
    using that by (simp add: AcknowledgeMessage_byte_len_def AcknowledgeMessage_bytes_def
        length_MessageHeader_bytes MessageHeader_byte_len_def MESSAGE_HEADER_LEN_def)
  have "safe_reader (8 + 0) (AcknowledgeMessage_decode opts)"
    unfolding AcknowledgeMessage_decode_def u32_decode_def
    by (intro safe_bindD [OF MessageHeader_decode_safe] safe0_rules)
  then show "safe_reader 8 (AcknowledgeMessage_decode opts)" by simp
  show "reads (AcknowledgeMessage_decode opts) (AcknowledgeMessage_bytes m) m"
    if "MessageHeader_valid (ack_message_header m)"
    using that unfolding reads_def AcknowledgeMessage_bytes_def
    by (simp add: AcknowledgeMessage_decode_def u32_decode_def read_simps MessageHeader_decode_reads [THEN readsD])
qed simp

interpretation ErrorMessage_codec: codec ErrorMessage_byte_len ErrorMessage_encode ErrorMessage_bytes
  "\<lambda>m. MessageHeader_valid (err_message_header m)" ErrorMessage_decode 8 ErrorMessage_fits
proof unfold_locales
  fix opts m
  show "writes (ErrorMessage_encode m) (ErrorMessage_bytes m)" if "MessageHeader_valid (err_message_header m)"
    unfolding ErrorMessage_encode_def ErrorMessage_bytes_def u32_encode_def
    by (intro writes_thenW writes_rules that)
  show "ErrorMessage_byte_len m = length (ErrorMessage_bytes m)" if "MessageHeader_valid (err_message_header m)"
    using that by (simp add: ErrorMessage_byte_len_def ErrorMessage_bytes_def length_MessageHeader_bytes
        MessageHeader_byte_len_def MESSAGE_HEADER_LEN_def length_UAString_bytes u32_byte_len_def)
  have "safe_reader (8 + 0) (ErrorMessage_decode opts)"
    unfolding ErrorMessage_decode_def u32_decode_def
    by (intro safe_bindD [OF MessageHeader_decode_safe] safe0_rules)
  then show "safe_reader 8 (ErrorMessage_decode opts)" by simp
  show "reads (ErrorMessage_decode opts) (ErrorMessage_bytes m) m" if "ErrorMessage_fits opts m"
    using that unfolding reads_def ErrorMessage_bytes_def ErrorMessage_fits_def
    by (simp add: ErrorMessage_decode_def u32_decode_def read_simps MessageHeader_decode_reads [THEN readsD]
        UAString_decode_reads [THEN readsD])
qed (simp add: ErrorMessage_fits_def)

end
