(* ===== verification/Opc_Security_Policy.thy ===== *)
theory Opc_Security_Policy
  imports Opc_Scalars "HOL-Library.Sublist"
begin

text \<open>
  Security policies and the symmetric cryptography of \<open>src/lib/src/crypto\<close>:
  \<open>security_policy.rs\<close>, \<open>hash.rs\<close> (HMAC signatures and the P_SHA key derivation) and \<open>aeskey.rs\<close>.
  The primitives of OpenSSL that these files call are the fields
  of the record \<open>openssl\<close>, an argument of every definition that uses one; what the code relies
  on (the length of a digest, decryption as the inverse of encryption) is the predicate
  \<open>symmetric_laws\<close>.
\<close>

section \<open>The primitives of OpenSSL\<close>

datatype MessageDigest = Sha1 | Sha256

datatype Cipher = Aes128Cbc | Aes256Cbc

datatype RsaPadding = Pkcs1 | OaepSha1 | OaepSha256 | Pkcs1Pss

text \<open>Keys and certificates are the byte strings OpenSSL reads them from. A function that may fail
  returns None. Encrypting with RSA is randomised: the number it takes is the position of the
  block, so that equal blocks may have different cipher texts.\<close>

record openssl =
  hmac_sign :: "MessageDigest \<Rightarrow> u8 list \<Rightarrow> u8 list \<Rightarrow> u8 list"
  aes_encrypt :: "Cipher \<Rightarrow> u8 list \<Rightarrow> u8 list \<Rightarrow> u8 list \<Rightarrow> u8 list option"
  aes_decrypt :: "Cipher \<Rightarrow> u8 list \<Rightarrow> u8 list \<Rightarrow> u8 list \<Rightarrow> u8 list option"
  rsa_sign :: "MessageDigest \<Rightarrow> RsaPadding \<Rightarrow> u8 list \<Rightarrow> u8 list \<Rightarrow> u8 list option"
  rsa_verify :: "MessageDigest \<Rightarrow> RsaPadding \<Rightarrow> u8 list \<Rightarrow> u8 list \<Rightarrow> u8 list \<Rightarrow> bool option"
  rsa_public_encrypt :: "RsaPadding \<Rightarrow> u8 list \<Rightarrow> nat \<Rightarrow> u8 list \<Rightarrow> u8 list option"
  rsa_private_decrypt :: "RsaPadding \<Rightarrow> u8 list \<Rightarrow> u8 list \<Rightarrow> u8 list option"
  public_key_bits :: "u8 list \<Rightarrow> nat"
  private_key_bits :: "u8 list \<Rightarrow> nat"
  x509_from_der :: "u8 list \<Rightarrow> bool"
  x509_public_key :: "u8 list \<Rightarrow> u8 list option"
  sha1_hash :: "u8 list \<Rightarrow> u8 list"

definition SHA1_SIZE :: nat where "SHA1_SIZE = 20"
definition SHA256_SIZE :: nat where "SHA256_SIZE = 32"

definition digest_size :: "MessageDigest \<Rightarrow> nat" where
  "digest_size d = (case d of Sha1 \<Rightarrow> SHA1_SIZE | Sha256 \<Rightarrow> SHA256_SIZE)"

definition cipher_block_size :: "Cipher \<Rightarrow> nat" where
  "cipher_block_size c = 16"

definition cipher_key_len :: "Cipher \<Rightarrow> nat" where
  "cipher_key_len c = (case c of Aes128Cbc \<Rightarrow> 16 | Aes256Cbc \<Rightarrow> 32)"

text \<open>A digest has the length of its algorithm. AES in CBC mode without padding keeps the length
  of a message of whole blocks, works with every key of the cipher's length and a 16 byte
  vector, and decrypting with the same key and vector undoes encrypting.\<close>

definition symmetric_laws :: "openssl \<Rightarrow> bool" where
  "symmetric_laws ssl \<longleftrightarrow>
     (\<forall>d key data. length (hmac_sign ssl d key data) = digest_size d) \<and>
     (\<forall>c key iv src. length key = cipher_key_len c \<longrightarrow> length iv = 16 \<longrightarrow> length src mod 16 = 0 \<longrightarrow>
        (\<exists>dst. aes_encrypt ssl c key iv src = Some dst \<and> length dst = length src \<and>
               aes_decrypt ssl c key iv dst = Some src))"

section \<open>HMAC signatures and key derivation\<close>

definition hmac_vec :: "openssl \<Rightarrow> MessageDigest \<Rightarrow> u8 list \<Rightarrow> u8 list \<Rightarrow> u8 list" where
  "hmac_vec ssl digest key data = hmac_sign ssl digest key data"

text \<open>The signature buffer is an argument and the result is what it holds afterwards:
  \<open>copy_from_slice\<close> panics when the lengths differ.\<close>

definition hmac :: "openssl \<Rightarrow> MessageDigest \<Rightarrow> u8 list \<Rightarrow> u8 list \<Rightarrow> u8 list \<Rightarrow> u8 list res" where
  "hmac ssl digest key data signature =
     (let h = hmac_vec ssl digest key data in
      if length h = length signature then Inr h else Inl Panic)"

definition hmac_sha1 :: "openssl \<Rightarrow> u8 list \<Rightarrow> u8 list \<Rightarrow> u8 list \<Rightarrow> u8 list res" where
  "hmac_sha1 ssl key data signature =
     (if length signature = SHA1_SIZE then hmac ssl Sha1 key data signature else Inl (Err BadInvalidArgument))"

definition hmac_sha256 :: "openssl \<Rightarrow> u8 list \<Rightarrow> u8 list \<Rightarrow> u8 list \<Rightarrow> u8 list res" where
  "hmac_sha256 ssl key data signature =
     (if length signature = SHA256_SIZE then hmac ssl Sha256 key data signature else Inl (Err BadInvalidArgument))"

definition verify_hmac_sha1 :: "openssl \<Rightarrow> u8 list \<Rightarrow> u8 list \<Rightarrow> u8 list \<Rightarrow> bool res" where
  "verify_hmac_sha1 ssl key data signature =
     (if length signature \<noteq> SHA1_SIZE then Inr False
      else case hmac_sha1 ssl key data (replicate SHA1_SIZE 0) of
             Inr tmp \<Rightarrow> Inr (signature = tmp)
           | Inl (Err _) \<Rightarrow> Inr False
           | Inl e \<Rightarrow> Inl e)"

definition verify_hmac_sha256 :: "openssl \<Rightarrow> u8 list \<Rightarrow> u8 list \<Rightarrow> u8 list \<Rightarrow> bool res" where
  "verify_hmac_sha256 ssl key data signature =
     (if length signature \<noteq> SHA256_SIZE then Inr False
      else case hmac_sha256 ssl key data (replicate SHA256_SIZE 0) of
             Inr tmp \<Rightarrow> Inr (signature = tmp)
           | Inl (Err _) \<Rightarrow> Inr False
           | Inl e \<Rightarrow> Inl e)"

text \<open>The loop of \<open>p_sha\<close>. Every round appends a digest, so \<open>Suc length\<close> rounds are enough when a
  digest is not empty.\<close>

fun p_sha_loop :: "nat \<Rightarrow> openssl \<Rightarrow> MessageDigest \<Rightarrow> u8 list \<Rightarrow> u8 list \<Rightarrow> nat \<Rightarrow> u8 list \<Rightarrow> u8 list \<Rightarrow> u8 list res" where
  "p_sha_loop 0 ssl digest secret seed len a_last result = Inl OutOfFuel"
| "p_sha_loop (Suc n) ssl digest secret seed len a_last result =
     (if length result < len then
        let a_next = hmac_vec ssl digest secret a_last;
            bytes = hmac_vec ssl digest secret (a_next @ seed)
        in p_sha_loop n ssl digest secret seed len a_next (result @ bytes)
      else Inr (take len result))"

definition p_sha :: "openssl \<Rightarrow> MessageDigest \<Rightarrow> u8 list \<Rightarrow> u8 list \<Rightarrow> nat \<Rightarrow> u8 list res" where
  "p_sha ssl digest secret seed len = p_sha_loop (Suc len) ssl digest secret seed len seed []"

section \<open>Security policies\<close>

datatype SecurityPolicy = SpUnknown | SpNone | Aes128Sha256RsaOaep | Basic256Sha256 | Aes256Sha256RsaPss
  | Basic128Rsa15 | Basic256

definition ascii :: "string \<Rightarrow> u8 list" where
  "ascii s = map (\<lambda>c. of_nat (of_char c)) s"

definition SECURITY_POLICY_NONE :: "u8 list" where "SECURITY_POLICY_NONE = ascii ''None''"
definition SECURITY_POLICY_NONE_URI :: "u8 list" where
  "SECURITY_POLICY_NONE_URI = ascii ''http://opcfoundation.org/UA/SecurityPolicy#None''"

definition to_uri :: "SecurityPolicy \<Rightarrow> u8 list res" where
  "to_uri p =
     (case p of
        SpNone \<Rightarrow> Inr SECURITY_POLICY_NONE_URI
      | Basic128Rsa15 \<Rightarrow> Inr (ascii ''http://opcfoundation.org/UA/SecurityPolicy#Basic128Rsa15'')
      | Basic256 \<Rightarrow> Inr (ascii ''http://opcfoundation.org/UA/SecurityPolicy#Basic256'')
      | Basic256Sha256 \<Rightarrow> Inr (ascii ''http://opcfoundation.org/UA/SecurityPolicy#Basic256Sha256'')
      | Aes128Sha256RsaOaep \<Rightarrow> Inr (ascii ''http://opcfoundation.org/UA/SecurityPolicy#Aes128_Sha256_RsaOaep'')
      | Aes256Sha256RsaPss \<Rightarrow> Inr (ascii ''http://opcfoundation.org/UA/SecurityPolicy#Aes256_Sha256_RsaPss'')
      | SpUnknown \<Rightarrow> Inl Panic)"

definition to_str :: "SecurityPolicy \<Rightarrow> u8 list res" where
  "to_str p =
     (case p of
        SpNone \<Rightarrow> Inr SECURITY_POLICY_NONE
      | Basic128Rsa15 \<Rightarrow> Inr (ascii ''Basic128Rsa15'')
      | Basic256 \<Rightarrow> Inr (ascii ''Basic256'')
      | Basic256Sha256 \<Rightarrow> Inr (ascii ''Basic256Sha256'')
      | Aes128Sha256RsaOaep \<Rightarrow> Inr (ascii ''Aes128-Sha256-RsaOaep'')
      | Aes256Sha256RsaPss \<Rightarrow> Inr (ascii ''Aes256-Sha256-RsaPss'')
      | SpUnknown \<Rightarrow> Inl Panic)"

definition from_uri :: "u8 list \<Rightarrow> SecurityPolicy" where
  "from_uri uri =
     (if uri = SECURITY_POLICY_NONE_URI then SpNone
      else if uri = ascii ''http://opcfoundation.org/UA/SecurityPolicy#Basic128Rsa15'' then Basic128Rsa15
      else if uri = ascii ''http://opcfoundation.org/UA/SecurityPolicy#Basic256'' then Basic256
      else if uri = ascii ''http://opcfoundation.org/UA/SecurityPolicy#Basic256Sha256'' then Basic256Sha256
      else if uri = ascii ''http://opcfoundation.org/UA/SecurityPolicy#Aes128_Sha256_RsaOaep'' then Aes128Sha256RsaOaep
      else if uri = ascii ''http://opcfoundation.org/UA/SecurityPolicy#Aes256_Sha256_RsaPss'' then Aes256Sha256RsaPss
      else SpUnknown)"

definition SecurityPolicy_from_str :: "u8 list \<Rightarrow> SecurityPolicy" where
  "SecurityPolicy_from_str s =
     (if s = SECURITY_POLICY_NONE \<or> s = SECURITY_POLICY_NONE_URI then SpNone
      else if s = ascii ''Basic128Rsa15''
              \<or> s = ascii ''http://opcfoundation.org/UA/SecurityPolicy#Basic128Rsa15'' then Basic128Rsa15
      else if s = ascii ''Basic256''
              \<or> s = ascii ''http://opcfoundation.org/UA/SecurityPolicy#Basic256'' then Basic256
      else if s = ascii ''Basic256Sha256''
              \<or> s = ascii ''http://opcfoundation.org/UA/SecurityPolicy#Basic256Sha256'' then Basic256Sha256
      else if s = ascii ''Aes128-Sha256-RsaOaep''
              \<or> s = ascii ''http://opcfoundation.org/UA/SecurityPolicy#Aes128_Sha256_RsaOaep'' then Aes128Sha256RsaOaep
      else if s = ascii ''Aes256-Sha256-RsaPss''
              \<or> s = ascii ''http://opcfoundation.org/UA/SecurityPolicy#Aes256_Sha256_RsaPss'' then Aes256Sha256RsaPss
      else SpUnknown)"

definition is_supported :: "SecurityPolicy \<Rightarrow> bool" where
  "is_supported p \<longleftrightarrow>
     p = SpNone \<or> p = Basic128Rsa15 \<or> p = Basic256 \<or> p = Basic256Sha256 \<or> p = Aes128Sha256RsaOaep
     \<or> p = Aes256Sha256RsaPss"

definition is_deprecated :: "SecurityPolicy \<Rightarrow> bool" where
  "is_deprecated p \<longleftrightarrow> p = Basic128Rsa15 \<or> p = Basic256"

definition plain_block_size :: "SecurityPolicy \<Rightarrow> nat res" where
  "plain_block_size p = (if p = SpNone \<or> p = SpUnknown then Inl Panic else Inr 16)"

definition symmetric_signature_size :: "SecurityPolicy \<Rightarrow> nat res" where
  "symmetric_signature_size p =
     (case p of
        SpNone \<Rightarrow> Inr 0
      | Basic128Rsa15 \<Rightarrow> Inr SHA1_SIZE
      | Basic256 \<Rightarrow> Inr SHA1_SIZE
      | Basic256Sha256 \<Rightarrow> Inr SHA256_SIZE
      | Aes128Sha256RsaOaep \<Rightarrow> Inr SHA256_SIZE
      | Aes256Sha256RsaPss \<Rightarrow> Inr SHA256_SIZE
      | SpUnknown \<Rightarrow> Inl Panic)"

definition derived_signature_key_size :: "SecurityPolicy \<Rightarrow> nat res" where
  "derived_signature_key_size p =
     mapR (\<lambda>bits. bits div 8)
       (case p of
          Basic128Rsa15 \<Rightarrow> Inr 128
        | Basic256 \<Rightarrow> Inr 192
        | Basic256Sha256 \<Rightarrow> Inr 256
        | Aes128Sha256RsaOaep \<Rightarrow> Inr 256
        | Aes256Sha256RsaPss \<Rightarrow> Inr 256
        | SpNone \<Rightarrow> Inl Panic
        | SpUnknown \<Rightarrow> Inl Panic)"

definition min_max_asymmetric_keylength :: "SecurityPolicy \<Rightarrow> (nat \<times> nat) res" where
  "min_max_asymmetric_keylength p =
     (case p of
        Basic128Rsa15 \<Rightarrow> Inr (1024, 2048)
      | Basic256 \<Rightarrow> Inr (1024, 2048)
      | Basic256Sha256 \<Rightarrow> Inr (2048, 4096)
      | Aes128Sha256RsaOaep \<Rightarrow> Inr (2048, 4096)
      | Aes256Sha256RsaPss \<Rightarrow> Inr (2048, 4096)
      | SpNone \<Rightarrow> Inl Panic
      | SpUnknown \<Rightarrow> Inl Panic)"

definition is_valid_keylength :: "SecurityPolicy \<Rightarrow> nat \<Rightarrow> bool res" where
  "is_valid_keylength p keylength =
     mapR (\<lambda>min_max. fst min_max \<le> keylength \<and> keylength \<le> snd min_max) (min_max_asymmetric_keylength p)"

definition secure_channel_nonce_length :: "SecurityPolicy \<Rightarrow> nat" where
  "secure_channel_nonce_length p = (if p = Basic128Rsa15 then 16 else 32)"

text \<open>The random bytes are an argument: \<open>random_bytes n\<close> is what the generator returns for a
  request of n bytes.\<close>

definition random_nonce :: "(nat \<Rightarrow> u8 list) \<Rightarrow> SecurityPolicy \<Rightarrow> ByteString" where
  "random_nonce random_bytes p =
     (if p = SpNone then ByteString_null
      else ByteString_from (random_bytes (secure_channel_nonce_length p)))"

definition prf_digest :: "SecurityPolicy \<Rightarrow> MessageDigest res" where
  "prf_digest p =
     (case p of
        Basic128Rsa15 \<Rightarrow> Inr Sha1
      | Basic256 \<Rightarrow> Inr Sha1
      | Basic256Sha256 \<Rightarrow> Inr Sha256
      | Aes128Sha256RsaOaep \<Rightarrow> Inr Sha256
      | Aes256Sha256RsaPss \<Rightarrow> Inr Sha256
      | SpNone \<Rightarrow> Inl Panic
      | SpUnknown \<Rightarrow> Inl Panic)"

definition SecurityPolicy_prf :: "openssl \<Rightarrow> SecurityPolicy \<Rightarrow> u8 list \<Rightarrow> u8 list \<Rightarrow> nat \<Rightarrow> nat \<Rightarrow> u8 list res" where
  "SecurityPolicy_prf ssl p secret seed len offset =
     bindR (prf_digest p) (\<lambda>message_digest.
     bindR (p_sha ssl message_digest secret seed (offset + len)) (\<lambda>result.
       if offset + len \<le> length result then Inr (take len (drop offset result)) else Inl Panic))"

section \<open>AES keys\<close>

record AesKey =
  aes_value :: "u8 list"
  aes_policy :: SecurityPolicy

definition AesKey_new :: "SecurityPolicy \<Rightarrow> u8 list \<Rightarrow> AesKey" where
  "AesKey_new p v = \<lparr> aes_value = v, aes_policy = p \<rparr>"

definition validate_aes_args :: "Cipher \<Rightarrow> u8 list \<Rightarrow> u8 list \<Rightarrow> u8 list \<Rightarrow> unit res" where
  "validate_aes_args c src iv dst =
     (if length dst < length src + cipher_block_size c then Inl (Err BadUnexpectedError)
      else if length iv \<noteq> 16 \<and> length iv \<noteq> 32 then Inl (Err BadUnexpectedError)
      else if length src mod 16 \<noteq> 0 then Inl Panic
      else Inr ())"

definition AesKey_cipher :: "AesKey \<Rightarrow> Cipher res" where
  "AesKey_cipher k =
     (case aes_policy k of
        Basic128Rsa15 \<Rightarrow> Inr Aes128Cbc
      | Aes128Sha256RsaOaep \<Rightarrow> Inr Aes128Cbc
      | Basic256 \<Rightarrow> Inr Aes256Cbc
      | Basic256Sha256 \<Rightarrow> Inr Aes256Cbc
      | Aes256Sha256RsaPss \<Rightarrow> Inr Aes256Cbc
      | SpNone \<Rightarrow> Inl Panic
      | SpUnknown \<Rightarrow> Inl Panic)"

text \<open>\<open>run\<close> is the OpenSSL crypter of the mode: None when creating, updating or finalising it
  fails. The result is the number of bytes and the destination buffer after the call.\<close>

definition do_cipher ::
  "(Cipher \<Rightarrow> u8 list \<Rightarrow> u8 list \<Rightarrow> u8 list \<Rightarrow> u8 list option) \<Rightarrow> AesKey \<Rightarrow> u8 list \<Rightarrow> u8 list \<Rightarrow> u8 list
    \<Rightarrow> (nat \<times> u8 list) res" where
  "do_cipher run k src iv dst =
     bindR (AesKey_cipher k) (\<lambda>cipher.
     bindR (validate_aes_args cipher src iv dst) (\<lambda>_.
       case run cipher (aes_value k) iv src of
         None \<Rightarrow> Inl (Err BadUnexpectedError)
       | Some out \<Rightarrow> Inr (length out, out @ drop (length out) dst)))"

definition symmetric_encrypt :: "openssl \<Rightarrow> AesKey \<Rightarrow> u8 list \<Rightarrow> u8 list \<Rightarrow> u8 list \<Rightarrow> (nat \<times> u8 list) res" where
  "symmetric_encrypt ssl k iv src dst = do_cipher (aes_encrypt ssl) k src iv dst"

definition symmetric_decrypt :: "openssl \<Rightarrow> AesKey \<Rightarrow> u8 list \<Rightarrow> u8 list \<Rightarrow> u8 list \<Rightarrow> (nat \<times> u8 list) res" where
  "symmetric_decrypt ssl k iv src dst = do_cipher (aes_decrypt ssl) k src iv dst"

definition symmetric_sign :: "openssl \<Rightarrow> SecurityPolicy \<Rightarrow> u8 list \<Rightarrow> u8 list \<Rightarrow> u8 list \<Rightarrow> u8 list res" where
  "symmetric_sign ssl p key data signature =
     (case p of
        Basic128Rsa15 \<Rightarrow> hmac_sha1 ssl key data signature
      | Basic256 \<Rightarrow> hmac_sha1 ssl key data signature
      | Basic256Sha256 \<Rightarrow> hmac_sha256 ssl key data signature
      | Aes128Sha256RsaOaep \<Rightarrow> hmac_sha256 ssl key data signature
      | Aes256Sha256RsaPss \<Rightarrow> hmac_sha256 ssl key data signature
      | SpNone \<Rightarrow> Inl Panic
      | SpUnknown \<Rightarrow> Inl Panic)"

definition symmetric_verify_signature :: "openssl \<Rightarrow> SecurityPolicy \<Rightarrow> u8 list \<Rightarrow> u8 list \<Rightarrow> u8 list \<Rightarrow> bool res" where
  "symmetric_verify_signature ssl p key data signature =
     bindR
       (case p of
          Basic128Rsa15 \<Rightarrow> verify_hmac_sha1 ssl key data signature
        | Basic256 \<Rightarrow> verify_hmac_sha1 ssl key data signature
        | Basic256Sha256 \<Rightarrow> verify_hmac_sha256 ssl key data signature
        | Aes128Sha256RsaOaep \<Rightarrow> verify_hmac_sha256 ssl key data signature
        | Aes256Sha256RsaPss \<Rightarrow> verify_hmac_sha256 ssl key data signature
        | SpNone \<Rightarrow> Inl Panic
        | SpUnknown \<Rightarrow> Inl Panic)
       (\<lambda>verified. if verified then Inr verified else Inl (Err BadSecurityChecksFailed))"

definition make_secure_channel_keys :: "openssl \<Rightarrow> SecurityPolicy \<Rightarrow> u8 list \<Rightarrow> u8 list
    \<Rightarrow> (u8 list \<times> AesKey \<times> u8 list) res" where
  "make_secure_channel_keys ssl p secret seed =
     bindR (derived_signature_key_size p) (\<lambda>signing_key_length.
     bindR (case p of
              Basic128Rsa15 \<Rightarrow> Inr (16, 16)
            | Aes128Sha256RsaOaep \<Rightarrow> Inr (16, 16)
            | Basic256 \<Rightarrow> Inr (32, 16)
            | Basic256Sha256 \<Rightarrow> Inr (32, 16)
            | Aes256Sha256RsaPss \<Rightarrow> Inr (32, 16)
            | SpNone \<Rightarrow> Inl Panic
            | SpUnknown \<Rightarrow> Inl Panic) (\<lambda>(encrypting_key_length, encrypting_block_size).
     bindR (SecurityPolicy_prf ssl p secret seed signing_key_length 0) (\<lambda>signing_key.
     bindR (SecurityPolicy_prf ssl p secret seed encrypting_key_length signing_key_length) (\<lambda>encrypting_key.
     bindR (SecurityPolicy_prf ssl p secret seed encrypting_block_size (signing_key_length + encrypting_key_length)) (\<lambda>iv.
       Inr (signing_key, AesKey_new p encrypting_key, iv))))))"

section \<open>Policies and their names\<close>

lemma ascii_inject [simp]: "ascii s = ascii t \<longleftrightarrow> s = t"
proof -
  have "inj (\<lambda>c. (of_nat (of_char c) :: u8))"
  proof (rule injI)
    fix c d :: char
    assume "(of_nat (of_char c) :: u8) = of_nat (of_char d)"
    then have "(of_char c :: nat) mod 2 ^ 8 = of_char d mod 2 ^ 8"
      by (simp add: word_of_nat_eq_iff take_bit_eq_mod)
    then show "c = d" by simp
  qed
  then show ?thesis by (simp add: ascii_def inj_map_eq_map)
qed

lemma ascii_length [simp]: "length (ascii s) = length s"
  by (simp add: ascii_def)

lemma from_uri_to_uri: "to_uri p = Inr uri \<Longrightarrow> from_uri uri = p"
  by (cases p) (auto simp: to_uri_def from_uri_def SECURITY_POLICY_NONE_URI_def)

lemma from_str_to_str: "to_str p = Inr s \<Longrightarrow> SecurityPolicy_from_str s = p"
  by (cases p) (auto simp: to_str_def SecurityPolicy_from_str_def SECURITY_POLICY_NONE_URI_def SECURITY_POLICY_NONE_def)

lemma from_str_to_uri: "to_uri p = Inr s \<Longrightarrow> SecurityPolicy_from_str s = p"
  by (cases p) (auto simp: to_uri_def SecurityPolicy_from_str_def SECURITY_POLICY_NONE_URI_def SECURITY_POLICY_NONE_def)

lemma supported_to_uri: "is_supported p \<longleftrightarrow> (\<exists>uri. to_uri p = Inr uri)"
  by (cases p) (simp_all add: is_supported_def to_uri_def)

section \<open>The key derivation\<close>

text \<open>The function P_SHA of the comment in \<open>hash.rs\<close>: \<open>A(0) = seed\<close>, \<open>A(n+1) = HMAC(secret, A(n))\<close>,
  and the stream is the concatenation of \<open>HMAC(secret, A(n) + seed)\<close> for n = 1, 2, ...\<close>

primrec p_sha_A :: "openssl \<Rightarrow> MessageDigest \<Rightarrow> u8 list \<Rightarrow> u8 list \<Rightarrow> nat \<Rightarrow> u8 list" where
  "p_sha_A ssl digest secret seed 0 = seed"
| "p_sha_A ssl digest secret seed (Suc n) = hmac_sign ssl digest secret (p_sha_A ssl digest secret seed n)"

definition p_sha_block :: "openssl \<Rightarrow> MessageDigest \<Rightarrow> u8 list \<Rightarrow> u8 list \<Rightarrow> nat \<Rightarrow> u8 list" where
  "p_sha_block ssl digest secret seed n = hmac_sign ssl digest secret (p_sha_A ssl digest secret seed (Suc n) @ seed)"

definition p_sha_stream :: "openssl \<Rightarrow> MessageDigest \<Rightarrow> u8 list \<Rightarrow> u8 list \<Rightarrow> nat \<Rightarrow> u8 list" where
  "p_sha_stream ssl digest secret seed k = concat (map (p_sha_block ssl digest secret seed) [0..<k])"

lemma p_sha_stream_Suc:
  "p_sha_stream ssl digest secret seed (Suc k) =
     p_sha_stream ssl digest secret seed k @ p_sha_block ssl digest secret seed k"
  by (simp add: p_sha_stream_def)

lemma digest_size_pos [simp]: "0 < digest_size d"
  by (cases d) (simp_all add: digest_size_def SHA1_SIZE_def SHA256_SIZE_def)

lemma hmac_length: "symmetric_laws ssl \<Longrightarrow> length (hmac_sign ssl d key data) = digest_size d"
  by (simp add: symmetric_laws_def)

lemma length_p_sha_stream:
  "symmetric_laws ssl \<Longrightarrow> length (p_sha_stream ssl d secret seed k) = k * digest_size d"
  by (induction k) (simp_all add: p_sha_stream_Suc p_sha_block_def hmac_length, simp add: p_sha_stream_def)

lemma p_sha_stream_prefix:
  assumes "j \<le> k"
  shows "prefix (p_sha_stream ssl d secret seed j) (p_sha_stream ssl d secret seed k)"
  using assms
proof (induction k rule: dec_induct)
  case (step k)
  then show ?case unfolding p_sha_stream_Suc by (simp add: prefix_prefix)
qed simp

lemma take_prefix_eq:
  assumes "prefix xs ys" "n \<le> length xs"
  shows "take n ys = take n xs"
  using assms by (auto simp: prefix_def)

lemma p_sha_loop_stream:
  assumes "symmetric_laws ssl" "len < k * digest_size d + n" "n \<noteq> 0"
  shows "p_sha_loop n ssl d secret seed len (p_sha_A ssl d secret seed k) (p_sha_stream ssl d secret seed k) =
           Inr (take len (p_sha_stream ssl d secret seed (k + n)))"
  using assms(2,3)
proof (induction n arbitrary: k)
  case (Suc n)
  let ?S = "p_sha_stream ssl d secret seed"
  show ?case
  proof (cases "length (?S k) < len")
    case True
    have "len < Suc k * digest_size d + n" using Suc.prems digest_size_pos [of d] by (simp del: digest_size_pos)
    moreover have "n \<noteq> 0" using True Suc.prems length_p_sha_stream [OF assms(1), of d secret seed k] by auto
    ultimately have "p_sha_loop n ssl d secret seed len (p_sha_A ssl d secret seed (Suc k)) (?S (Suc k)) =
        Inr (take len (?S (Suc k + n)))" by (rule Suc.IH)
    with True show ?thesis
      by (simp add: hmac_vec_def Let_def p_sha_stream_Suc [of _ _ _ _ k] p_sha_block_def)
  next
    case False
    with take_prefix_eq [OF p_sha_stream_prefix [of k "k + Suc n" ssl d secret seed], of len]
    show ?thesis by simp
  qed
qed simp

lemma p_sha_is_stream:
  assumes "symmetric_laws ssl" "len \<le> k * digest_size d"
  shows "p_sha ssl d secret seed len = Inr (take len (p_sha_stream ssl d secret seed k))"
proof -
  let ?S = "p_sha_stream ssl d secret seed"
  have "p_sha ssl d secret seed len = Inr (take len (?S (0 + Suc len)))"
    using p_sha_loop_stream [OF assms(1), of len 0 d "Suc len" secret seed]
    by (simp add: p_sha_def p_sha_stream_def [of _ _ _ _ 0])
  moreover have "take len (?S (Suc len)) = take len (?S k)"
  proof (cases "k \<le> Suc len")
    case True
    show ?thesis
      by (rule take_prefix_eq [OF p_sha_stream_prefix [OF True]]) (simp add: length_p_sha_stream assms)
  next
    case False
    have "len * 1 \<le> Suc len * digest_size d" using digest_size_pos [of d] by (intro mult_le_mono) linarith+
    then show ?thesis
      using False by (intro take_prefix_eq [OF p_sha_stream_prefix, symmetric]) (simp_all add: length_p_sha_stream assms(1))
  qed
  ultimately show ?thesis by simp
qed

section \<open>The keys of a channel\<close>

definition secured :: "SecurityPolicy \<Rightarrow> bool" where
  "secured p \<longleftrightarrow> p \<noteq> SpNone \<and> p \<noteq> SpUnknown"

definition policy_digest :: "SecurityPolicy \<Rightarrow> MessageDigest" where
  "policy_digest p = (if is_deprecated p then Sha1 else Sha256)"

definition policy_signing_key_len :: "SecurityPolicy \<Rightarrow> nat" where
  "policy_signing_key_len p = (if p = Basic128Rsa15 then 16 else if p = Basic256 then 24 else 32)"

definition policy_cipher :: "SecurityPolicy \<Rightarrow> Cipher" where
  "policy_cipher p = (if p = Basic128Rsa15 \<or> p = Aes128Sha256RsaOaep then Aes128Cbc else Aes256Cbc)"

lemma secured_policy:
  assumes "secured p"
  shows "prf_digest p = Inr (policy_digest p)"
    and "derived_signature_key_size p = Inr (policy_signing_key_len p)"
    and "symmetric_signature_size p = Inr (digest_size (policy_digest p))"
    and "plain_block_size p = Inr 16"
    and "aes_policy k = p \<Longrightarrow> AesKey_cipher k = Inr (policy_cipher p)"
  using assms
  by (cases p; simp add: secured_def prf_digest_def policy_digest_def is_deprecated_def derived_signature_key_size_def
      policy_signing_key_len_def symmetric_signature_size_def digest_size_def plain_block_size_def AesKey_cipher_def
      policy_cipher_def)+

lemma prf_slice:
  assumes "symmetric_laws ssl" "secured p" "offset + len \<le> k * digest_size (policy_digest p)"
  shows "SecurityPolicy_prf ssl p secret seed len offset =
           Inr (take len (drop offset (p_sha_stream ssl (policy_digest p) secret seed k)))"
  using assms p_sha_is_stream [OF assms(1,3), of secret seed]
  by (simp add: SecurityPolicy_prf_def secured_policy length_p_sha_stream min_def take_drop add.commute)

lemma make_secure_channel_keys_stream:
  assumes "symmetric_laws ssl" "secured p"
  shows "make_secure_channel_keys ssl p secret seed =
       Inr (take (policy_signing_key_len p) (p_sha_stream ssl (policy_digest p) secret seed 5),
            \<lparr> aes_value = take (cipher_key_len (policy_cipher p))
                (drop (policy_signing_key_len p) (p_sha_stream ssl (policy_digest p) secret seed 5)), aes_policy = p \<rparr>,
            take 16 (drop (policy_signing_key_len p + cipher_key_len (policy_cipher p))
                (p_sha_stream ssl (policy_digest p) secret seed 5)))"
  using assms(2)
  by (cases p)
    (simp_all add: secured_def make_secure_channel_keys_def AesKey_new_def prf_slice [OF assms(1), where k = 5]
      secured_policy policy_signing_key_len_def policy_cipher_def cipher_key_len_def policy_digest_def
      is_deprecated_def digest_size_def SHA1_SIZE_def SHA256_SIZE_def)

text \<open>C32: The keys of a secure channel partition one key stream: for every secured policy the
  signing key, the encrypting key and the initialization vector exist, have the lengths of
  the policy, and are consecutive pieces of the stream P_SHA of the comment in hash.rs,
  HMAC(secret, A(1) + seed) + HMAC(secret, A(2) + seed) + ..., of the policy's digest.\<close>

theorem make_secure_channel_keys_partition:
  assumes "symmetric_laws ssl" "secured p"
  shows "\<exists>signing_key key iv. make_secure_channel_keys ssl p secret seed = Inr (signing_key, key, iv) \<and>
           length signing_key = policy_signing_key_len p \<and>
           length (aes_value key) = cipher_key_len (policy_cipher p) \<and> aes_policy key = p \<and> length iv = 16 \<and>
           prefix (signing_key @ aes_value key @ iv) (p_sha_stream ssl (policy_digest p) secret seed 5)"
proof -
  let ?S = "p_sha_stream ssl (policy_digest p) secret seed 5"
  let ?a = "policy_signing_key_len p" and ?b = "cipher_key_len (policy_cipher p)"
  have len: "?a + ?b + 16 \<le> length ?S"
    using assms by (cases p) (simp_all add: length_p_sha_stream secured_def policy_signing_key_len_def policy_cipher_def
        cipher_key_len_def policy_digest_def is_deprecated_def digest_size_def SHA1_SIZE_def SHA256_SIZE_def)
  have "take ?a ?S @ take ?b (drop ?a ?S) @ take 16 (drop (?a + ?b) ?S) = take (?a + ?b + 16) ?S"
    by (simp only: take_add append_assoc drop_drop add.commute)
  then have "prefix (take ?a ?S @ take ?b (drop ?a ?S) @ take 16 (drop (?a + ?b) ?S)) ?S"
    by (simp add: take_is_prefix)
  with len make_secure_channel_keys_stream [OF assms, of secret seed] show ?thesis by simp
qed

text \<open>A primitive with the laws: a digest of the right length that depends on its input, and a
  cipher that flips bits.\<close>

definition xor_ssl :: openssl where
  "xor_ssl = \<lparr>
     hmac_sign = (\<lambda>d key data. replicate (digest_size d) (foldr (\<lambda>x y. 3 * y + x) (key @ data) 1)),
     aes_encrypt = (\<lambda>c key iv src. Some (map (\<lambda>x. NOT x) src)),
     aes_decrypt = (\<lambda>c key iv src. Some (map (\<lambda>x. NOT x) src)),
     rsa_sign = (\<lambda>d pad key data. Some (replicate 256 (foldr (\<lambda>x y. 3 * y + x) data 1))),
     rsa_verify = (\<lambda>d pad key data sig. Some (sig = replicate 256 (foldr (\<lambda>x y. 3 * y + x) data 1))),
     rsa_public_encrypt = (\<lambda>pad key n src. Some (of_nat (length src) # src @ replicate (255 - length src) 0)),
     rsa_private_decrypt = (\<lambda>pad key src. Some (take (unat (hd src)) (tl src))),
     public_key_bits = (\<lambda>_. 2048), private_key_bits = (\<lambda>_. 2048),
     x509_from_der = (\<lambda>_. True), x509_public_key = Some,
     sha1_hash = (\<lambda>data. replicate 20 (foldr (\<lambda>x y. 3 * y + x) data 1)) \<rparr>"

lemma xor_ssl_laws: "symmetric_laws xor_ssl"
proof -
  have "map (NOT \<circ> NOT) s = s" for s :: "u8 list" by (induction s) simp_all
  then show ?thesis by (simp add: symmetric_laws_def xor_ssl_def)
qed

theorem make_secure_channel_keys_partition_witness:
  "\<exists>signing_key key iv. make_secure_channel_keys xor_ssl Basic256 [1, 2, 3] [4, 5] = Inr (signing_key, key, iv) \<and>
     length signing_key = policy_signing_key_len Basic256 \<and>
     length (aes_value key) = cipher_key_len (policy_cipher Basic256) \<and> aes_policy key = Basic256 \<and> length iv = 16 \<and>
     prefix (signing_key @ aes_value key @ iv) (p_sha_stream xor_ssl (policy_digest Basic256) [1, 2, 3] [4, 5] 5)"
  by (rule make_secure_channel_keys_partition) (simp_all add: xor_ssl_laws secured_def)

text \<open>Every supported policy has a name and a uri, each is recognised as that policy by the
  function that reads it (from_uri for the uri, from_str for both), and only the unknown
  policy has neither, for which asking panics.\<close>

theorem SecurityPolicy_names_round_trip:
  "if is_supported p
   then \<exists>uri name. to_uri p = Inr uri \<and> from_uri uri = p \<and> SecurityPolicy_from_str uri = p \<and>
                   to_str p = Inr name \<and> SecurityPolicy_from_str name = p
   else p = SpUnknown \<and> to_uri p = Inl Panic \<and> to_str p = Inl Panic"
proof (cases "is_supported p")
  case True
  then obtain uri where uri: "to_uri p = Inr uri" by (auto simp: supported_to_uri)
  obtain name where name: "to_str p = Inr name"
    using True by (cases p) (simp_all add: is_supported_def to_str_def)
  from True uri name show ?thesis
    by (auto simp: from_uri_to_uri from_str_to_uri from_str_to_str)
qed (cases p; simp add: is_supported_def to_uri_def to_str_def)

section \<open>Signing, verifying, encrypting and decrypting\<close>

lemma symmetric_sign_hmac:
  assumes "symmetric_laws ssl" "secured p" "length signature = digest_size (policy_digest p)"
  shows "symmetric_sign ssl p key data signature = Inr (hmac_sign ssl (policy_digest p) key data)"
  using assms
  by (cases p) (auto simp: secured_def symmetric_sign_def policy_digest_def is_deprecated_def hmac_sha1_def
      hmac_sha256_def hmac_def hmac_vec_def hmac_length digest_size_def Let_def)

lemma symmetric_verify_hmac:
  assumes "symmetric_laws ssl" "secured p"
  shows "symmetric_verify_signature ssl p key data signature =
           (if signature = hmac_sign ssl (policy_digest p) key data then Inr True
            else Inl (Err BadSecurityChecksFailed))"
proof -
  have "signature \<noteq> hmac_sign ssl d key data" if "length signature \<noteq> digest_size d" for d
    using that hmac_length [OF assms(1)] by auto
  from this [of Sha1] this [of Sha256] show ?thesis
    using assms
    by (cases p) (auto simp: secured_def symmetric_verify_signature_def policy_digest_def is_deprecated_def
        verify_hmac_sha1_def verify_hmac_sha256_def hmac_sha1_def hmac_sha256_def hmac_def hmac_vec_def hmac_length
        digest_size_def Let_def)
qed

lemma symmetric_laws_cipher:
  assumes "symmetric_laws ssl" "length key = cipher_key_len c" "length iv = 16" "length src mod 16 = 0"
  shows "\<exists>dst. aes_encrypt ssl c key iv src = Some dst \<and> length dst = length src \<and>
           aes_decrypt ssl c key iv dst = Some src"
  using assms unfolding symmetric_laws_def by simp

lemma symmetric_encrypt_decrypt:
  assumes "symmetric_laws ssl" "secured (aes_policy k)"
    "length (aes_value k) = cipher_key_len (policy_cipher (aes_policy k))"
    "length iv = 16" "length src mod 16 = 0" "length src + 16 \<le> length dst"
  obtains out where "symmetric_encrypt ssl k iv src dst = Inr (length src, out @ drop (length src) dst)"
    "length out = length src"
    "\<And>dst'. length src + 16 \<le> length dst' \<Longrightarrow>
       symmetric_decrypt ssl k iv out dst' = Inr (length src, src @ drop (length src) dst')"
proof -
  let ?c = "policy_cipher (aes_policy k)"
  obtain out where out: "aes_encrypt ssl ?c (aes_value k) iv src = Some out" "length out = length src"
    "aes_decrypt ssl ?c (aes_value k) iv out = Some src"
    using symmetric_laws_cipher [OF assms(1,3,4,5)] by blast
  have c: "AesKey_cipher k = Inr ?c" using assms(2) by (simp add: secured_policy(5))
  show thesis
    by (rule that [of out])
      (use assms out c in \<open>simp_all add: symmetric_encrypt_def symmetric_decrypt_def do_cipher_def
        validate_aes_args_def cipher_block_size_def\<close>)
qed

end
