(* ===== verification/Opc_Rsa.thy ===== *)
theory Opc_Rsa
  imports Opc_Security_Policy
begin

text \<open>
  The asymmetric cryptography of \<open>src/lib/src/crypto\<close>: key sizes, signing and the block-wise RSA
  encryption of \<open>pkey.rs\<close>, certificates and thumbprints (\<open>x509.rs\<close>, \<open>thumbprint.rs\<close>) and the
  asymmetric operations of a policy (\<open>security_policy.rs\<close>), over the primitives of the record
  \<open>openssl\<close>. A \<open>PKeyError\<close> is the value None inside a result.
\<close>

section \<open>Key sizes\<close>

definition PublicKey_size :: "openssl \<Rightarrow> u8 list \<Rightarrow> nat" where
  "PublicKey_size ssl key = public_key_bits ssl key div 8"

definition PrivateKey_size :: "openssl \<Rightarrow> u8 list \<Rightarrow> nat" where
  "PrivateKey_size ssl key = private_key_bits ssl key div 8"

definition checked_sub :: "nat \<Rightarrow> nat \<Rightarrow> nat res" where
  "checked_sub m n = (if n \<le> m then Inr (m - n) else Inl Panic)"

definition plain_text_block_size :: "nat \<Rightarrow> RsaPadding \<Rightarrow> nat res" where
  "plain_text_block_size key_size padding =
     (case padding of
        Pkcs1 \<Rightarrow> checked_sub key_size 11
      | OaepSha1 \<Rightarrow> checked_sub key_size 42
      | OaepSha256 \<Rightarrow> checked_sub key_size 66
      | Pkcs1Pss \<Rightarrow> Inl Panic)"

definition cipher_text_block_size :: "nat \<Rightarrow> nat" where
  "cipher_text_block_size key_size = key_size"

definition calculate_cipher_text_size :: "nat \<Rightarrow> nat \<Rightarrow> RsaPadding \<Rightarrow> nat res" where
  "calculate_cipher_text_size key_size data_size padding =
     bindR (plain_text_block_size key_size padding) (\<lambda>block_size.
       if block_size = 0 then Inl Panic
       else
         let block_count = (if data_size mod block_size = 0 then data_size div block_size
                            else data_size div block_size + 1)
         in Inr (block_count * cipher_text_block_size key_size))"

section \<open>Signing and verifying\<close>

text \<open>The results are the size of the signature and the signature buffer afterwards;
  \<open>copy_from_slice\<close> panics when the lengths differ.\<close>

definition PrivateKey_sign ::
  "openssl \<Rightarrow> u8 list \<Rightarrow> MessageDigest \<Rightarrow> u8 list \<Rightarrow> u8 list \<Rightarrow> RsaPadding \<Rightarrow> (nat \<times> u8 list) res" where
  "PrivateKey_sign ssl key digest data signature padding =
     (case rsa_sign ssl digest padding key data of
        None \<Rightarrow> Inl (Err BadUnexpectedError)
      | Some r \<Rightarrow> if length r = length signature then Inr (length r, r) else Inl Panic)"

definition PublicKey_verify ::
  "openssl \<Rightarrow> u8 list \<Rightarrow> MessageDigest \<Rightarrow> u8 list \<Rightarrow> u8 list \<Rightarrow> RsaPadding \<Rightarrow> bool res" where
  "PublicKey_verify ssl key digest data signature padding =
     (case rsa_verify ssl digest padding key data signature of
        None \<Rightarrow> Inl (Err BadUnexpectedError)
      | Some r \<Rightarrow> Inr r)"

section \<open>Block-wise encryption\<close>

text \<open>The loop of \<open>public_encrypt\<close>: \<open>src\<close> is what is left of the source, \<open>dst\<close> what has been
  written, \<open>dst_len\<close> the size of the destination. Each round takes at least one byte when the
  block size is positive, so the length of the source bounds the rounds.\<close>

fun public_encrypt_loop ::
  "nat \<Rightarrow> openssl \<Rightarrow> RsaPadding \<Rightarrow> u8 list \<Rightarrow> nat \<Rightarrow> nat \<Rightarrow> nat \<Rightarrow> nat \<Rightarrow> u8 list \<Rightarrow> u8 list \<Rightarrow> u8 list option res" where
  "public_encrypt_loop 0 ssl padding key plain_size cipher_size src_len dst_len src dst = Inl OutOfFuel"
| "public_encrypt_loop (Suc n) ssl padding key plain_size cipher_size src_len dst_len src dst =
     (if src = [] then Inr (Some dst)
      else
        let bytes_to_encrypt = (if src_len < plain_size then src_len
                                else if length src < plain_size then length src
                                else plain_size)
        in if length src < bytes_to_encrypt \<or> dst_len < length dst + cipher_size then Inl Panic
           else case rsa_public_encrypt ssl padding key (length dst) (take bytes_to_encrypt src) of
                  None \<Rightarrow> Inr None
                | Some block \<Rightarrow>
                    public_encrypt_loop n ssl padding key plain_size cipher_size src_len dst_len
                      (drop bytes_to_encrypt src) (dst @ block))"

definition public_encrypt ::
  "openssl \<Rightarrow> u8 list \<Rightarrow> u8 list \<Rightarrow> nat \<Rightarrow> RsaPadding \<Rightarrow> u8 list option res" where
  "public_encrypt ssl key src dst_len padding =
     bindR (plain_text_block_size (PublicKey_size ssl key) padding) (\<lambda>plain_size.
       public_encrypt_loop (Suc (length src)) ssl padding key plain_size
         (cipher_text_block_size (PublicKey_size ssl key)) (length src) dst_len src [])"

fun private_decrypt_loop ::
  "nat \<Rightarrow> openssl \<Rightarrow> RsaPadding \<Rightarrow> u8 list \<Rightarrow> nat \<Rightarrow> nat \<Rightarrow> u8 list \<Rightarrow> u8 list \<Rightarrow> u8 list option res" where
  "private_decrypt_loop 0 ssl padding key cipher_size dst_len src dst = Inl OutOfFuel"
| "private_decrypt_loop (Suc n) ssl padding key cipher_size dst_len src dst =
     (if src = [] then Inr (Some dst)
      else if length src < cipher_size \<or> dst_len < length dst + cipher_size then Inl Panic
      else case rsa_private_decrypt ssl padding key (take cipher_size src) of
             None \<Rightarrow> Inr None
           | Some block \<Rightarrow>
               private_decrypt_loop n ssl padding key cipher_size dst_len (drop cipher_size src) (dst @ block))"

definition private_decrypt ::
  "openssl \<Rightarrow> u8 list \<Rightarrow> u8 list \<Rightarrow> nat \<Rightarrow> RsaPadding \<Rightarrow> u8 list option res" where
  "private_decrypt ssl key src dst_len padding =
     private_decrypt_loop (Suc (length src)) ssl padding key
       (cipher_text_block_size (PrivateKey_size ssl key)) dst_len src []"

section \<open>The asymmetric operations of a policy\<close>

definition asymmetric_encryption_padding :: "SecurityPolicy \<Rightarrow> RsaPadding res" where
  "asymmetric_encryption_padding p =
     (case p of
        Basic128Rsa15 \<Rightarrow> Inr Pkcs1
      | Basic256 \<Rightarrow> Inr OaepSha1
      | Basic256Sha256 \<Rightarrow> Inr OaepSha1
      | Aes128Sha256RsaOaep \<Rightarrow> Inr OaepSha1
      | Aes256Sha256RsaPss \<Rightarrow> Inr OaepSha256
      | SpNone \<Rightarrow> Inl Panic
      | SpUnknown \<Rightarrow> Inl Panic)"

definition asymmetric_sign ::
  "openssl \<Rightarrow> SecurityPolicy \<Rightarrow> u8 list \<Rightarrow> u8 list \<Rightarrow> u8 list \<Rightarrow> (nat \<times> u8 list) res" where
  "asymmetric_sign ssl p signing_key data signature =
     (case p of
        Basic128Rsa15 \<Rightarrow> PrivateKey_sign ssl signing_key Sha1 data signature Pkcs1
      | Basic256 \<Rightarrow> PrivateKey_sign ssl signing_key Sha1 data signature Pkcs1
      | Basic256Sha256 \<Rightarrow> PrivateKey_sign ssl signing_key Sha256 data signature Pkcs1
      | Aes128Sha256RsaOaep \<Rightarrow> PrivateKey_sign ssl signing_key Sha256 data signature Pkcs1
      | Aes256Sha256RsaPss \<Rightarrow> PrivateKey_sign ssl signing_key Sha256 data signature Pkcs1Pss
      | SpNone \<Rightarrow> Inl Panic
      | SpUnknown \<Rightarrow> Inl Panic)"

definition asymmetric_verify_signature ::
  "openssl \<Rightarrow> SecurityPolicy \<Rightarrow> u8 list \<Rightarrow> u8 list \<Rightarrow> u8 list \<Rightarrow> u8 list option \<Rightarrow> unit res" where
  "asymmetric_verify_signature ssl p verification_key data signature their_private_key =
     bindR
       (case p of
          Basic128Rsa15 \<Rightarrow> PublicKey_verify ssl verification_key Sha1 data signature Pkcs1
        | Basic256 \<Rightarrow> PublicKey_verify ssl verification_key Sha1 data signature Pkcs1
        | Basic256Sha256 \<Rightarrow> PublicKey_verify ssl verification_key Sha256 data signature Pkcs1
        | Aes128Sha256RsaOaep \<Rightarrow> PublicKey_verify ssl verification_key Sha256 data signature Pkcs1
        | Aes256Sha256RsaPss \<Rightarrow> PublicKey_verify ssl verification_key Sha256 data signature Pkcs1Pss
        | SpNone \<Rightarrow> Inl Panic
        | SpUnknown \<Rightarrow> Inl Panic)
       (\<lambda>result.
          if result then Inr ()
          else
            bindR (case their_private_key of
                     None \<Rightarrow> Inr ()
                   | Some key \<Rightarrow>
                       mapR (\<lambda>_. ()) (asymmetric_sign ssl p key data (replicate (PrivateKey_size ssl key) 0)))
              (\<lambda>_. Inl (Err BadSecurityChecksFailed)))"

text \<open>Encrypting and decrypting return the bytes written to the start of the destination, whose
  size is an argument.\<close>

definition asymmetric_encrypt :: "openssl \<Rightarrow> SecurityPolicy \<Rightarrow> u8 list \<Rightarrow> u8 list \<Rightarrow> nat \<Rightarrow> u8 list res" where
  "asymmetric_encrypt ssl p encryption_key src dst_len =
     bindR (asymmetric_encryption_padding p) (\<lambda>padding.
     bindR (public_encrypt ssl encryption_key src dst_len padding) (\<lambda>r.
       case r of Some out \<Rightarrow> Inr out | None \<Rightarrow> Inl (Err BadUnexpectedError)))"

definition asymmetric_decrypt :: "openssl \<Rightarrow> SecurityPolicy \<Rightarrow> u8 list \<Rightarrow> u8 list \<Rightarrow> nat \<Rightarrow> u8 list res" where
  "asymmetric_decrypt ssl p decryption_key src dst_len =
     bindR (asymmetric_encryption_padding p) (\<lambda>padding.
     bindR (private_decrypt ssl decryption_key src dst_len padding) (\<lambda>r.
       case r of Some out \<Rightarrow> Inr out | None \<Rightarrow> Inl (Err BadSecurityChecksFailed)))"

section \<open>Certificates\<close>

record X509 =
  x509_der :: "u8 list"

definition THUMBPRINT_SIZE :: nat where "THUMBPRINT_SIZE = 20"

definition Thumbprint_new :: "u8 list \<Rightarrow> u8 list res" where
  "Thumbprint_new digest = (if length digest \<noteq> THUMBPRINT_SIZE then Inl Panic else Inr digest)"

definition X509_from_byte_string :: "openssl \<Rightarrow> ByteString \<Rightarrow> X509 res" where
  "X509_from_byte_string ssl data =
     (case bs_value data of
        None \<Rightarrow> Inl (Err BadCertificateInvalid)
      | Some der \<Rightarrow> if x509_from_der ssl der then Inr \<lparr> x509_der = der \<rparr> else Inl (Err BadCertificateInvalid))"

definition X509_as_byte_string :: "X509 \<Rightarrow> ByteString" where
  "X509_as_byte_string cert = ByteString_from (x509_der cert)"

definition X509_public_key :: "openssl \<Rightarrow> X509 \<Rightarrow> u8 list res" where
  "X509_public_key ssl cert =
     (case x509_public_key ssl (x509_der cert) of
        None \<Rightarrow> Inl (Err BadCertificateInvalid)
      | Some key \<Rightarrow> Inr key)"

definition X509_thumbprint :: "openssl \<Rightarrow> X509 \<Rightarrow> u8 list res" where
  "X509_thumbprint ssl cert = Thumbprint_new (sha1_hash ssl (x509_der cert))"

section \<open>Decrypting undoes encrypting\<close>

text \<open>What the code relies on of RSA: a public and a private key of one pair have the same
  size, every block up to the plain text size of the padding encrypts to a block of the key
  size, and decrypting that block gives the plain text back.\<close>

definition rsa_pair :: "openssl \<Rightarrow> RsaPadding \<Rightarrow> u8 list \<Rightarrow> u8 list \<Rightarrow> nat \<Rightarrow> bool" where
  "rsa_pair ssl padding pub priv plain_size \<longleftrightarrow>
     plain_text_block_size (PublicKey_size ssl pub) padding = Inr plain_size \<and> 0 < plain_size \<and>
     PrivateKey_size ssl priv = PublicKey_size ssl pub \<and>
     (\<forall>n block. length block \<le> plain_size \<longrightarrow>
        (\<exists>c. rsa_public_encrypt ssl padding pub n block = Some c \<and> length c = PublicKey_size ssl pub \<and>
             rsa_private_decrypt ssl padding priv c = Some block))"

definition block_count :: "nat \<Rightarrow> nat \<Rightarrow> nat" where
  "block_count p n = (if n mod p = 0 then n div p else n div p + 1)"

lemma block_count_0 [simp]: "block_count p 0 = 0"
  by (simp add: block_count_def)

lemma block_count_step:
  assumes "0 < p" "0 < n"
  shows "block_count p n = Suc (block_count p (n - min n p))"
proof (cases "n \<le> p")
  case True
  then show ?thesis using assms by (cases "n = p") (simp_all add: block_count_def min_def)
next
  case False
  then have "n div p = Suc ((n - p) div p)" "n mod p = (n - p) mod p"
    using assms by (simp_all add: le_div_geq le_mod_geq)
  then show ?thesis using False by (simp add: block_count_def min_def)
qed

lemma plain_text_block_size_le: "plain_text_block_size k padding = Inr p \<Longrightarrow> p \<le> k"
  by (cases padding) (auto simp: plain_text_block_size_def checked_sub_def split: if_splits)

lemma rsa_pairE:
  assumes "rsa_pair ssl padding pub priv p" "length block \<le> p"
  obtains c where "rsa_public_encrypt ssl padding pub n block = Some c" "length c = PublicKey_size ssl pub"
    "rsa_private_decrypt ssl padding priv c = Some block"
  using assms unfolding rsa_pair_def by blast

lemma public_encrypt_loop_decrypts:
  assumes pair: "rsa_pair ssl padding pub priv p" and k: "k = PublicKey_size ssl pub"
    and n: "length src < n" and fits: "length dst + block_count p (length src) * k \<le> dst_len"
    and tot: "length src \<le> len" "p \<le> len \<or> length src = len \<or> src = []"
  shows "\<exists>c. public_encrypt_loop n ssl padding pub p k len dst_len src dst = Inr (Some (dst @ c)) \<and>
             length c = block_count p (length src) * k \<and>
             (\<forall>m out out_len. length c < m \<longrightarrow> length out + length c \<le> out_len \<longrightarrow>
                private_decrypt_loop m ssl padding priv k out_len c out = Inr (Some (out @ src)))"
  using n fits tot
proof (induction n arbitrary: src dst)
  case (Suc n)
  have p: "0 < p" "p \<le> k" using pair k plain_text_block_size_le by (auto simp: rsa_pair_def)
  show ?case
  proof (cases "src = []")
    case True
    then show ?thesis by (intro exI [of _ "[]"]) (auto elim!: less_natE)
  next
    case False
    define b where "b = min (length src) p"
    have b: "(if len < p then len else if length src < p then length src else p) = b"
      "0 < b" "b \<le> length src" "b \<le> p" using False p Suc.prems by (auto simp: b_def)
    have count: "block_count p (length src) = Suc (block_count p (length src - b))"
      using block_count_step [of p "length src"] p False by (simp add: b_def)
    obtain c where c: "rsa_public_encrypt ssl padding pub (length dst) (take b src) = Some c" "length c = k"
      "rsa_private_decrypt ssl padding priv c = Some (take b src)"
      using rsa_pairE [OF pair, of "take b src" "length dst"] k b(3,4) by auto
    have "\<exists>c'. public_encrypt_loop n ssl padding pub p k len dst_len (drop b src) (dst @ c) = Inr (Some ((dst @ c) @ c')) \<and>
             length c' = block_count p (length (drop b src)) * k \<and>
             (\<forall>m out out_len. length c' < m \<longrightarrow> length out + length c' \<le> out_len \<longrightarrow>
                private_decrypt_loop m ssl padding priv k out_len c' out = Inr (Some (out @ drop b src)))"
      by (rule Suc.IH) (use Suc.prems count c(2) b p in \<open>auto simp: b_def min_def\<close>)
    then obtain c' where c': "public_encrypt_loop n ssl padding pub p k len dst_len (drop b src) (dst @ c)
          = Inr (Some (dst @ c @ c'))"
      "length c' = block_count p (length (drop b src)) * k"
      "\<And>m out out_len. length c' < m \<Longrightarrow> length out + length c' \<le> out_len \<Longrightarrow>
          private_decrypt_loop m ssl padding priv k out_len c' out = Inr (Some (out @ drop b src))"
      by auto
    have dec: "private_decrypt_loop m ssl padding priv k out_len (c @ c') out = Inr (Some (out @ src))"
      if room: "length (c @ c') < m" "length out + length (c @ c') \<le> out_len" for m out out_len
    proof -
      obtain m' where m: "m = Suc m'" using room by (cases m) auto
      have "c \<noteq> []" using c(2) p by auto
      moreover have "private_decrypt_loop m' ssl padding priv k out_len c' (out @ take b src) =
          Inr (Some ((out @ take b src) @ drop b src))"
        by (rule c'(3)) (use room c(2) m b p in auto)
      ultimately show ?thesis using room c m by simp
    qed
    have "public_encrypt_loop (Suc n) ssl padding pub p k len dst_len src dst = Inr (Some (dst @ c @ c'))"
      using False Suc.prems(2) count c(1) c'(1) b by (simp add: Let_def)
    moreover have "length (c @ c') = block_count p (length src) * k" using c c' count b by simp
    ultimately show ?thesis using dec by (intro exI [of _ "c @ c'"]) blast
  qed
qed simp

text \<open>C33: RSA over many blocks: encrypting any message for a key pair into a destination that has
  room for it produces exactly the number of bytes that calculate_cipher_text_size announces,
  and decrypting those bytes with the private key gives the message back.\<close>

theorem asymmetric_encrypt_decrypt:
  assumes "asymmetric_encryption_padding policy = Inr padding" "rsa_pair ssl padding pub priv plain_size"
    and "calculate_cipher_text_size (PublicKey_size ssl pub) (length src) padding = Inr cipher_size"
    and "cipher_size \<le> dst_len"
  shows "\<exists>c. asymmetric_encrypt ssl policy pub src dst_len = Inr c \<and> length c = cipher_size \<and>
             asymmetric_decrypt ssl policy priv c cipher_size = Inr src"
proof -
  let ?k = "PublicKey_size ssl pub"
  have p: "plain_text_block_size ?k padding = Inr plain_size" "0 < plain_size" "PrivateKey_size ssl priv = ?k"
    using assms(2) by (auto simp: rsa_pair_def)
  have size: "cipher_size = block_count plain_size (length src) * ?k"
    using assms(3) p by (simp add: calculate_cipher_text_size_def block_count_def cipher_text_block_size_def Let_def)
  obtain c where "public_encrypt_loop (Suc (length src)) ssl padding pub plain_size ?k (length src) dst_len src [] =
      Inr (Some c)" "length c = cipher_size"
    "private_decrypt_loop (Suc (length c)) ssl padding priv ?k cipher_size c [] = Inr (Some src)"
    using public_encrypt_loop_decrypts [OF assms(2) refl, of src "Suc (length src)" "[]" dst_len "length src"]
      assms(4) size by auto
  with assms(1) p show ?thesis
    by (simp add: asymmetric_encrypt_def asymmetric_decrypt_def public_encrypt_def private_decrypt_def
        cipher_text_block_size_def del: public_encrypt_loop.simps private_decrypt_loop.simps)
qed

lemma xor_ssl_pair:
  "padding \<noteq> Pkcs1Pss \<Longrightarrow>
   \<exists>p. rsa_pair xor_ssl padding pub priv p"
  by (cases padding)
    (auto simp: rsa_pair_def xor_ssl_def plain_text_block_size_def checked_sub_def PublicKey_size_def PrivateKey_size_def
      unat_of_nat)

theorem asymmetric_encrypt_decrypt_witness:
  "\<exists>c. asymmetric_encrypt xor_ssl Basic256Sha256 [1] (replicate 300 7) 600 = Inr c \<and> length c = 512 \<and>
       asymmetric_decrypt xor_ssl Basic256Sha256 [2] c 512 = Inr (replicate 300 7)"
proof -
  obtain p where p: "rsa_pair xor_ssl OaepSha1 [1] [2] p" using xor_ssl_pair by blast
  show ?thesis
    by (rule asymmetric_encrypt_decrypt [OF _ p])
      (simp_all add: asymmetric_encryption_padding_def calculate_cipher_text_size_def plain_text_block_size_def
        checked_sub_def PublicKey_size_def xor_ssl_def cipher_text_block_size_def)
qed

text \<open>A cipher text that is not a whole number of key-sized blocks makes decryption panic with
  a slice out of range, unless a block before it fails: no length check precedes the loop.\<close>

theorem private_decrypt_truncated_panics:
  assumes "0 < length src" "length src < PrivateKey_size ssl priv"
  shows "private_decrypt ssl priv src dst_len padding = Inl Panic"
  using assms by (auto simp: private_decrypt_def cipher_text_block_size_def)

theorem private_decrypt_truncated_panics_witness:
  "private_decrypt xor_ssl [2] [1, 2, 3] 3 OaepSha1 = Inl Panic"
  by (rule private_decrypt_truncated_panics) (simp_all add: PrivateKey_size_def xor_ssl_def)

end
