(* ===== verification/Opc_Chunk.thy ===== *)
theory Opc_Chunk
  imports Opc_Tcp Opc_Rsa
begin

text \<open>
  The headers of message chunks and the chunks themselves: \<open>security_header.rs\<close> and the part of
  \<open>message_chunk.rs\<close> that does not depend on a secure channel, in \<open>src/lib/src/core/comms\<close>.
\<close>

section \<open>Security headers and sequence headers\<close>

record SymmetricSecurityHeader =
  sh_token_id :: u32

record AsymmetricSecurityHeader =
  security_policy_uri :: UAString
  sender_certificate :: ByteString
  receiver_certificate_thumbprint :: ByteString

datatype SecurityHeader = Asymmetric AsymmetricSecurityHeader | Symmetric SymmetricSecurityHeader

record SequenceHeader =
  sequence_number :: u32
  request_id :: u32

definition SymmetricSecurityHeader_byte_len :: "SymmetricSecurityHeader \<Rightarrow> nat" where
  "SymmetricSecurityHeader_byte_len h = 4"

definition SymmetricSecurityHeader_encode :: "SymmetricSecurityHeader \<Rightarrow> writer" where
  "SymmetricSecurityHeader_encode h = u32_encode (sh_token_id h)"

definition SymmetricSecurityHeader_decode :: "DecodingOptions \<Rightarrow> SymmetricSecurityHeader reader" where
  "SymmetricSecurityHeader_decode opts = mapD (\<lambda>t. \<lparr> sh_token_id = t \<rparr>) (u32_decode opts)"

definition AsymmetricSecurityHeader_byte_len :: "AsymmetricSecurityHeader \<Rightarrow> nat" where
  "AsymmetricSecurityHeader_byte_len h =
     UAString_byte_len (security_policy_uri h) + ByteString_byte_len (sender_certificate h)
     + ByteString_byte_len (receiver_certificate_thumbprint h)"

definition AsymmetricSecurityHeader_encode :: "AsymmetricSecurityHeader \<Rightarrow> writer" where
  "AsymmetricSecurityHeader_encode h =
     assert_size (AsymmetricSecurityHeader_byte_len h)
       (thenW (UAString_encode (security_policy_uri h))
       (thenW (ByteString_encode (sender_certificate h))
              (ByteString_encode (receiver_certificate_thumbprint h))))"

definition AsymmetricSecurityHeader_decode :: "DecodingOptions \<Rightarrow> AsymmetricSecurityHeader reader" where
  "AsymmetricSecurityHeader_decode opts =
     bindD (UAString_decode opts) (\<lambda>uri.
     bindD (ByteString_decode opts) (\<lambda>cert.
     bindD (ByteString_decode opts) (\<lambda>thumbprint.
       if bs_value cert \<noteq> None \<and> length (the (bs_value cert)) \<ge> MAX_CERTIFICATE_LENGTH then
         failD (Err BadDecodingError)
       else
         let thumbprint_len = (case bs_value thumbprint of Some v \<Rightarrow> length v | None \<Rightarrow> 0) in
         if thumbprint_len > 0 \<and> thumbprint_len \<noteq> THUMBPRINT_SIZE then failD (Err BadDecodingError)
         else returnD \<lparr> security_policy_uri = uri, sender_certificate = cert,
                        receiver_certificate_thumbprint = thumbprint \<rparr>)))"

definition AsymmetricSecurityHeader_none :: "AsymmetricSecurityHeader res" where
  "AsymmetricSecurityHeader_none =
     mapR (\<lambda>uri. \<lparr> security_policy_uri = UAString_from uri, sender_certificate = ByteString_null,
                   receiver_certificate_thumbprint = ByteString_null \<rparr>) (to_uri SpNone)"

definition AsymmetricSecurityHeader_new :: "SecurityPolicy \<Rightarrow> X509 \<Rightarrow> ByteString \<Rightarrow> AsymmetricSecurityHeader res" where
  "AsymmetricSecurityHeader_new policy cert thumbprint =
     mapR (\<lambda>uri. \<lparr> security_policy_uri = UAString_from uri, sender_certificate = X509_as_byte_string cert,
                   receiver_certificate_thumbprint = thumbprint \<rparr>) (to_uri policy)"

definition SecurityHeader_byte_len :: "SecurityHeader \<Rightarrow> nat" where
  "SecurityHeader_byte_len h =
     (case h of Asymmetric a \<Rightarrow> AsymmetricSecurityHeader_byte_len a | Symmetric s \<Rightarrow> SymmetricSecurityHeader_byte_len s)"

definition SecurityHeader_encode :: "SecurityHeader \<Rightarrow> writer" where
  "SecurityHeader_encode h =
     (case h of Asymmetric a \<Rightarrow> AsymmetricSecurityHeader_encode a | Symmetric s \<Rightarrow> SymmetricSecurityHeader_encode s)"

definition SequenceHeader_byte_len :: "SequenceHeader \<Rightarrow> nat" where
  "SequenceHeader_byte_len h = 8"

definition SequenceHeader_encode :: "SequenceHeader \<Rightarrow> writer" where
  "SequenceHeader_encode h = thenW (u32_encode (sequence_number h)) (u32_encode (request_id h))"

definition SequenceHeader_decode :: "DecodingOptions \<Rightarrow> SequenceHeader reader" where
  "SequenceHeader_decode opts =
     bindD (u32_decode opts) (\<lambda>n. bindD (u32_decode opts) (\<lambda>r.
       returnD \<lparr> sequence_number = n, request_id = r \<rparr>))"

section \<open>Chunk headers and chunks\<close>

definition MESSAGE_CHUNK_HEADER_SIZE :: nat where "MESSAGE_CHUNK_HEADER_SIZE = 12"

datatype MessageChunkType = CtMessage | CtOpenSecureChannel | CtCloseSecureChannel

datatype MessageIsFinalType = Intermediate | Final | FinalError

definition MessageChunkType_is_open_secure_channel :: "MessageChunkType \<Rightarrow> bool" where
  "MessageChunkType_is_open_secure_channel t \<longleftrightarrow> t = CtOpenSecureChannel"

record MessageChunkHeader =
  ch_message_type :: MessageChunkType
  ch_is_final :: MessageIsFinalType
  ch_message_size :: u32
  ch_secure_channel_id :: u32

definition chunk_type_code :: "MessageChunkType \<Rightarrow> u8 list" where
  "chunk_type_code t =
     (case t of
        CtMessage \<Rightarrow> CHUNK_MESSAGE
      | CtOpenSecureChannel \<Rightarrow> OPEN_SECURE_CHANNEL_MESSAGE
      | CtCloseSecureChannel \<Rightarrow> CLOSE_SECURE_CHANNEL_MESSAGE)"

definition is_final_code :: "MessageIsFinalType \<Rightarrow> u8" where
  "is_final_code t =
     (case t of Intermediate \<Rightarrow> CHUNK_INTERMEDIATE | Final \<Rightarrow> CHUNK_FINAL | FinalError \<Rightarrow> CHUNK_FINAL_ERROR)"

definition MessageChunkHeader_byte_len :: "MessageChunkHeader \<Rightarrow> nat" where
  "MessageChunkHeader_byte_len h = MESSAGE_CHUNK_HEADER_SIZE"

definition MessageChunkHeader_encode :: "MessageChunkHeader \<Rightarrow> writer" where
  "MessageChunkHeader_encode h =
     assert_size (MessageChunkHeader_byte_len h)
       (thenW (writeW (chunk_type_code (ch_message_type h)))
       (thenW (write_u8 (is_final_code (ch_is_final h)))
       (thenW (write_u32 (ch_message_size h)) (write_u32 (ch_secure_channel_id h)))))"

definition MessageChunkHeader_decode :: "DecodingOptions \<Rightarrow> MessageChunkHeader reader" where
  "MessageChunkHeader_decode opts =
     bindD (read_exact 3) (\<lambda>code.
     bindD (if code = CHUNK_MESSAGE then returnD CtMessage
            else if code = OPEN_SECURE_CHANNEL_MESSAGE then returnD CtOpenSecureChannel
            else if code = CLOSE_SECURE_CHANNEL_MESSAGE then returnD CtCloseSecureChannel
            else failD (Err BadDecodingError)) (\<lambda>ty.
     bindD read_u8 (\<lambda>final_code.
     bindD (if final_code = CHUNK_FINAL then returnD Final
            else if final_code = CHUNK_INTERMEDIATE then returnD Intermediate
            else if final_code = CHUNK_FINAL_ERROR then returnD FinalError
            else failD (Err BadDecodingError)) (\<lambda>fin.
     bindD read_u32 (\<lambda>size.
     bindD read_u32 (\<lambda>channel.
       returnD \<lparr> ch_message_type = ty, ch_is_final = fin, ch_message_size = size,
                 ch_secure_channel_id = channel \<rparr>))))))"

record MessageChunk =
  mc_data :: "u8 list"

text \<open>Writing to a cursor over a vector overwrites its bytes from the start and grows it when the
  end is passed.\<close>

definition cursor_write :: "u8 list \<Rightarrow> u8 list \<Rightarrow> u8 list" where
  "cursor_write bytes buf = bytes @ drop (length bytes) buf"

definition MessageChunk_byte_len :: "MessageChunk \<Rightarrow> nat" where
  "MessageChunk_byte_len c = length (mc_data c)"

definition MessageChunk_encode :: "MessageChunk \<Rightarrow> writer" where
  "MessageChunk_encode c = writeW (mc_data c)"

text \<open>The result of the final \<open>read_exact\<close> is ignored: when the stream is too short the bytes
  after the header stay zero and the stream is left as it was.\<close>

definition MessageChunk_decode :: "DecodingOptions \<Rightarrow> MessageChunk reader" where
  "MessageChunk_decode opts s =
     bindR (map_err BadCommunicationError (MessageChunkHeader_decode opts s)) (\<lambda>(chunk_header, s').
       let message_size = unat (ch_message_size chunk_header) in
       if max_message_size opts > 0 \<and> message_size > max_message_size opts then Inl (Err BadTcpMessageTooLarge)
       else bindR (MessageChunkHeader_encode chunk_header []) (\<lambda>(chunk_header_size, header).
         if chunk_header_size \<noteq> MESSAGE_CHUNK_HEADER_SIZE then Inl Panic
         else
           let data = cursor_write header (replicate message_size 0);
               n = length data - chunk_header_size
           in if n \<le> length s' then Inr (\<lparr> mc_data = take chunk_header_size data @ take n s' \<rparr>, drop n s')
              else Inr (\<lparr> mc_data = data \<rparr>, s')))"

definition MessageChunk_message_header :: "MessageChunk \<Rightarrow> DecodingOptions \<Rightarrow> MessageChunkHeader res" where
  "MessageChunk_message_header c opts = mapR fst (MessageChunkHeader_decode opts (mc_data c))"

definition decode_security_header :: "MessageChunkType \<Rightarrow> DecodingOptions \<Rightarrow> SecurityHeader reader" where
  "decode_security_header ty opts =
     (if ty = CtOpenSecureChannel then mapD Asymmetric (AsymmetricSecurityHeader_decode opts)
      else mapD Symmetric (SymmetricSecurityHeader_decode opts))"

definition MessageChunk_security_header :: "MessageChunk \<Rightarrow> DecodingOptions \<Rightarrow> SecurityHeader res" where
  "MessageChunk_security_header c opts =
     bindR (MessageChunkHeader_decode opts (mc_data c)) (\<lambda>(message_header, s).
       mapR fst (decode_security_header (ch_message_type message_header) opts s))"

definition MessageChunk_is_open_secure_channel :: "MessageChunk \<Rightarrow> DecodingOptions \<Rightarrow> bool" where
  "MessageChunk_is_open_secure_channel c opts =
     (case MessageChunk_message_header c opts of
        Inr message_header \<Rightarrow> MessageChunkType_is_open_secure_channel (ch_message_type message_header)
      | Inl _ \<Rightarrow> False)"

section \<open>The wire format of the headers\<close>

definition AsymmetricSecurityHeader_bytes :: "AsymmetricSecurityHeader \<Rightarrow> u8 list" where
  "AsymmetricSecurityHeader_bytes h =
     UAString_bytes (security_policy_uri h) @ ByteString_bytes (sender_certificate h)
     @ ByteString_bytes (receiver_certificate_thumbprint h)"

definition SymmetricSecurityHeader_bytes :: "SymmetricSecurityHeader \<Rightarrow> u8 list" where
  "SymmetricSecurityHeader_bytes h = le_bytes 4 (sh_token_id h)"

definition SecurityHeader_bytes :: "SecurityHeader \<Rightarrow> u8 list" where
  "SecurityHeader_bytes h =
     (case h of Asymmetric a \<Rightarrow> AsymmetricSecurityHeader_bytes a | Symmetric s \<Rightarrow> SymmetricSecurityHeader_bytes s)"

definition SequenceHeader_bytes :: "SequenceHeader \<Rightarrow> u8 list" where
  "SequenceHeader_bytes h = le_bytes 4 (sequence_number h) @ le_bytes 4 (request_id h)"

definition MessageChunkHeader_bytes :: "MessageChunkHeader \<Rightarrow> u8 list" where
  "MessageChunkHeader_bytes h =
     chunk_type_code (ch_message_type h) @ [is_final_code (ch_is_final h)]
     @ le_bytes 4 (ch_message_size h) @ le_bytes 4 (ch_secure_channel_id h)"

definition AsymmetricSecurityHeader_fits :: "DecodingOptions \<Rightarrow> AsymmetricSecurityHeader \<Rightarrow> bool" where
  "AsymmetricSecurityHeader_fits opts h \<longleftrightarrow>
     UAString_fits opts (security_policy_uri h) \<and> ByteString_fits opts (sender_certificate h) \<and>
     ByteString_fits opts (receiver_certificate_thumbprint h) \<and>
     (case bs_value (sender_certificate h) of None \<Rightarrow> True | Some v \<Rightarrow> length v < MAX_CERTIFICATE_LENGTH) \<and>
     (case bs_value (receiver_certificate_thumbprint h) of None \<Rightarrow> True
      | Some v \<Rightarrow> v = [] \<or> length v = THUMBPRINT_SIZE)"

definition SecurityHeader_fits :: "DecodingOptions \<Rightarrow> SecurityHeader \<Rightarrow> bool" where
  "SecurityHeader_fits opts h = (case h of Asymmetric a \<Rightarrow> AsymmetricSecurityHeader_fits opts a | Symmetric _ \<Rightarrow> True)"

lemma chunk_codes [simp]:
  "length (chunk_type_code ty) = 3"
  by (cases ty) (simp_all add: chunk_type_code_def message_tags)

lemma length_MessageChunkHeader_bytes [simp]: "length (MessageChunkHeader_bytes h) = 12"
  by (simp add: MessageChunkHeader_bytes_def)

lemma length_SequenceHeader_bytes [simp]: "length (SequenceHeader_bytes h) = 8"
  by (simp add: SequenceHeader_bytes_def)

lemma length_SymmetricSecurityHeader_bytes [simp]: "length (SymmetricSecurityHeader_bytes h) = 4"
  by (simp add: SymmetricSecurityHeader_bytes_def)

lemma length_SecurityHeader_bytes: "SecurityHeader_byte_len h = length (SecurityHeader_bytes h)"
  by (cases h) (simp_all add: SecurityHeader_byte_len_def SecurityHeader_bytes_def AsymmetricSecurityHeader_byte_len_def
      AsymmetricSecurityHeader_bytes_def SymmetricSecurityHeader_byte_len_def length_UAString_bytes length_ByteString_bytes)

interpretation MessageChunkHeader_codec: codec MessageChunkHeader_byte_len MessageChunkHeader_encode
  MessageChunkHeader_bytes "\<lambda>_. True" MessageChunkHeader_decode 12 "\<lambda>_ _. True"
proof unfold_locales
  fix h opts
  show len: "MessageChunkHeader_byte_len h = length (MessageChunkHeader_bytes h)"
    by (simp add: MessageChunkHeader_byte_len_def MESSAGE_CHUNK_HEADER_SIZE_def)
  show "writes (MessageChunkHeader_encode h) (MessageChunkHeader_bytes h)"
    unfolding MessageChunkHeader_encode_def len unfolding MessageChunkHeader_bytes_def
    by (intro writes_assert_size writes_thenW writes_rules) (simp_all add: writes_def writeW_def)
  show "reads (MessageChunkHeader_decode opts) (MessageChunkHeader_bytes h) h"
    by (cases h; cases "ch_message_type h"; cases "ch_is_final h")
      (simp_all add: reads_def MessageChunkHeader_decode_def MessageChunkHeader_bytes_def read_simps
        read_exact_def chunk_type_code_def is_final_code_def message_tags)
  have "safe_reader (3 + (0 + (1 + (0 + (4 + (4 + 0)))))) (MessageChunkHeader_decode opts)"
    unfolding MessageChunkHeader_decode_def
    by (intro safe_bindD safe_read_exact safe_ints [unfolded One_nat_def [symmetric]] safe0_rules)
  then show "safe_reader 12 (MessageChunkHeader_decode opts)" by simp
qed simp

interpretation SequenceHeader_codec: codec SequenceHeader_byte_len SequenceHeader_encode
  SequenceHeader_bytes "\<lambda>_. True" SequenceHeader_decode 8 "\<lambda>_ _. True"
proof unfold_locales
  fix h opts
  show "writes (SequenceHeader_encode h) (SequenceHeader_bytes h)"
    unfolding SequenceHeader_encode_def SequenceHeader_bytes_def u32_encode_def by (intro writes_thenW writes_rules)
  show "reads (SequenceHeader_decode opts) (SequenceHeader_bytes h) h"
    by (simp add: reads_def SequenceHeader_decode_def SequenceHeader_bytes_def u32_decode_def read_simps)
  have "safe_reader (4 + (4 + 0)) (SequenceHeader_decode opts)"
    unfolding SequenceHeader_decode_def u32_decode_def by (intro safe_bindD safe_ints safe0_rules)
  then show "safe_reader 8 (SequenceHeader_decode opts)" by simp
qed (simp_all add: SequenceHeader_byte_len_def)

interpretation SymmetricSecurityHeader_codec: codec SymmetricSecurityHeader_byte_len SymmetricSecurityHeader_encode
  SymmetricSecurityHeader_bytes "\<lambda>_. True" SymmetricSecurityHeader_decode 4 "\<lambda>_ _. True"
proof unfold_locales
  fix h opts
  show "writes (SymmetricSecurityHeader_encode h) (SymmetricSecurityHeader_bytes h)"
    unfolding SymmetricSecurityHeader_encode_def SymmetricSecurityHeader_bytes_def u32_encode_def by (intro writes_rules)
  show "reads (SymmetricSecurityHeader_decode opts) (SymmetricSecurityHeader_bytes h) h"
    by (simp add: reads_def SymmetricSecurityHeader_decode_def SymmetricSecurityHeader_bytes_def u32_decode_def read_simps)
  have "safe_reader (4 + 0) (SymmetricSecurityHeader_decode opts)"
    unfolding SymmetricSecurityHeader_decode_def u32_decode_def mapD_def by (intro safe_bindD safe_ints safe0_rules)
  then show "safe_reader 4 (SymmetricSecurityHeader_decode opts)" by simp
qed (simp_all add: SymmetricSecurityHeader_byte_len_def)

interpretation AsymmetricSecurityHeader_codec: codec AsymmetricSecurityHeader_byte_len AsymmetricSecurityHeader_encode
  AsymmetricSecurityHeader_bytes "\<lambda>_. True" AsymmetricSecurityHeader_decode 12 AsymmetricSecurityHeader_fits
proof unfold_locales
  fix h opts
  show len: "AsymmetricSecurityHeader_byte_len h = length (AsymmetricSecurityHeader_bytes h)"
    by (simp add: AsymmetricSecurityHeader_byte_len_def AsymmetricSecurityHeader_bytes_def length_UAString_bytes
        length_ByteString_bytes)
  show "writes (AsymmetricSecurityHeader_encode h) (AsymmetricSecurityHeader_bytes h)"
    unfolding AsymmetricSecurityHeader_encode_def len unfolding AsymmetricSecurityHeader_bytes_def
    by (intro writes_assert_size writes_thenW writes_rules) simp
  show "reads (AsymmetricSecurityHeader_decode opts) (AsymmetricSecurityHeader_bytes h) h"
    if "AsymmetricSecurityHeader_fits opts h"
    using that unfolding reads_def AsymmetricSecurityHeader_bytes_def AsymmetricSecurityHeader_fits_def
    by (cases h) (auto simp: AsymmetricSecurityHeader_decode_def read_simps UAString_decode_reads [THEN readsD]
        ByteString_decode_reads [THEN readsD] Let_def split: option.splits)
  have "safe_reader (4 + (4 + (4 + 0))) (AsymmetricSecurityHeader_decode opts)"
    unfolding AsymmetricSecurityHeader_decode_def Let_def
    by (intro safe_bindD UAString_codec.decode_safe ByteString_codec.decode_safe safe0_rules)
  then show "safe_reader 12 (AsymmetricSecurityHeader_decode opts)" by simp
qed simp

section \<open>Chunks\<close>

text \<open>A chunk on the wire: its data starts with a chunk header whose size is the length of the
  data, within the limit of the options.\<close>

definition MessageChunk_fits :: "DecodingOptions \<Rightarrow> MessageChunk \<Rightarrow> bool" where
  "MessageChunk_fits opts c \<longleftrightarrow>
     (\<exists>h body. mc_data c = MessageChunkHeader_bytes h @ body) \<and>
     (case MessageChunk_message_header c opts of
        Inr h \<Rightarrow> unat (ch_message_size h) = length (mc_data c)
      | Inl _ \<Rightarrow> False) \<and>
     (max_message_size opts > 0 \<longrightarrow> length (mc_data c) \<le> max_message_size opts)"

lemma MessageChunkHeader_decode_bytes [simp]:
  "MessageChunkHeader_decode opts (MessageChunkHeader_bytes h @ s) = Inr (h, s)"
  using MessageChunkHeader_codec.decode_reads [of opts h] by (simp add: reads_def)

lemma MessageChunkHeader_encode_bytes [simp]:
  "MessageChunkHeader_encode h s = Inr (12, s @ MessageChunkHeader_bytes h)"
  using MessageChunkHeader_codec.encode_returns_byte_len [of h s]
  by (simp add: MessageChunkHeader_byte_len_def MESSAGE_CHUNK_HEADER_SIZE_def)

lemma MessageChunk_message_header_bytes [simp]:
  "MessageChunk_message_header \<lparr> mc_data = MessageChunkHeader_bytes h @ s \<rparr> opts = Inr h"
  by (simp add: MessageChunk_message_header_def)

lemma MessageChunk_decode_reads:
  assumes "MessageChunk_fits opts c"
  shows "reads (MessageChunk_decode opts) (mc_data c) c"
proof -
  obtain h body where data: "mc_data c = MessageChunkHeader_bytes h @ body"
    using assms by (auto simp: MessageChunk_fits_def)
  then have c: "c = \<lparr> mc_data = MessageChunkHeader_bytes h @ body \<rparr>" by (cases c) simp
  have size: "unat (ch_message_size h) = 12 + length body"
    "max_message_size opts > 0 \<longrightarrow> 12 + length body \<le> max_message_size opts"
    using assms by (simp_all add: c MessageChunk_fits_def)
  show ?thesis
    unfolding c using size
    by (auto simp: reads_def MessageChunk_decode_def map_err_def MESSAGE_CHUNK_HEADER_SIZE_def cursor_write_def Let_def)
qed

end
