(* ===== verification/Opc_Tcp_Codec.thy ===== *)
theory Opc_Tcp_Codec
  imports Opc_Chunk
begin

text \<open>
  The codec that frames messages on a TCP stream, \<open>src/lib/src/core/comms/tcp_codec.rs\<close>. The
  buffer is the list of bytes received and not yet consumed. An io error made from a status
  code is that status code. \<open>drain\<close> and \<open>feed\<close> are what the framed reader does with the codec:
  decode until it asks for more bytes, append every segment that arrives.
\<close>

datatype Message = MHello HelloMessage | MAcknowledge AcknowledgeMessage | MError ErrorMessage | MChunk MessageChunk

definition decode_message :: "MessageHeader \<Rightarrow> u8 list \<Rightarrow> DecodingOptions \<Rightarrow> Message res" where
  "decode_message message_header buf opts =
     (case mh_message_type message_header of
        MtAcknowledge \<Rightarrow> mapR (\<lambda>(m, _). MAcknowledge m) (AcknowledgeMessage_decode opts buf)
      | MtHello \<Rightarrow> mapR (\<lambda>(m, _). MHello m) (HelloMessage_decode opts buf)
      | MtError \<Rightarrow> mapR (\<lambda>(m, _). MError m) (ErrorMessage_decode opts buf)
      | MtChunk \<Rightarrow> mapR (\<lambda>(m, _). MChunk m) (MessageChunk_decode opts buf)
      | MtInvalid \<Rightarrow> Inl (Err BadCommunicationError))"

text \<open>The result is the message, if a whole one was there, or the error, and the buffer
  afterwards.\<close>

definition TcpCodec_decode :: "DecodingOptions \<Rightarrow> u8 list \<Rightarrow> Message option res \<times> u8 list" where
  "TcpCodec_decode opts buf =
     (if length buf > MESSAGE_HEADER_LEN then
        case MessageHeader_decode opts (take MESSAGE_HEADER_LEN buf) of
          Inl e \<Rightarrow> (Inl e, buf)
        | Inr (message_header, _) \<Rightarrow>
            let message_size = unat (mh_message_size message_header) in
            if message_size \<le> length buf then
              (mapR Some (decode_message message_header (take message_size buf) opts), drop message_size buf)
            else (Inr None, buf)
      else (Inr None, buf))"

definition TcpCodec_encode :: "Message \<Rightarrow> u8 list \<Rightarrow> u8 list res" where
  "TcpCodec_encode msg buf =
     (case msg of
        MHello m \<Rightarrow> mapR snd (HelloMessage_encode m buf)
      | MAcknowledge m \<Rightarrow> mapR snd (AcknowledgeMessage_encode m buf)
      | MError m \<Rightarrow> mapR snd (ErrorMessage_encode m buf)
      | MChunk m \<Rightarrow> mapR snd (MessageChunk_encode m buf))"

section \<open>One message\<close>

lemma MessageHeader_decode_8:
  assumes "length s = 8"
  obtains h where "MessageHeader_decode opts s = Inr (h, [])"
proof -
  have "read_u32 (drop 4 s) = Inr (of_le (drop 4 s), [])"
    using assms by (simp add: read_int_defs read_exact_def bindD_def returnD_def mapD_def)
  then have "MessageHeader_decode opts s =
      Inr (\<lparr> mh_message_type = message_type (take 4 s), mh_message_size = of_le (drop 4 s) \<rparr>, [])"
    using assms by (simp add: MessageHeader_decode_def bindD_def read_exact_def returnD_def)
  then show thesis by (rule that)
qed

lemma decode_message_total:
  "(\<exists>c. decode_message h s opts = Inl (Err c)) \<or> (\<exists>m. decode_message h s opts = Inr m)"
proof -
  have safe: "(\<exists>c. mapR f (r s) = Inl (Err c)) \<or> (\<exists>m. mapR f (r s) = Inr m)" if "safe_reader k r"
    for f :: "'a \<times> u8 list \<Rightarrow> Message" and r :: "'a reader" and k
    using that by (rule safe_readerE [of _ _ s]) auto
  have chunk: "(\<exists>c. MessageChunk_decode opts s = Inl (Err c)) \<or> (\<exists>m. MessageChunk_decode opts s = Inr m)"
    using MessageChunkHeader_codec.decode_safe [of opts]
    by (rule safe_readerE [of _ _ s])
      (auto simp: MessageChunk_decode_def map_err_def Let_def MESSAGE_CHUNK_HEADER_SIZE_def)
  show ?thesis
    using safe [OF HelloMessage_codec.decode_safe] safe [OF AcknowledgeMessage_codec.decode_safe]
      safe [OF ErrorMessage_codec.decode_safe] chunk
    by (cases "mh_message_type h") (auto simp: decode_message_def)
qed

lemma TcpCodec_decode_cases:
  obtains (more) "TcpCodec_decode opts buf = (Inr None, buf)"
  | (message) m msg rest where "TcpCodec_decode opts buf = (Inr (Some m), rest)" "buf = msg @ rest" "msg \<noteq> []"
      "\<And>t. TcpCodec_decode opts (buf @ t) = (Inr (Some m), rest @ t)"
  | (error) c msg rest where "TcpCodec_decode opts buf = (Inl (Err c), rest)" "buf = msg @ rest"
      "\<And>t. TcpCodec_decode opts (buf @ t) = (Inl (Err c), rest @ t)"
proof (cases "length buf > 8")
  case True
  then obtain h where h: "MessageHeader_decode opts (take 8 buf) = Inr (h, [])"
    using MessageHeader_decode_8 [of "take 8 buf" opts] by auto
  let ?n = "unat (mh_message_size h)"
  show thesis
  proof (cases "?n \<le> length buf")
    case le: True
    have dec: "TcpCodec_decode opts (buf @ t) = (mapR Some (decode_message h (take ?n buf) opts), drop ?n buf @ t)" for t
      using True h le by (simp add: TcpCodec_decode_def MESSAGE_HEADER_LEN_def Let_def)
    have split: "buf = take ?n buf @ drop ?n buf" by simp
    consider c where "decode_message h (take ?n buf) opts = Inl (Err c)"
      | m where "decode_message h (take ?n buf) opts = Inr m" using decode_message_total by blast
    then show thesis
    proof cases
      case 1
      then show thesis using error [OF _ split] dec [of "[]"] dec by simp
    next
      case (2 m)
      have "take ?n buf \<noteq> []"
      proof
        assume "take ?n buf = []"
        with 2 show False
          by (cases "mh_message_type h")
            (auto simp: decode_message_def AcknowledgeMessage_decode_def HelloMessage_decode_def ErrorMessage_decode_def
              MessageChunk_decode_def MessageHeader_decode_def MessageChunkHeader_decode_def bindD_def read_exact_def
              map_err_def)
      qed
      then show thesis using message [OF _ split] 2 dec [of "[]"] dec by simp
    qed
  next
    case False
    with True h show thesis by (intro more) (simp add: TcpCodec_decode_def MESSAGE_HEADER_LEN_def Let_def)
  qed
next
  case False
  then show thesis by (intro more) (simp add: TcpCodec_decode_def MESSAGE_HEADER_LEN_def)
qed

lemma TcpCodec_decode_shrinks: "TcpCodec_decode opts buf = (Inr (Some m), rest) \<Longrightarrow> length rest < length buf"
  by (rule TcpCodec_decode_cases [of opts buf]) auto

section \<open>The framed reader\<close>

function drain :: "DecodingOptions \<Rightarrow> u8 list \<Rightarrow> Message list \<times> u8 list \<times> fault option" where
  "drain opts buf =
     (case TcpCodec_decode opts buf of
        (Inr (Some m), rest) \<Rightarrow> (let (ms, b, e) = drain opts rest in (m # ms, b, e))
      | (Inr None, rest) \<Rightarrow> ([], rest, None)
      | (Inl e, rest) \<Rightarrow> ([], rest, Some e))"
  by pat_completeness auto
termination
  by (relation "measure (\<lambda>(opts, buf). length buf)") (auto intro: TcpCodec_decode_shrinks [OF sym])

declare drain.simps [simp del]

fun feed :: "DecodingOptions \<Rightarrow> u8 list \<Rightarrow> u8 list list \<Rightarrow> Message list \<times> u8 list \<times> fault option" where
  "feed opts buf [] = ([], buf, None)"
| "feed opts buf (seg # segs) =
     (case drain opts (buf @ seg) of
        (ms, b, Some e) \<Rightarrow> (ms, b, Some e)
      | (ms, b, None) \<Rightarrow> (let (ms', b', e) = feed opts b segs in (ms @ ms', b', e)))"

lemma drain_more: "TcpCodec_decode opts buf = (Inr None, rest) \<Longrightarrow> drain opts buf = ([], rest, None)"
  by (simp add: drain.simps)

lemma drain_error: "TcpCodec_decode opts buf = (Inl e, rest) \<Longrightarrow> drain opts buf = ([], rest, Some e)"
  by (simp add: drain.simps)

lemma drain_message:
  "TcpCodec_decode opts buf = (Inr (Some m), rest) \<Longrightarrow>
     drain opts buf = (m # fst (drain opts rest), snd (drain opts rest))"
  by (simp add: drain.simps [of opts buf] split: prod.split)

lemma drain_append:
  "drain opts (buf @ t) =
     (case drain opts buf of
        (ms, b, Some e) \<Rightarrow> (ms, b @ t, Some e)
      | (ms, b, None) \<Rightarrow> (ms @ fst (drain opts (b @ t)), snd (drain opts (b @ t))))"
proof (induction opts buf rule: drain.induct)
  case (1 opts buf)
  show ?case
  proof (cases rule: TcpCodec_decode_cases [of opts buf])
    case more
    then show ?thesis by (simp add: drain_more)
  next
    case (message m msg rest)
    have "drain opts (buf @ t) = (m # fst (drain opts (rest @ t)), snd (drain opts (rest @ t)))"
      by (rule drain_message [OF message(4)])
    with "1" [OF message(1) [symmetric] refl refl] drain_message [OF message(1)] show ?thesis
      by (auto split: prod.splits option.splits)
  next
    case (error c msg rest)
    then show ?thesis by (simp add: drain_error)
  qed
qed

lemma drain_idle: "drain opts buf = (ms, b, None) \<Longrightarrow> drain opts b = ([], b, None)"
proof (induction opts buf arbitrary: ms rule: drain.induct)
  case (1 opts buf)
  show ?case
  proof (cases rule: TcpCodec_decode_cases [of opts buf])
    case more
    with "1.prems" show ?thesis by (auto simp: drain_more)
  next
    case (message m msg rest)
    with "1.prems" "1.IH" [OF message(1) [symmetric] refl refl] drain_message [OF message(1)] show ?thesis
      by (cases "drain opts rest") auto
  next
    case (error c msg rest)
    with "1.prems" show ?thesis by (simp add: drain_error)
  qed
qed

lemma feed_drain:
  assumes "drain opts buf = ([], buf, None)"
  shows "fst (feed opts buf segs) = fst (drain opts (buf @ concat segs)) \<and>
         snd (snd (feed opts buf segs)) = snd (snd (drain opts (buf @ concat segs))) \<and>
         (snd (snd (feed opts buf segs)) = None \<longrightarrow>
            fst (snd (feed opts buf segs)) = fst (snd (drain opts (buf @ concat segs))))"
  using assms
proof (induction segs arbitrary: buf)
  case (Cons seg segs)
  obtain ms b e where d: "drain opts (buf @ seg) = (ms, b, e)" by (cases "drain opts (buf @ seg)") auto
  show ?case
  proof (cases e)
    case None
    with Cons.IH [of b] drain_idle [of opts "buf @ seg"] d drain_append [of opts "buf @ seg" "concat segs"]
    show ?thesis by (auto split: prod.splits)
  next
    case (Some f)
    with d drain_append [of opts "buf @ seg" "concat segs"] show ?thesis by simp
  qed
qed simp

text \<open>C6: What a receiver decodes does not depend on how TCP cuts the stream into segments: for
  every byte stream and every way to cut it, feeding the segments one by one to the codec
  yields the same messages, the same error if there is one, and otherwise the same unconsumed
  bytes, as decoding the whole stream at once.\<close>

theorem TcpCodec_segmentation_independent:
  "fst (feed opts [] segs) = fst (drain opts (concat segs)) \<and>
   snd (snd (feed opts [] segs)) = snd (snd (drain opts (concat segs))) \<and>
   (if snd (snd (feed opts [] segs)) = None
    then fst (snd (feed opts [] segs)) = fst (snd (drain opts (concat segs))) else True)"
proof -
  have "drain opts [] = ([], [], None)" by (simp add: drain.simps TcpCodec_decode_def)
  from feed_drain [OF this, of segs] show ?thesis by simp
qed

section \<open>Encoding and decoding\<close>

definition Message_bytes :: "Message \<Rightarrow> u8 list" where
  "Message_bytes msg =
     (case msg of
        MHello m \<Rightarrow> HelloMessage_bytes m
      | MAcknowledge m \<Rightarrow> AcknowledgeMessage_bytes m
      | MError m \<Rightarrow> ErrorMessage_bytes m
      | MChunk c \<Rightarrow> mc_data c)"

text \<open>A message that may be sent: its header has the right type and announces the size of the
  message, and its strings respect the limits of the receiver.\<close>

definition Message_fits :: "DecodingOptions \<Rightarrow> Message \<Rightarrow> bool" where
  "Message_fits opts msg =
     (case msg of
        MHello m \<Rightarrow> mh_message_type (hel_message_header m) = MtHello \<and>
          unat (mh_message_size (hel_message_header m)) = HelloMessage_byte_len m \<and> UAString_fits opts (hel_endpoint_url m)
      | MAcknowledge m \<Rightarrow> mh_message_type (ack_message_header m) = MtAcknowledge \<and>
          unat (mh_message_size (ack_message_header m)) = AcknowledgeMessage_byte_len m
      | MError m \<Rightarrow> mh_message_type (err_message_header m) = MtError \<and>
          unat (mh_message_size (err_message_header m)) = ErrorMessage_byte_len m \<and> UAString_fits opts (err_reason m)
      | MChunk c \<Rightarrow> MessageChunk_fits opts c)"

lemma TcpCodec_encode_bytes: "Message_fits opts msg \<Longrightarrow> TcpCodec_encode msg buf = Inr (buf @ Message_bytes msg)"
  using HelloMessage_codec.encode_returns_byte_len AcknowledgeMessage_codec.encode_returns_byte_len
    ErrorMessage_codec.encode_returns_byte_len
  by (cases msg) (auto simp: TcpCodec_encode_def Message_fits_def Message_bytes_def MessageHeader_valid_def
      MessageChunk_encode_def writeW_def)

lemma message_type_chunk: "message_type (take 4 (MessageChunkHeader_bytes h @ s)) = MtChunk"
  by (cases "ch_message_type h"; cases "ch_is_final h")
    (simp_all add: MessageChunkHeader_bytes_def message_type_def chunk_type_code_def is_final_code_def message_tags)

lemma MessageHeader_decode_chunk:
  "MessageHeader_decode opts (take 8 (MessageChunkHeader_bytes h @ s)) =
     Inr (\<lparr> mh_message_type = MtChunk, mh_message_size = ch_message_size h \<rparr>, [])"
proof -
  let ?b = "chunk_type_code (ch_message_type h) @ [is_final_code (ch_is_final h)]"
  have "take 8 (MessageChunkHeader_bytes h @ s) = ?b @ le_bytes 4 (ch_message_size h) @ []"
    by (simp add: MessageChunkHeader_bytes_def)
  moreover have "read_exact 4 (?b @ r) = Inr (?b, r)" for r by (simp add: read_exact_def)
  moreover have "message_type ?b = MtChunk"
    using message_type_chunk [of h "[]"] by (simp add: MessageChunkHeader_bytes_def)
  ultimately show ?thesis
    by (simp only: MessageHeader_decode_def bindD_def bindR_simps prod.case reads_ints [THEN readsD] returnD_def)
qed

lemma TcpCodec_decode_bytes:
  assumes "Message_fits opts msg"
  shows "TcpCodec_decode opts (Message_bytes msg @ rest) = (Inr (Some msg), rest)"
proof -
  have decode: "MessageHeader_decode opts (MessageHeader_bytes h) = Inr (h, [])" if "MessageHeader_valid h" for h
    using MessageHeader_decode_reads [OF that, of opts, THEN readsD, of "[]"] by simp
  show ?thesis
  proof (cases msg)
    case (MHello m)
    let ?h = "hel_message_header m"
    have v: "MessageHeader_valid ?h" and fit: "HelloMessage_fits opts m"
      using assms MHello by (simp_all add: Message_fits_def MessageHeader_valid_def HelloMessage_fits_def)
    have len: "unat (mh_message_size ?h) = length (HelloMessage_bytes m)"
      using assms MHello HelloMessage_codec.byte_len_exact [OF v] by (simp add: Message_fits_def)
    have h: "MessageHeader_decode opts (take 8 (HelloMessage_bytes m @ rest)) = Inr (?h, [])"
      using length_MessageHeader_bytes [OF v] decode [OF v] by (simp add: HelloMessage_bytes_def)
    have "8 < length (HelloMessage_bytes m)" by (simp add: HelloMessage_bytes_def length_MessageHeader_bytes [OF v])
    then show ?thesis
      using MHello assms h len HelloMessage_codec.decode_reads [OF fit, THEN readsD, of "[]"]
      by (simp add: TcpCodec_decode_def MESSAGE_HEADER_LEN_def Message_bytes_def decode_message_def Message_fits_def)
  next
    case (MAcknowledge m)
    let ?h = "ack_message_header m"
    have v: "MessageHeader_valid ?h" using assms MAcknowledge by (simp add: Message_fits_def MessageHeader_valid_def)
    have len: "unat (mh_message_size ?h) = length (AcknowledgeMessage_bytes m)"
      using assms MAcknowledge AcknowledgeMessage_codec.byte_len_exact [OF v] by (simp add: Message_fits_def)
    have h: "MessageHeader_decode opts (take 8 (AcknowledgeMessage_bytes m @ rest)) = Inr (?h, [])"
      using length_MessageHeader_bytes [OF v] decode [OF v] by (simp add: AcknowledgeMessage_bytes_def)
    have "8 < length (AcknowledgeMessage_bytes m)"
      by (simp add: AcknowledgeMessage_bytes_def length_MessageHeader_bytes [OF v])
    then show ?thesis
      using MAcknowledge assms h len AcknowledgeMessage_codec.decode_reads [OF v, of opts, THEN readsD, of "[]"]
      by (simp add: TcpCodec_decode_def MESSAGE_HEADER_LEN_def Message_bytes_def decode_message_def Message_fits_def)
  next
    case (MError m)
    let ?h = "err_message_header m"
    have v: "MessageHeader_valid ?h" and fit: "ErrorMessage_fits opts m"
      using assms MError by (simp_all add: Message_fits_def MessageHeader_valid_def ErrorMessage_fits_def)
    have len: "unat (mh_message_size ?h) = length (ErrorMessage_bytes m)"
      using assms MError ErrorMessage_codec.byte_len_exact [OF v] by (simp add: Message_fits_def)
    have h: "MessageHeader_decode opts (take 8 (ErrorMessage_bytes m @ rest)) = Inr (?h, [])"
      using length_MessageHeader_bytes [OF v] decode [OF v] by (simp add: ErrorMessage_bytes_def)
    have "8 < length (ErrorMessage_bytes m)" by (simp add: ErrorMessage_bytes_def length_MessageHeader_bytes [OF v])
    then show ?thesis
      using MError assms h len ErrorMessage_codec.decode_reads [OF fit, THEN readsD, of "[]"]
      by (simp add: TcpCodec_decode_def MESSAGE_HEADER_LEN_def Message_bytes_def decode_message_def Message_fits_def)
  next
    case (MChunk c)
    have fit: "MessageChunk_fits opts c" using assms MChunk by (simp add: Message_fits_def)
    then obtain h body where data: "mc_data c = MessageChunkHeader_bytes h @ body"
      by (auto simp: MessageChunk_fits_def)
    then have "unat (ch_message_size h) = length (mc_data c)"
      using fit by (cases c) (simp add: MessageChunk_fits_def)
    moreover have "MessageHeader_decode opts (take 8 (mc_data c @ rest)) =
        Inr (\<lparr> mh_message_type = MtChunk, mh_message_size = ch_message_size h \<rparr>, [])"
      using MessageHeader_decode_chunk [of opts h "body @ rest"] by (simp add: data)
    moreover have "8 < length (mc_data c)" by (simp add: data)
    ultimately show ?thesis
      using MChunk MessageChunk_decode_reads [OF fit, THEN readsD, of "[]"]
      by (simp add: TcpCodec_decode_def MESSAGE_HEADER_LEN_def Message_bytes_def decode_message_def)
  qed
qed

text \<open>C30: A sequence of messages survives the transport: when every message announces its own size
  and respects the limits of the receiver, encoding them one after the other and decoding
  the buffer returns exactly these messages in order, and any part of a further message
  that is not complete yet stays in the buffer.\<close>

theorem TcpCodec_stream_round_trip:
  assumes "list_all (Message_fits opts) ms" "TcpCodec_decode opts part = (Inr None, part)"
  shows "\<exists>buf. foldl (\<lambda>b m. bindR b (TcpCodec_encode m)) (Inr []) ms = Inr buf \<and>
               drain opts (buf @ part) = (ms, part, None)"
proof -
  have "foldl (\<lambda>b m. bindR b (TcpCodec_encode m)) (Inr b0) ms = Inr (b0 @ concat (map Message_bytes ms))" for b0
    using assms(1) by (induction ms arbitrary: b0) (simp_all add: TcpCodec_encode_bytes [of opts])
  moreover have "drain opts (concat (map Message_bytes ms) @ part) = (ms, part, None)"
    using assms
    by (induction ms) (simp_all add: drain_more drain_message [OF TcpCodec_decode_bytes])
  ultimately show ?thesis by simp
qed

definition sample_chunk :: MessageChunk where
  "sample_chunk = \<lparr> mc_data = MessageChunkHeader_bytes \<lparr> ch_message_type = CtMessage, ch_is_final = Final,
     ch_message_size = 14, ch_secure_channel_id = 1 \<rparr> @ [9, 9] \<rparr>"

theorem TcpCodec_stream_round_trip_witness:
  "\<exists>buf. foldl (\<lambda>b m. bindR b (TcpCodec_encode m)) (Inr [])
       [MHello (HelloMessage_new [111, 112, 99] 65535 65535 0 0), MChunk sample_chunk] = Inr buf \<and>
     drain DecodingOptions_minimal (buf @ [0x4D, 0x53]) =
       ([MHello (HelloMessage_new [111, 112, 99] 65535 65535 0 0), MChunk sample_chunk], [0x4D, 0x53], None)"
proof (rule TcpCodec_stream_round_trip)
  have "MessageChunk_fits DecodingOptions_minimal sample_chunk"
    by (auto simp: sample_chunk_def MessageChunk_fits_def DecodingOptions_minimal_def DecodingOptions_default_def
        MAX_MESSAGE_SIZE_def)
  then show "list_all (Message_fits DecodingOptions_minimal)
      [MHello (HelloMessage_new [111, 112, 99] 65535 65535 0 0), MChunk sample_chunk]"
    by (simp add: Message_fits_def HelloMessage_new_def HelloMessage_byte_len_def MessageHeader_byte_len_def
        MessageHeader_new_def MESSAGE_HEADER_LEN_def UAString_byte_len_def UAString_from_def UAString_fits_def
        DecodingOptions_minimal_def utf8_valid.simps)
qed (simp add: TcpCodec_decode_def MESSAGE_HEADER_LEN_def)

end
