(* ===== verification/Opc_Secure_Channel.thy ===== *)
theory Opc_Secure_Channel
  imports Opc_Chunk
begin

text \<open>
  The secure channel, \<open>src/lib/src/core/comms/secure_channel.rs\<close>, and what of
  \<open>message_chunk.rs\<close> and \<open>message_chunk_info.rs\<close> needs one. A destination buffer that a
  function fills is an argument, and the buffer afterwards is part of the result. A slice out
  of range, a subtraction below zero and an \<open>unwrap\<close> of nothing are panics. The current time is
  an argument. Logging is left out.
\<close>

section \<open>Slices and unwraps\<close>

definition slice :: "nat \<Rightarrow> nat \<Rightarrow> 'a list \<Rightarrow> 'a list res" where
  "slice i j xs = (if i \<le> j \<and> j \<le> length xs then Inr (take (j - i) (drop i xs)) else Inl Panic)"

definition copy_slice :: "nat \<Rightarrow> nat \<Rightarrow> 'a list \<Rightarrow> 'a list \<Rightarrow> 'a list res" where
  "copy_slice i j src dst =
     (if i \<le> j \<and> j \<le> length dst \<and> length src = j - i then Inr (take i dst @ src @ drop j dst) else Inl Panic)"

definition unwrapR :: "'a res \<Rightarrow> 'a res" where
  "unwrapR m = (case m of Inl (Err _) \<Rightarrow> Inl Panic | _ \<Rightarrow> m)"

definition unwrapO :: "'a option \<Rightarrow> 'a res" where
  "unwrapO x = (case x of None \<Rightarrow> Inl Panic | Some v \<Rightarrow> Inr v)"

section \<open>The channel\<close>

datatype Role = RoleUnknown | RoleClient | RoleServer

datatype MessageSecurityMode = ModeInvalid | ModeNone | ModeSign | ModeSignAndEncrypt

type_synonym channel_keys = "u8 list \<times> AesKey \<times> u8 list"

record SecureChannel =
  sc_role :: Role
  sc_security_policy :: SecurityPolicy
  sc_security_mode :: MessageSecurityMode
  sc_secure_channel_id :: u32
  sc_token_created_at :: DateTime
  sc_token_lifetime :: u32
  sc_token_id :: u32
  sc_cert :: "X509 option"
  sc_private_key :: "u8 list option"
  sc_remote_cert :: "X509 option"
  sc_remote_nonce :: "u8 list"
  sc_local_nonce :: "u8 list"
  sc_remote_keys :: "channel_keys option"
  sc_local_keys :: "channel_keys option"
  sc_decoding_options :: DecodingOptions

text \<open>The certificate store is outside: \<open>own\<close> is the certificate and key it returns, if it has
  them.\<close>

definition SecureChannel_new :: "(X509 \<times> u8 list) option \<Rightarrow> Role \<Rightarrow> DecodingOptions \<Rightarrow> DateTime \<Rightarrow> SecureChannel" where
  "SecureChannel_new own role opts now =
     \<lparr> sc_role = role, sc_security_policy = SpNone, sc_security_mode = ModeNone, sc_secure_channel_id = 0,
       sc_token_created_at = now, sc_token_lifetime = 0, sc_token_id = 0,
       sc_cert = map_option fst own, sc_private_key = map_option snd own, sc_remote_cert = None,
       sc_remote_nonce = [], sc_local_nonce = [], sc_remote_keys = None, sc_local_keys = None,
       sc_decoding_options = opts \<rparr>"

definition clear_security_token :: "DateTime \<Rightarrow> SecureChannel \<Rightarrow> SecureChannel" where
  "clear_security_token now sc =
     sc \<lparr> sc_secure_channel_id := 0, sc_token_id := 0, sc_token_created_at := now, sc_token_lifetime := 0 \<rparr>"

record ChannelSecurityToken =
  tk_channel_id :: u32
  tk_token_id :: u32
  tk_created_at :: DateTime
  tk_revised_lifetime :: u32

definition set_security_token :: "DateTime \<Rightarrow> ChannelSecurityToken \<Rightarrow> SecureChannel \<Rightarrow> SecureChannel" where
  "set_security_token now tok sc =
     sc \<lparr> sc_secure_channel_id := tk_channel_id tok, sc_token_id := tk_token_id tok,
          sc_token_created_at := now, sc_token_lifetime := tk_revised_lifetime tok \<rparr>"

definition set_decoding_options :: "DecodingOptions \<Rightarrow> SecureChannel \<Rightarrow> SecureChannel" where
  "set_decoding_options opts sc =
     sc \<lparr> sc_decoding_options := opts \<lparr> client_offset := client_offset (sc_decoding_options sc) \<rparr> \<rparr>"

definition ms_ns :: int where "ms_ns = 1000000"

text \<open>Durations are in nanoseconds. The product is computed on 32 bits and overflows into a panic.\<close>

definition should_renew_security_token :: "DateTime \<Rightarrow> SecureChannel \<Rightarrow> bool res" where
  "should_renew_security_token now sc =
     (if sc_token_id sc = 0 then Inr False
      else if unat (sc_token_lifetime sc) * 3 \<ge> 2 ^ 32 then Inl Panic
      else
        let renew_lifetime = unat (sc_token_lifetime sc) * 3 div 4
        in Inr (DateTime_diff now (sc_token_created_at sc) > int renew_lifetime * ms_ns))"

definition token_has_expired :: "DateTime \<Rightarrow> SecureChannel \<Rightarrow> bool" where
  "token_has_expired now sc \<longleftrightarrow>
     date_time now \<ge> date_time (DateTime_add (sc_token_created_at sc) (int (unat (sc_token_lifetime sc)) * NANOS_PER_SECOND))"

definition make_security_header :: "openssl \<Rightarrow> SecureChannel \<Rightarrow> MessageChunkType \<Rightarrow> SecurityHeader res" where
  "make_security_header ssl sc ty =
     (if ty = CtOpenSecureChannel then
        mapR Asymmetric
          (if sc_security_policy sc = SpNone then AsymmetricSecurityHeader_none
           else
             bindR (case sc_remote_cert sc of
                      Some cert \<Rightarrow> mapR ByteString_from (X509_thumbprint ssl cert)
                    | None \<Rightarrow> Inr ByteString_null) (\<lambda>thumbprint.
             bindR (unwrapO (sc_cert sc)) (\<lambda>cert.
               AsymmetricSecurityHeader_new (sc_security_policy sc) cert thumbprint)))
      else Inr (Symmetric \<lparr> sh_token_id = sc_token_id sc \<rparr>))"

definition create_random_nonce :: "(nat \<Rightarrow> u8 list) \<Rightarrow> SecureChannel \<Rightarrow> SecureChannel" where
  "create_random_nonce random_bytes sc =
     sc \<lparr> sc_local_nonce := random_bytes (secure_channel_nonce_length (sc_security_policy sc)) \<rparr>"

definition set_remote_cert_from_byte_string :: "openssl \<Rightarrow> ByteString \<Rightarrow> SecureChannel \<Rightarrow> SecureChannel res" where
  "set_remote_cert_from_byte_string ssl cert sc =
     (if ByteString_is_null cert then Inr (sc \<lparr> sc_remote_cert := None \<rparr>)
      else mapR (\<lambda>c. sc \<lparr> sc_remote_cert := Some c \<rparr>) (X509_from_byte_string ssl cert))"

definition set_remote_nonce_from_byte_string :: "ByteString \<Rightarrow> SecureChannel \<Rightarrow> SecureChannel res" where
  "set_remote_nonce_from_byte_string nonce sc =
     (case bs_value nonce of
        Some n \<Rightarrow>
          if sc_security_policy sc \<noteq> SpNone \<and> length n \<noteq> secure_channel_nonce_length (sc_security_policy sc)
          then Inl (Err BadNonceInvalid)
          else Inr (sc \<lparr> sc_remote_nonce := n \<rparr>)
      | None \<Rightarrow> if sc_security_policy sc \<noteq> SpNone then Inl (Err BadNonceInvalid) else Inr sc)"

definition derive_keys :: "openssl \<Rightarrow> SecureChannel \<Rightarrow> SecureChannel res" where
  "derive_keys ssl sc =
     bindR (make_secure_channel_keys ssl (sc_security_policy sc) (sc_local_nonce sc) (sc_remote_nonce sc)) (\<lambda>remote_keys.
     bindR (make_secure_channel_keys ssl (sc_security_policy sc) (sc_remote_nonce sc) (sc_local_nonce sc)) (\<lambda>local_keys.
       Inr (sc \<lparr> sc_remote_keys := Some remote_keys, sc_local_keys := Some local_keys \<rparr>)))"

definition local_nonce_as_byte_string :: "SecureChannel \<Rightarrow> ByteString" where
  "local_nonce_as_byte_string sc =
     (if sc_local_nonce sc = [] then ByteString_null else ByteString_from (sc_local_nonce sc))"

definition remote_nonce_as_byte_string :: "SecureChannel \<Rightarrow> ByteString" where
  "remote_nonce_as_byte_string sc =
     (if sc_remote_nonce sc = [] then ByteString_null else ByteString_from (sc_remote_nonce sc))"

section \<open>Signature and padding sizes\<close>

definition signature_size :: "openssl \<Rightarrow> SecureChannel \<Rightarrow> SecurityHeader \<Rightarrow> nat res" where
  "signature_size ssl sc h =
     (case h of
        Asymmetric a \<Rightarrow>
          if \<not> ByteString_is_null (sender_certificate a) then
            bindR (unwrapR (X509_from_byte_string ssl (sender_certificate a))) (\<lambda>x509.
            bindR (unwrapR (X509_public_key ssl x509)) (\<lambda>key. Inr (PublicKey_size ssl key)))
          else Inr 0
      | Symmetric _ \<Rightarrow> symmetric_signature_size (sc_security_policy sc))"

definition minimum_padding :: "nat \<Rightarrow> nat" where
  "minimum_padding key_length = (if key_length \<le> 256 then 1 else 2)"

definition padding_size :: "openssl \<Rightarrow> SecureChannel \<Rightarrow> SecurityHeader \<Rightarrow> nat \<Rightarrow> nat \<Rightarrow> (nat \<times> nat) res" where
  "padding_size ssl sc h body_size sig_size =
     (if sc_security_policy sc \<noteq> SpNone \<and> sc_security_mode sc \<noteq> ModeNone then
        bindR
          (case h of
             Asymmetric a \<Rightarrow>
               if ByteString_is_null (sender_certificate a) then
                 mapR (\<lambda>b. (b, sig_size)) (plain_block_size (sc_security_policy sc))
               else
                 bindR (asymmetric_encryption_padding (sc_security_policy sc)) (\<lambda>padding.
                 bindR (unwrapO (sc_remote_cert sc)) (\<lambda>x509.
                 bindR (unwrapR (X509_public_key ssl x509)) (\<lambda>pk.
                 bindR (plain_text_block_size (PublicKey_size ssl pk) padding) (\<lambda>b.
                   Inr (b, PublicKey_size ssl pk)))))
           | Symmetric _ \<Rightarrow> mapR (\<lambda>b. (b, sig_size)) (plain_block_size (sc_security_policy sc)))
          (\<lambda>(block, key_length).
             let min_padding = minimum_padding key_length;
                 encrypt_size = 8 + body_size + sig_size + min_padding
             in if block = 0 then Inl Panic
                else
                  let padding = (if encrypt_size mod block \<noteq> 0 then block - encrypt_size mod block else 0)
                  in Inr (min_padding + padding, min_padding))
      else Inr (0, 0))"

section \<open>Chunk information\<close>

record ChunkInfo =
  ci_message_header :: MessageChunkHeader
  ci_security_header :: SecurityHeader
  ci_sequence_header :: SequenceHeader
  ci_security_header_offset :: nat
  ci_sequence_header_offset :: nat
  ci_body_offset :: nat
  ci_body_length :: nat

definition ChunkInfo_new :: "MessageChunk \<Rightarrow> SecureChannel \<Rightarrow> ChunkInfo res" where
  "ChunkInfo_new chunk sc =
     (let data = mc_data chunk; opts = sc_decoding_options sc in
      bindR (MessageChunkHeader_decode opts data) (\<lambda>(message_header, s1).
      let security_header_offset = length data - length s1 in
      bindR (if MessageChunk_is_open_secure_channel chunk opts then
               bindR (map_err BadCommunicationError (AsymmetricSecurityHeader_decode opts s1)) (\<lambda>(h, s2).
                 let policy = (if UAString_is_null (security_policy_uri h) then SpNone
                               else from_uri (UAString_as_ref (security_policy_uri h)))
                 in if policy = SpUnknown then Inl (Err BadSecurityPolicyRejected)
                    else Inr (Asymmetric h, s2))
             else
               bindR (map_err BadCommunicationError (SymmetricSecurityHeader_decode opts s1)) (\<lambda>(h, s2).
                 Inr (Symmetric h, s2))) (\<lambda>(security_header, s2).
      let sequence_header_offset = length data - length s2 in
      bindR (map_err BadCommunicationError (SequenceHeader_decode opts s2)) (\<lambda>(sequence_header, s3).
      let body_offset = length data - length s3 in
        Inr \<lparr> ci_message_header = message_header, ci_security_header = security_header,
              ci_sequence_header = sequence_header, ci_security_header_offset = security_header_offset,
              ci_sequence_header_offset = sequence_header_offset, ci_body_offset = body_offset,
              ci_body_length = length data - body_offset \<rparr>))))"

section \<open>Applying security\<close>

definition update_message_size :: "u8 list \<Rightarrow> nat \<Rightarrow> DecodingOptions \<Rightarrow> u8 list res" where
  "update_message_size data message_size opts =
     bindR (MessageChunkHeader_decode opts data) (\<lambda>(message_header, _).
     bindR (MessageChunkHeader_encode (message_header \<lparr> ch_message_size := of_nat message_size \<rparr>) []) (\<lambda>(_, header).
       Inr (cursor_write header data)))"

definition update_message_size_and_truncate :: "u8 list \<Rightarrow> nat \<Rightarrow> DecodingOptions \<Rightarrow> u8 list res" where
  "update_message_size_and_truncate data message_size opts =
     mapR (take message_size) (update_message_size data message_size opts)"

definition padding_bytes :: "nat \<Rightarrow> nat \<Rightarrow> u8 list" where
  "padding_bytes padding min_padding =
     (if padding > 0 then
        if min_padding = 1 then replicate padding (of_nat (padding - 1))
        else if min_padding = 2 then
          replicate (padding - 1) (of_nat (padding - 2)) @ [of_nat ((padding - 2) div 256)]
        else []
      else [])"

definition add_space_for_padding_and_signature :: "openssl \<Rightarrow> SecureChannel \<Rightarrow> MessageChunk \<Rightarrow> u8 list res" where
  "add_space_for_padding_and_signature ssl sc chunk =
     bindR (ChunkInfo_new chunk sc) (\<lambda>chunk_info.
     let data = mc_data chunk; security_header = ci_security_header chunk_info in
     bindR (signature_size ssl sc security_header) (\<lambda>sig_size.
     bindR (padding_size ssl sc security_header (ci_body_length chunk_info) sig_size) (\<lambda>(padding, min_padding).
     update_message_size_and_truncate
       (data @ padding_bytes padding min_padding @ replicate sig_size 0)
       (length data + padding + sig_size) (sc_decoding_options sc))))"

definition expect_supported_security_policy :: "SecureChannel \<Rightarrow> unit res" where
  "expect_supported_security_policy sc =
     (case sc_security_policy sc of
        Basic128Rsa15 \<Rightarrow> Inr ()
      | Basic256 \<Rightarrow> Inr ()
      | Basic256Sha256 \<Rightarrow> Inr ()
      | Aes128Sha256RsaOaep \<Rightarrow> Inr ()
      | Aes256Sha256RsaPss \<Rightarrow> Inr ()
      | SpNone \<Rightarrow> Inl Panic
      | SpUnknown \<Rightarrow> Inl Panic)"

text \<open>A range is given by its end when it starts at zero and by a pair otherwise.\<close>

definition channel_symmetric_sign :: "openssl \<Rightarrow> SecureChannel \<Rightarrow> u8 list \<Rightarrow> nat \<Rightarrow> u8 list \<Rightarrow> (nat \<times> u8 list) res" where
  "channel_symmetric_sign ssl sc src signed_end dst =
     bindR (symmetric_signature_size (sc_security_policy sc)) (\<lambda>sig_size.
     bindR (unwrapO (sc_local_keys sc)) (\<lambda>(signing_key, _, _).
     bindR (slice 0 signed_end src) (\<lambda>signed_data.
     bindR (symmetric_sign ssl (sc_security_policy sc) signing_key signed_data (replicate sig_size 0)) (\<lambda>signature.
     bindR (copy_slice 0 signed_end signed_data dst) (\<lambda>dst1.
     bindR (copy_slice signed_end (signed_end + sig_size) signature dst1) (\<lambda>dst2.
       Inr (signed_end + sig_size, dst2)))))))"

definition symmetric_sign_and_encrypt ::
  "openssl \<Rightarrow> SecureChannel \<Rightarrow> u8 list \<Rightarrow> nat \<Rightarrow> nat \<times> nat \<Rightarrow> u8 list \<Rightarrow> (nat \<times> u8 list) res" where
  "symmetric_sign_and_encrypt ssl sc src signed_end encrypted dst =
     (case sc_security_mode sc of
        ModeNone \<Rightarrow> mapR (\<lambda>d. (length src, d)) (copy_slice 0 (length dst) src dst)
      | ModeSign \<Rightarrow>
          bindR (expect_supported_security_policy sc) (\<lambda>_. channel_symmetric_sign ssl sc src signed_end dst)
      | ModeSignAndEncrypt \<Rightarrow>
          bindR (expect_supported_security_policy sc) (\<lambda>_.
          bindR (channel_symmetric_sign ssl sc src signed_end (replicate (length dst + 16) 0)) (\<lambda>(_, dst_tmp).
          bindR (unwrapO (sc_local_keys sc)) (\<lambda>(_, key, iv).
          bindR (slice (fst encrypted) (snd encrypted) dst_tmp) (\<lambda>plain.
          bindR (slice (fst encrypted) (snd encrypted + 16) dst) (\<lambda>room.
          bindR (symmetric_encrypt ssl key iv plain room) (\<lambda>(encrypted_size, room').
          bindR (copy_slice (fst encrypted) (snd encrypted + 16) room' dst) (\<lambda>dst1.
          bindR (slice 0 (fst encrypted) dst_tmp) (\<lambda>header.
          bindR (copy_slice 0 (fst encrypted) header dst1) (\<lambda>dst2.
            Inr (fst encrypted + encrypted_size, dst2))))))))))
      | ModeInvalid \<Rightarrow> Inl Panic)"

definition asymmetric_sign_and_encrypt ::
  "openssl \<Rightarrow> SecureChannel \<Rightarrow> SecurityPolicy \<Rightarrow> u8 list \<Rightarrow> nat \<times> nat \<Rightarrow> u8 list \<Rightarrow> (nat \<times> u8 list) res" where
  "asymmetric_sign_and_encrypt ssl sc policy src encrypted dst =
     (let header_size = fst encrypted in
      bindR (unwrapO (sc_private_key sc)) (\<lambda>signing_key.
      let signing_key_size = PrivateKey_size ssl signing_key in
      bindR (checked_sub (snd encrypted) signing_key_size) (\<lambda>signed_end.
      bindR (unwrapO (sc_remote_cert sc)) (\<lambda>remote_cert.
      bindR (X509_public_key ssl remote_cert) (\<lambda>encryption_key.
      bindR (slice 0 signed_end src) (\<lambda>signed_src.
      bindR (copy_slice 0 signed_end signed_src (replicate (snd encrypted) 0)) (\<lambda>tmp.
      bindR (asymmetric_encryption_padding policy) (\<lambda>padding.
      bindR (checked_sub (snd encrypted) (fst encrypted)) (\<lambda>plain_text_size.
      bindR (calculate_cipher_text_size (PublicKey_size ssl encryption_key) plain_text_size padding) (\<lambda>cipher_text_size.
      bindR (update_message_size tmp (header_size + cipher_text_size) (sc_decoding_options sc)) (\<lambda>tmp1.
      bindR (slice 0 signed_end tmp1) (\<lambda>signed_data.
      bindR (asymmetric_sign ssl policy signing_key signed_data (replicate signing_key_size 0)) (\<lambda>(_, signature).
      bindR (copy_slice signed_end (snd encrypted) signature tmp1) (\<lambda>tmp2.
      bindR (slice 0 (fst encrypted) tmp2) (\<lambda>header.
      bindR (copy_slice 0 (fst encrypted) header dst) (\<lambda>dst1.
      bindR (slice (fst encrypted) (snd encrypted) tmp2) (\<lambda>plain.
      bindR (asymmetric_encrypt ssl policy encryption_key plain (length dst1 - fst encrypted)) (\<lambda>out.
        if length out \<noteq> cipher_text_size then Inl Panic
        else Inr (header_size + length out, take header_size dst1 @ out @ drop (header_size + length out) dst1)))))))))))))))))))"

definition channel_secures :: "SecureChannel \<Rightarrow> bool" where
  "channel_secures sc \<longleftrightarrow>
     sc_security_policy sc \<noteq> SpNone \<and> (sc_security_mode sc = ModeSign \<or> sc_security_mode sc = ModeSignAndEncrypt)"

definition apply_security :: "openssl \<Rightarrow> SecureChannel \<Rightarrow> MessageChunk \<Rightarrow> u8 list \<Rightarrow> (nat \<times> u8 list) res" where
  "apply_security ssl sc chunk dst =
     (if channel_secures sc then
        bindR (ChunkInfo_new chunk sc) (\<lambda>chunk_info.
        bindR (add_space_for_padding_and_signature ssl sc chunk) (\<lambda>data.
        let encrypted = (ci_sequence_header_offset chunk_info, length data) in
        if MessageChunk_is_open_secure_channel chunk (sc_decoding_options sc) then
          asymmetric_sign_and_encrypt ssl sc (sc_security_policy sc) data encrypted dst
        else
          bindR (symmetric_signature_size (sc_security_policy sc)) (\<lambda>sig_size.
          bindR (checked_sub (length data) sig_size) (\<lambda>signed_end.
            symmetric_sign_and_encrypt ssl sc data signed_end encrypted dst))))
      else
        let n = length (mc_data chunk) in
        if n > length dst then Inl Panic
        else mapR (\<lambda>d. (n, d)) (copy_slice 0 n (mc_data chunk) dst))"

section \<open>Verifying and removing security\<close>

definition check_padding_bytes :: "u8 list \<Rightarrow> u8 \<Rightarrow> unit res" where
  "check_padding_bytes bytes expected =
     (if list_all (\<lambda>b. b = expected) bytes then Inr () else Inl (Err BadSecurityChecksFailed))"

text \<open>The result is the start of the padding; its end is the argument \<open>padding_end\<close>.\<close>

definition verify_padding :: "u8 list \<Rightarrow> nat \<Rightarrow> nat \<Rightarrow> nat res" where
  "verify_padding src key_size padding_end =
     (if key_size > 256 then
        bindR (checked_sub padding_end 2) (\<lambda>i.
        if length src \<le> padding_end - 1 then Inl Panic
        else
          let padding_byte = src ! i;
              extra_padding_byte = src ! (padding_end - 1);
              padding = unat extra_padding_byte * 256 + unat padding_byte
          in bindR (checked_sub padding_end (padding + 2)) (\<lambda>start.
             bindR (slice start (padding_end - 1) src) (\<lambda>bytes.
             bindR (check_padding_bytes bytes padding_byte) (\<lambda>_.
               if src ! (padding_end - 1) \<noteq> extra_padding_byte then Inl (Err BadSecurityChecksFailed)
               else Inr start))))
      else
        bindR (checked_sub padding_end 1) (\<lambda>i.
        if length src \<le> i then Inl Panic
        else
          let padding_byte = src ! i in
          bindR (checked_sub padding_end (unat padding_byte + 1)) (\<lambda>start.
          bindR (slice start padding_end src) (\<lambda>bytes.
          bindR (check_padding_bytes bytes padding_byte) (\<lambda>_. Inr start)))))"

definition asymmetric_decrypt_and_verify ::
  "openssl \<Rightarrow> SecureChannel \<Rightarrow> SecurityPolicy \<Rightarrow> u8 list \<Rightarrow> ByteString \<Rightarrow> u8 list \<Rightarrow> nat \<times> nat \<Rightarrow> u8 list option
    \<Rightarrow> u8 list \<Rightarrow> (nat \<times> u8 list) res" where
  "asymmetric_decrypt_and_verify ssl sc policy verification_key receiver_thumbprint src encrypted their_key dst =
     (if \<not> is_supported policy then Inl (Err BadSecurityPolicyRejected)
      else
        bindR (unwrapO (sc_cert sc)) (\<lambda>our_cert.
        bindR (X509_thumbprint ssl our_cert) (\<lambda>our_thumbprint.
        if our_thumbprint \<noteq> ByteString_as_ref receiver_thumbprint then Inl (Err BadNoValidCertificates)
        else
          bindR (slice 0 (fst encrypted) src) (\<lambda>header.
          bindR (copy_slice 0 (fst encrypted) header dst) (\<lambda>dst1.
          bindR (checked_sub (snd encrypted) (fst encrypted)) (\<lambda>encrypted_size.
          bindR (unwrapO (sc_private_key sc)) (\<lambda>private_key.
          bindR (slice (fst encrypted) (snd encrypted) src) (\<lambda>cipher_text.
          bindR (asymmetric_decrypt ssl policy private_key cipher_text encrypted_size) (\<lambda>decrypted.
          bindR (copy_slice (fst encrypted) (fst encrypted + length decrypted) decrypted dst1) (\<lambda>dst2.
          bindR (checked_sub (fst encrypted + length decrypted) (PublicKey_size ssl verification_key)) (\<lambda>signature_offset.
          let key_size = (case X509_public_key ssl our_cert of
                            Inr key \<Rightarrow> PublicKey_size ssl key
                          | Inl _ \<Rightarrow> PublicKey_size ssl verification_key) in
          bindR (slice 0 signature_offset dst2) (\<lambda>signed_data.
          bindR (slice signature_offset (signature_offset + PublicKey_size ssl verification_key) dst2) (\<lambda>signature.
          bindR (asymmetric_verify_signature ssl policy verification_key signed_data signature their_key) (\<lambda>_.
          bindR (verify_padding dst2 key_size signature_offset) (\<lambda>padding_start.
            Inr (padding_start, dst2))))))))))))))))"

definition symmetric_decrypt_and_verify ::
  "openssl \<Rightarrow> SecureChannel \<Rightarrow> u8 list \<Rightarrow> nat \<Rightarrow> nat \<times> nat \<Rightarrow> u8 list \<Rightarrow> (nat \<times> u8 list) res" where
  "symmetric_decrypt_and_verify ssl sc src signed_end encrypted dst =
     (case sc_security_mode sc of
        ModeNone \<Rightarrow> mapR (\<lambda>d. (length src, d)) (copy_slice 0 (length dst) src dst)
      | ModeSign \<Rightarrow>
          bindR (expect_supported_security_policy sc) (\<lambda>_.
          bindR (copy_slice 0 (length src) src dst) (\<lambda>dst1.
          bindR (unwrapO (sc_remote_keys sc)) (\<lambda>(verification_key, _, _).
          bindR (slice 0 signed_end dst1) (\<lambda>signed_data.
          bindR (slice signed_end (length dst1) dst1) (\<lambda>signature.
          bindR (symmetric_verify_signature ssl (sc_security_policy sc) verification_key signed_data signature) (\<lambda>_.
            Inr (snd encrypted, dst1)))))))
      | ModeSignAndEncrypt \<Rightarrow>
          bindR (expect_supported_security_policy sc) (\<lambda>_.
          bindR (checked_sub (snd encrypted) (fst encrypted)) (\<lambda>ciphertext_size.
          bindR (slice 0 (fst encrypted) src) (\<lambda>header.
          bindR (copy_slice 0 (fst encrypted) header dst) (\<lambda>dst1.
          bindR (unwrapO (sc_remote_keys sc)) (\<lambda>(verification_key, key, iv).
          bindR (slice (fst encrypted) (snd encrypted) src) (\<lambda>cipher_text.
          bindR (symmetric_decrypt ssl key iv cipher_text (replicate (ciphertext_size + 16) 0)) (\<lambda>(decrypted_size, tmp).
          bindR (slice 0 decrypted_size tmp) (\<lambda>plain.
          bindR (copy_slice (fst encrypted) (fst encrypted + decrypted_size) plain dst1) (\<lambda>dst2.
          bindR (symmetric_signature_size (sc_security_policy sc)) (\<lambda>sig_size.
          bindR (checked_sub (fst encrypted + decrypted_size) sig_size) (\<lambda>signature_start.
          bindR (slice 0 signed_end dst2) (\<lambda>signed_data.
          bindR (slice signature_start (fst encrypted + decrypted_size) dst2) (\<lambda>signature.
          bindR (symmetric_verify_signature ssl (sc_security_policy sc) verification_key signed_data signature) (\<lambda>_.
            Inr (fst encrypted + decrypted_size, dst2)))))))))))))))
      | ModeInvalid \<Rightarrow> Inl Panic)"

text \<open>The policy of the channel changes when an open secure channel message names another one, so
  the channel is part of the result.\<close>

definition verify_and_remove_security_forensic ::
  "openssl \<Rightarrow> u8 list \<Rightarrow> u8 list option \<Rightarrow> SecureChannel \<Rightarrow> MessageChunk res \<times> SecureChannel" where
  "verify_and_remove_security_forensic ssl src their_key sc =
     (case bindR (MessageChunkHeader_decode (sc_decoding_options sc) src) (\<lambda>(message_header, s).
           bindR (decode_security_header (ch_message_type message_header) (sc_decoding_options sc) s) (\<lambda>(security_header, s').
             Inr (message_header, security_header, length src - length s'))) of
        Inl e \<Rightarrow> (Inl e, sc)
      | Inr (message_header, security_header, encrypted_data_offset) \<Rightarrow>
          let message_size = unat (ch_message_size message_header) in
          if message_size \<noteq> length src then (Inl (Err BadUnexpectedError), sc)
          else (case security_header of
              Asymmetric h \<Rightarrow>
                let policy = from_uri (UAString_as_ref (security_policy_uri h)) in
                if policy = SpUnknown then (Inl (Err BadSecurityPolicyRejected), sc)
                else if policy = SpNone then (Inr \<lparr> mc_data = src \<rparr>, sc)
                else
                  (bindR (unwrapO (bs_value (sender_certificate h))) (\<lambda>_.
                   bindR (X509_from_byte_string ssl (sender_certificate h)) (\<lambda>cert.
                   bindR (X509_public_key ssl cert) (\<lambda>verification_key.
                   bindR (asymmetric_decrypt_and_verify ssl (sc \<lparr> sc_security_policy := policy \<rparr>) policy verification_key
                            (receiver_certificate_thumbprint h) src (encrypted_data_offset, message_size) their_key
                            (replicate message_size 0)) (\<lambda>(decrypted_size, decrypted_data).
                   mapR (\<lambda>d. \<lparr> mc_data = d \<rparr>)
                     (update_message_size_and_truncate decrypted_data decrypted_size (sc_decoding_options sc)))))),
                   sc \<lparr> sc_security_policy := policy \<rparr>)
            | Symmetric _ \<Rightarrow>
                if channel_secures sc then
                  (bindR (symmetric_signature_size (sc_security_policy sc)) (\<lambda>sig_size.
                   bindR (checked_sub message_size sig_size) (\<lambda>signed_end.
                   bindR (symmetric_decrypt_and_verify ssl sc src signed_end (encrypted_data_offset, message_size)
                            (replicate message_size 0)) (\<lambda>(decrypted_size, decrypted_data).
                   bindR (checked_sub decrypted_size sig_size) (\<lambda>n.
                   mapR (\<lambda>d. \<lparr> mc_data = d \<rparr>)
                     (update_message_size_and_truncate decrypted_data n (sc_decoding_options sc)))))), sc)
                else (Inr \<lparr> mc_data = src \<rparr>, sc)))"

definition verify_and_remove_security :: "openssl \<Rightarrow> u8 list \<Rightarrow> SecureChannel \<Rightarrow> MessageChunk res \<times> SecureChannel" where
  "verify_and_remove_security ssl src sc = verify_and_remove_security_forensic ssl src None sc"

section \<open>Making chunks\<close>

definition MessageChunk_new ::
  "openssl \<Rightarrow> u32 \<Rightarrow> u32 \<Rightarrow> MessageChunkType \<Rightarrow> MessageIsFinalType \<Rightarrow> SecureChannel \<Rightarrow> u8 list \<Rightarrow> MessageChunk res" where
  "MessageChunk_new ssl sequence_no request ty fin sc data =
     bindR (make_security_header ssl sc ty) (\<lambda>security_header.
     let sequence_header = \<lparr> sequence_number = sequence_no, request_id = request \<rparr>;
         message_size = MESSAGE_CHUNK_HEADER_SIZE + SecurityHeader_byte_len security_header
           + SequenceHeader_byte_len sequence_header + length data;
         chunk_header = \<lparr> ch_message_type = ty, ch_is_final = fin, ch_message_size = of_nat message_size,
           ch_secure_channel_id = sc_secure_channel_id sc \<rparr>
     in bindR (thenW (MessageChunkHeader_encode chunk_header)
              (thenW (SecurityHeader_encode security_header)
              (thenW (SequenceHeader_encode sequence_header) (writeW data))) []) (\<lambda>(_, bytes).
          Inr \<lparr> mc_data = cursor_write bytes (replicate message_size 0) \<rparr>))"

definition body_size_from_message_size ::
  "openssl \<Rightarrow> MessageChunkType \<Rightarrow> SecureChannel \<Rightarrow> nat \<Rightarrow> nat option res" where
  "body_size_from_message_size ssl ty sc message_size =
     (if message_size < MIN_CHUNK_SIZE then Inr None
      else
        bindR (make_security_header ssl sc ty) (\<lambda>security_header.
        bindR (signature_size ssl sc security_header) (\<lambda>sig_size.
        bindR (padding_size ssl sc security_header 1 sig_size) (\<lambda>(padding, _).
        let data_size = MESSAGE_CHUNK_HEADER_SIZE + SecurityHeader_byte_len security_header
          + SequenceHeader_byte_len \<lparr> sequence_number = 0, request_id = 0 \<rparr> + padding + sig_size
        in mapR Some (checked_sub message_size data_size)))))"

end
