(* ===== verification/Opc_Channel_Security.thy ===== *)
theory Opc_Channel_Security
  imports Opc_Secure_Channel
begin

text \<open>
  What the secure channel guarantees for symmetric messages: padding to whole blocks, keys that
  agree at both ends, verification as the inverse of signing and encrypting, rejection of
  anything that is not signed with the key, and the inputs on which the code panics.
\<close>

section \<open>Slices\<close>

lemma slice_prefix: "length xs = n \<Longrightarrow> slice 0 n (xs @ ys) = Inr xs"
  by (simp add: slice_def)

lemma slice_all: "length xs = n \<Longrightarrow> slice 0 n xs = Inr xs"
  by (simp add: slice_def)

lemma slice_suffix: "length xs = i \<Longrightarrow> length xs + length ys = j \<Longrightarrow> slice i j (xs @ ys) = Inr ys"
  by (auto simp: slice_def)

lemma slice_mid: "length xs = i \<Longrightarrow> length xs + length ys = j \<Longrightarrow> slice i j (xs @ ys @ zs) = Inr ys"
  by (auto simp: slice_def)

lemma slice_drop: "i \<le> j \<Longrightarrow> j \<le> length xs \<Longrightarrow> slice i j xs = Inr (take (j - i) (drop i xs))"
  by (simp add: slice_def)

lemma copy_slice_front: "length src = n \<Longrightarrow> n \<le> length dst \<Longrightarrow> copy_slice 0 n src dst = Inr (src @ drop n dst)"
  by (simp add: copy_slice_def)

lemma copy_slice_mid:
  "length xs = i \<Longrightarrow> i \<le> j \<Longrightarrow> length src = j - i \<Longrightarrow> j \<le> length xs + length ys \<Longrightarrow>
     copy_slice i j src (xs @ ys) = Inr (xs @ src @ drop (j - i) ys)"
  by (auto simp: copy_slice_def)

lemmas slice_simps = slice_prefix slice_all slice_suffix slice_mid copy_slice_front copy_slice_mid

lemma checked_sub_le: "n \<le> m \<Longrightarrow> checked_sub m n = Inr (m - n)"
  by (simp add: checked_sub_def)

section \<open>Padding\<close>

definition sym_padding :: "nat \<Rightarrow> nat \<Rightarrow> nat" where
  "sym_padding body_size sig_size =
     1 + (if (8 + body_size + sig_size + 1) mod 16 \<noteq> 0 then 16 - (8 + body_size + sig_size + 1) mod 16 else 0)"

lemma sym_padding_bounds: "1 \<le> sym_padding b s" "sym_padding b s \<le> 16"
  by (simp_all add: sym_padding_def, linarith)

lemma sym_padding_aligned: "(8 + b + sym_padding b s + s) mod 16 = 0"
proof -
  define e where "e = 8 + b + s + 1"
  have "(e + (if e mod 16 \<noteq> 0 then 16 - e mod 16 else 0)) mod 16 = 0" by presburger
  moreover have "8 + b + sym_padding b s + s = e + (if e mod 16 \<noteq> 0 then 16 - e mod 16 else 0)"
    by (simp add: sym_padding_def e_def)
  ultimately show ?thesis by simp
qed

lemma digest_size_le [simp]: "digest_size d \<le> 256"
  by (cases d) (simp_all add: digest_size_def SHA1_SIZE_def SHA256_SIZE_def)

lemma channel_secures_secured:
  "channel_secures sc \<Longrightarrow> sc_security_policy sc \<noteq> SpUnknown \<Longrightarrow> secured (sc_security_policy sc)"
  by (simp add: channel_secures_def secured_def)

lemma padding_size_symmetric:
  assumes "secured (sc_security_policy sc)" "sc_security_mode sc \<noteq> ModeNone" "s \<le> 256"
  shows "padding_size ssl sc (Symmetric t) b s = Inr (sym_padding b s, 1)"
  using assms
  by (simp add: padding_size_def secured_def sym_padding_def minimum_padding_def Let_def plain_block_size_def)

section \<open>Symmetric chunks\<close>

definition symmetric_chunk :: "MessageChunkHeader \<Rightarrow> u32 \<Rightarrow> SequenceHeader \<Rightarrow> u8 list \<Rightarrow> u8 list" where
  "symmetric_chunk h token seq body =
     MessageChunkHeader_bytes h @ SymmetricSecurityHeader_bytes \<lparr> sh_token_id = token \<rparr> @ SequenceHeader_bytes seq @ body"

lemma length_symmetric_chunk [simp]: "length (symmetric_chunk h token seq body) = 24 + length body"
  by (simp add: symmetric_chunk_def)

lemma symmetric_chunk_append: "symmetric_chunk h token seq body @ s = symmetric_chunk h token seq (body @ s)"
  by (simp add: symmetric_chunk_def)

lemma header_of_symmetric_chunk [simp]:
  "MessageChunkHeader_decode opts (symmetric_chunk h token seq body) =
     Inr (h, SymmetricSecurityHeader_bytes \<lparr> sh_token_id = token \<rparr> @ SequenceHeader_bytes seq @ body)"
  by (simp add: symmetric_chunk_def)

lemma SymmetricSecurityHeader_decode_bytes [simp]:
  "SymmetricSecurityHeader_decode opts (SymmetricSecurityHeader_bytes t @ s) = Inr (t, s)"
  using SymmetricSecurityHeader_codec.decode_reads [of opts t] by (simp add: reads_def)

lemma SequenceHeader_decode_bytes [simp]:
  "SequenceHeader_decode opts (SequenceHeader_bytes q @ s) = Inr (q, s)"
  using SequenceHeader_codec.decode_reads [of opts q] by (simp add: reads_def)

lemma is_open_symmetric_chunk [simp]:
  "MessageChunk_is_open_secure_channel \<lparr> mc_data = symmetric_chunk h token seq body \<rparr> opts \<longleftrightarrow>
     ch_message_type h = CtOpenSecureChannel"
  by (simp add: MessageChunk_is_open_secure_channel_def MessageChunk_message_header_def
      MessageChunkType_is_open_secure_channel_def)

lemma ChunkInfo_symmetric:
  assumes "ch_message_type h \<noteq> CtOpenSecureChannel"
  shows "ChunkInfo_new \<lparr> mc_data = symmetric_chunk h token seq body \<rparr> sc =
    Inr \<lparr> ci_message_header = h, ci_security_header = Symmetric \<lparr> sh_token_id = token \<rparr>, ci_sequence_header = seq,
      ci_security_header_offset = 12, ci_sequence_header_offset = 16, ci_body_offset = 24,
      ci_body_length = length body \<rparr>"
  using assms by (simp add: ChunkInfo_new_def map_err_def Let_def)

lemma update_message_size_symmetric:
  "update_message_size (symmetric_chunk h token seq body) n opts =
     Inr (symmetric_chunk (h \<lparr> ch_message_size := of_nat n \<rparr>) token seq body)"
  by (simp add: update_message_size_def cursor_write_def, simp add: symmetric_chunk_def)

lemma add_space_symmetric:
  assumes "ch_message_type h \<noteq> CtOpenSecureChannel" "secured (sc_security_policy sc)" "sc_security_mode sc \<noteq> ModeNone"
    and s: "s = digest_size (policy_digest (sc_security_policy sc))" and p: "p = sym_padding (length body) s"
  shows "add_space_for_padding_and_signature ssl sc \<lparr> mc_data = symmetric_chunk h token seq body \<rparr> =
    Inr (symmetric_chunk (h \<lparr> ch_message_size := of_nat (24 + length body + p + s) \<rparr>) token seq
          (body @ replicate p (of_nat (p - 1))) @ replicate s 0)"
proof -
  have "0 < p" using sym_padding_bounds(1) [of "length body" s] p by simp
  then show ?thesis
    using assms
    by (simp add: add_space_for_padding_and_signature_def ChunkInfo_symmetric signature_size_def secured_policy
        padding_size_symmetric padding_bytes_def update_message_size_and_truncate_def symmetric_chunk_append
        update_message_size_symmetric del: replicate.simps)
qed

section \<open>Signing and encrypting\<close>

text \<open>The two ends of a channel: the same secured policy and mode, and the keys with which one end
  signs and encrypts are those with which the other end verifies and decrypts.\<close>

definition channel_pair :: "SecureChannel \<Rightarrow> SecureChannel \<Rightarrow> u8 list \<Rightarrow> AesKey \<Rightarrow> u8 list \<Rightarrow> bool" where
  "channel_pair sc rc signing_key key iv \<longleftrightarrow>
     secured (sc_security_policy sc) \<and> sc_security_policy rc = sc_security_policy sc \<and>
     channel_secures sc \<and> sc_security_mode rc = sc_security_mode sc \<and>
     sc_local_keys sc = Some (signing_key, key, iv) \<and> sc_remote_keys rc = Some (signing_key, key, iv) \<and>
     aes_policy key = sc_security_policy sc \<and>
     length (aes_value key) = cipher_key_len (policy_cipher (sc_security_policy sc)) \<and> length iv = 16"

lemma expect_supported_secured: "secured (sc_security_policy sc) \<Longrightarrow> expect_supported_security_policy sc = Inr ()"
  by (cases "sc_security_policy sc") (simp_all add: secured_def expect_supported_security_policy_def)

lemma channel_symmetric_sign_signs:
  assumes "symmetric_laws ssl" "secured (sc_security_policy sc)" "sc_local_keys sc = Some (signing_key, key, iv)"
    and s: "s = digest_size (policy_digest (sc_security_policy sc))"
    and n: "length msg = n" "n + s \<le> length dst"
  shows "channel_symmetric_sign ssl sc (msg @ z) n dst =
    Inr (n + s, msg @ hmac_sign ssl (policy_digest (sc_security_policy sc)) signing_key msg @ drop (n + s) dst)"
  using assms
  by (simp add: channel_symmetric_sign_def secured_policy unwrapO_def symmetric_sign_hmac slice_simps hmac_length
      add.commute)

lemma symmetric_chunk_split:
  "symmetric_chunk h token seq body =
     (MessageChunkHeader_bytes h @ SymmetricSecurityHeader_bytes \<lparr> sh_token_id = token \<rparr>) @ (SequenceHeader_bytes seq @ body)"
  by (simp add: symmetric_chunk_def)

lemma length_chunk_headers [simp]:
  "length (MessageChunkHeader_bytes h @ SymmetricSecurityHeader_bytes t) = 16"
  by simp

lemma verify_strips_signature:
  assumes h: "ch_message_type h \<noteq> CtOpenSecureChannel" "unat (ch_message_size h) = n" "n = 16 + length rest"
    and rc: "channel_secures rc" "secured (sc_security_policy rc)"
    and s: "s = digest_size (policy_digest (sc_security_policy rc))" "length sig = s" "n = 24 + length body + s"
    and plain: "symmetric_decrypt_and_verify ssl rc
       ((MessageChunkHeader_bytes h @ SymmetricSecurityHeader_bytes \<lparr> sh_token_id = token \<rparr>) @ rest)
       (24 + length body) (16, n) (replicate n 0) = Inr (n, symmetric_chunk h token seq body @ sig)"
  shows "verify_and_remove_security ssl
      ((MessageChunkHeader_bytes h @ SymmetricSecurityHeader_bytes \<lparr> sh_token_id = token \<rparr>) @ rest) rc =
    (Inr \<lparr> mc_data = symmetric_chunk (h \<lparr> ch_message_size := of_nat (24 + length body) \<rparr>) token seq body \<rparr>, rc)"
proof -
  let ?src = "(MessageChunkHeader_bytes h @ SymmetricSecurityHeader_bytes \<lparr> sh_token_id = token \<rparr>) @ rest"
  have "verify_and_remove_security ssl ?src rc =
    (bindR (symmetric_signature_size (sc_security_policy rc)) (\<lambda>sig_size.
     bindR (checked_sub n sig_size) (\<lambda>signed_end.
     bindR (symmetric_decrypt_and_verify ssl rc ?src signed_end (16, n) (replicate n 0)) (\<lambda>(decrypted_size, decrypted_data).
     bindR (checked_sub decrypted_size sig_size) (\<lambda>n.
     mapR (\<lambda>d. \<lparr> mc_data = d \<rparr>)
       (update_message_size_and_truncate decrypted_data n (sc_decoding_options rc)))))), rc)"
    using h rc(1)
    by (simp add: verify_and_remove_security_def verify_and_remove_security_forensic_def decode_security_header_def
        mapD_def bindD_def returnD_def Let_def)
  also have "\<dots> = (mapR (\<lambda>d. \<lparr> mc_data = d \<rparr>)
       (update_message_size_and_truncate (symmetric_chunk h token seq body @ sig) (24 + length body)
          (sc_decoding_options rc)), rc)"
  proof -
    have "symmetric_signature_size (sc_security_policy rc) = Inr s" "checked_sub n s = Inr (24 + length body)"
      using rc(2) s by (simp_all add: secured_policy checked_sub_le)
    then show ?thesis using plain by simp
  qed
  also have "\<dots> = (Inr \<lparr> mc_data = symmetric_chunk (h \<lparr> ch_message_size := of_nat (24 + length body) \<rparr>) token seq body \<rparr>, rc)"
    by (simp add: update_message_size_and_truncate_def symmetric_chunk_append update_message_size_symmetric)
      (simp add: symmetric_chunk_def)
  finally show ?thesis .
qed

lemma sign_round_trip:
  assumes ssl: "symmetric_laws ssl" and pair: "channel_pair sc rc signing_key key iv"
    and mode: "sc_security_mode sc = ModeSign"
    and h: "ch_message_type h \<noteq> CtOpenSecureChannel" "unat (ch_message_size h) = n"
    and s: "s = digest_size (policy_digest (sc_security_policy sc))"
    and n: "n = 24 + length body + s" "n \<le> length dst"
  shows "\<exists>tail. symmetric_sign_and_encrypt ssl sc (symmetric_chunk h token seq body @ replicate s 0)
             (24 + length body) (16, n) dst = Inr (n, (MessageChunkHeader_bytes h @ tail) @ drop n dst) \<and>
           12 + length tail = n \<and> verify_and_remove_security ssl (MessageChunkHeader_bytes h @ tail) rc =
             (Inr \<lparr> mc_data = symmetric_chunk (h \<lparr> ch_message_size := of_nat (24 + length body) \<rparr>) token seq body \<rparr>, rc)"
proof -
  let ?msg = "symmetric_chunk h token seq body" and ?d = "policy_digest (sc_security_policy sc)"
  define sig where "sig = hmac_sign ssl ?d signing_key ?msg"
  have sec: "secured (sc_security_policy sc)" "sc_security_policy rc = sc_security_policy sc" "channel_secures rc"
    "sc_security_mode rc = ModeSign"
    using pair mode by (simp_all add: channel_pair_def channel_secures_def)
  have keys: "sc_local_keys sc = Some (signing_key, key, iv)" "sc_remote_keys rc = Some (signing_key, key, iv)"
    using pair by (simp_all add: channel_pair_def)
  have sig: "length sig = s" by (simp add: hmac_length [OF ssl] s sig_def)
  have "symmetric_sign_and_encrypt ssl sc (?msg @ replicate s 0) (24 + length body) (16, n) dst =
      Inr (n, ?msg @ sig @ drop n dst)"
    using mode n channel_symmetric_sign_signs [OF ssl sec(1) keys(1) s, of ?msg "24 + length body" dst "replicate s 0"]
    by (simp add: symmetric_sign_and_encrypt_def expect_supported_secured [OF sec(1)] sig_def)
  moreover have "verify_and_remove_security ssl ((MessageChunkHeader_bytes h @
      SymmetricSecurityHeader_bytes \<lparr> sh_token_id = token \<rparr>) @ (SequenceHeader_bytes seq @ body @ sig)) rc =
      (Inr \<lparr> mc_data = symmetric_chunk (h \<lparr> ch_message_size := of_nat (24 + length body) \<rparr>) token seq body \<rparr>, rc)"
  proof (rule verify_strips_signature [where n = n and s = s])
    have "symmetric_decrypt_and_verify ssl rc (?msg @ sig) (24 + length body) (16, n) (replicate n 0) = Inr (n, ?msg @ sig)"
      using sec sig n expect_supported_secured [of rc]
      by (simp add: symmetric_decrypt_and_verify_def keys unwrapO_def slice_simps symmetric_verify_hmac [OF ssl] sig_def)
    then show "symmetric_decrypt_and_verify ssl rc ((MessageChunkHeader_bytes h @
        SymmetricSecurityHeader_bytes \<lparr> sh_token_id = token \<rparr>) @ (SequenceHeader_bytes seq @ body @ sig))
        (24 + length body) (16, n) (replicate n 0) = Inr (n, ?msg @ sig)"
      by (simp add: symmetric_chunk_def)
  qed (use h sec s sig n in simp_all)
  ultimately show ?thesis
    using sig n
    by (intro exI [where x = "SymmetricSecurityHeader_bytes \<lparr> sh_token_id = token \<rparr> @ SequenceHeader_bytes seq @ body @ sig"])
      (simp add: symmetric_chunk_def)
qed

lemma symmetric_decrypt_verifies:
  assumes ssl: "symmetric_laws ssl" and rc: "secured (sc_security_policy rc)" "sc_security_mode rc = ModeSignAndEncrypt"
      "sc_remote_keys rc = Some (verification_key, key, iv)"
    and hdr: "length hdr = 16" "length out = length plain" "n = 16 + length plain"
    and msg: "hdr @ plain = msg @ sig" "length msg = m"
      "sig = hmac_sign ssl (policy_digest (sc_security_policy rc)) verification_key msg"
    and dec: "\<And>dst. length plain + 16 \<le> length dst \<Longrightarrow>
       symmetric_decrypt ssl key iv out dst = Inr (length plain, plain @ drop (length plain) dst)"
  shows "symmetric_decrypt_and_verify ssl rc (hdr @ out) m (16, n) (replicate n 0) = Inr (n, msg @ sig)"
proof -
  have sig: "length sig = digest_size (policy_digest (sc_security_policy rc))" by (simp add: msg(3) hmac_length [OF ssl])
  have n: "n = m + length sig" using arg_cong [OF msg(1), of length] hdr msg(2) by simp
  have "slice 0 m (hdr @ plain) = Inr msg" "slice m n (hdr @ plain) = Inr sig"
    unfolding msg(1) using msg(2) n by (simp_all add: slice_simps)
  moreover have "checked_sub n 16 = Inr (length plain)"
    "checked_sub n (digest_size (policy_digest (sc_security_policy rc))) = Inr m"
    using n sig hdr by (simp_all add: checked_sub_def)
  ultimately show ?thesis
    using rc hdr dec [of "replicate (length plain + 16) 0"]
    by (simp add: symmetric_decrypt_and_verify_def expect_supported_secured unwrapO_def slice_simps
        secured_policy symmetric_verify_hmac [OF ssl] msg(3) [symmetric] msg(1) [symmetric])
qed

lemma encrypt_round_trip:
  assumes ssl: "symmetric_laws ssl" and pair: "channel_pair sc rc signing_key key iv"
    and mode: "sc_security_mode sc = ModeSignAndEncrypt"
    and h: "ch_message_type h \<noteq> CtOpenSecureChannel" "unat (ch_message_size h) = n"
    and s: "s = digest_size (policy_digest (sc_security_policy sc))"
    and n: "n = 24 + length body + s" "n + 16 \<le> length dst" "(n - 16) mod 16 = 0"
  shows "\<exists>tail. symmetric_sign_and_encrypt ssl sc (symmetric_chunk h token seq body @ replicate s 0)
             (24 + length body) (16, n) dst = Inr (n, (MessageChunkHeader_bytes h @ tail) @ drop n dst) \<and>
           12 + length tail = n \<and> verify_and_remove_security ssl (MessageChunkHeader_bytes h @ tail) rc =
             (Inr \<lparr> mc_data = symmetric_chunk (h \<lparr> ch_message_size := of_nat (24 + length body) \<rparr>) token seq body \<rparr>, rc)"
proof -
  let ?msg = "symmetric_chunk h token seq body" and ?d = "policy_digest (sc_security_policy sc)"
  let ?hd = "MessageChunkHeader_bytes h @ SymmetricSecurityHeader_bytes \<lparr> sh_token_id = token \<rparr>"
  define sig where "sig = hmac_sign ssl ?d signing_key ?msg"
  define plain where "plain = SequenceHeader_bytes seq @ body @ sig"
  have sec: "secured (sc_security_policy sc)" "sc_security_policy rc = sc_security_policy sc" "channel_secures rc"
    "sc_security_mode rc = ModeSignAndEncrypt"
    using pair mode by (simp_all add: channel_pair_def channel_secures_def)
  have keys: "sc_local_keys sc = Some (signing_key, key, iv)" "sc_remote_keys rc = Some (signing_key, key, iv)"
    and key: "aes_policy key = sc_security_policy sc"
      "length (aes_value key) = cipher_key_len (policy_cipher (sc_security_policy sc))" "length iv = 16"
    using pair by (simp_all add: channel_pair_def)
  have sig: "length sig = s" by (simp add: hmac_length [OF ssl] s sig_def)
  have lenp: "length plain = n - 16" using n(1) sig by (simp add: plain_def)
  have n16: "16 \<le> n" using n(1) by simp
  have msg: "?msg @ sig = ?hd @ plain" by (simp add: symmetric_chunk_def plain_def)
  obtain out where enc: "symmetric_encrypt ssl key iv plain (take n (drop 16 dst)) =
      Inr (length plain, out @ drop (length plain) (take n (drop 16 dst)))" "length out = length plain"
    and dec: "\<And>dst'. length plain + 16 \<le> length dst' \<Longrightarrow>
       symmetric_decrypt ssl key iv out dst' = Inr (length plain, plain @ drop (length plain) dst')"
  proof (rule symmetric_encrypt_decrypt [OF ssl, of key iv plain "take n (drop 16 dst)"])
    show "secured (aes_policy key)" "length (aes_value key) = cipher_key_len (policy_cipher (aes_policy key))"
      "length iv = 16" using key sec by simp_all
  qed (use lenp n in auto)
  have "channel_symmetric_sign ssl sc (?msg @ replicate s 0) (24 + length body) (replicate (length dst + 16) 0) =
      Inr (n, (?hd @ plain) @ replicate (length dst + 16 - n) 0)"
    using n channel_symmetric_sign_signs [OF ssl sec(1) keys(1) s, of ?msg "24 + length body" "replicate (length dst + 16) 0"
        "replicate s 0"] msg by (simp add: sig_def)
  moreover have "out @ drop (length plain) (take n (drop 16 dst)) @ drop (n + 16) dst = out @ drop n dst"
  proof -
    have "drop (length plain) (take n (drop 16 dst)) = take 16 (drop n dst)"
      using lenp n by (simp add: drop_take add.assoc)
    then show ?thesis using append_take_drop_id [of 16 "drop n dst"] by (simp add: add.commute)
  qed
  ultimately have "symmetric_sign_and_encrypt ssl sc (?msg @ replicate s 0) (24 + length body) (16, n) dst =
      Inr (n, ?hd @ out @ drop n dst)"
    using mode n(2) n16 enc lenp
    by (simp add: symmetric_sign_and_encrypt_def expect_supported_secured [OF sec(1)] keys unwrapO_def slice_simps
        slice_drop copy_slice_def)
  moreover have "verify_and_remove_security ssl (?hd @ out) rc =
      (Inr \<lparr> mc_data = symmetric_chunk (h \<lparr> ch_message_size := of_nat (24 + length body) \<rparr>) token seq body \<rparr>, rc)"
  proof (rule verify_strips_signature [where n = n and s = s and sig = sig])
    show "symmetric_decrypt_and_verify ssl rc (?hd @ out) (24 + length body) (16, n) (replicate n 0) = Inr (n, ?msg @ sig)"
      by (rule symmetric_decrypt_verifies [OF ssl _ sec(4) keys(2) _ enc(2) _ msg [symmetric]])
        (use sec n lenp dec sig in \<open>simp_all add: sig_def s\<close>)
  qed (use h sec s sig n enc(2) lenp in simp_all)
  ultimately show ?thesis
    using lenp enc(2) n by (intro exI [where x = "SymmetricSecurityHeader_bytes \<lparr> sh_token_id = token \<rparr> @ out"]) simp
qed

section \<open>A sample channel\<close>

definition sample_keys :: channel_keys where
  "sample_keys = (replicate 32 1, \<lparr> aes_value = replicate 32 2, aes_policy = Basic256Sha256 \<rparr>, replicate 16 3)"

definition sample_channel :: "MessageSecurityMode \<Rightarrow> SecureChannel" where
  "sample_channel mode =
     (SecureChannel_new None RoleClient DecodingOptions_minimal \<lparr> date_time = 0 \<rparr>)
       \<lparr> sc_security_policy := Basic256Sha256, sc_security_mode := mode,
         sc_local_keys := Some sample_keys, sc_remote_keys := Some sample_keys \<rparr>"

definition sample_header :: "nat \<Rightarrow> MessageChunkHeader" where
  "sample_header n = \<lparr> ch_message_type = CtMessage, ch_is_final = Final, ch_message_size = of_nat n,
     ch_secure_channel_id = 1 \<rparr>"

lemma sample_channel_pair:
  "mode = ModeSign \<or> mode = ModeSignAndEncrypt \<Longrightarrow>
     channel_pair (sample_channel mode) (sample_channel mode) (replicate 32 1)
       \<lparr> aes_value = replicate 32 2, aes_policy = Basic256Sha256 \<rparr> (replicate 16 3)"
  by (auto simp: channel_pair_def sample_channel_def sample_keys_def SecureChannel_new_def secured_def channel_secures_def
      policy_cipher_def cipher_key_len_def)

section \<open>Properties\<close>

lemma apply_security_symmetric:
  assumes "ch_message_type h \<noteq> CtOpenSecureChannel" "channel_secures sc" "secured (sc_security_policy sc)"
    and s: "s = digest_size (policy_digest (sc_security_policy sc))" and p: "p = sym_padding (length body) s"
    and n: "n = 24 + length body + p + s"
  shows "apply_security ssl sc \<lparr> mc_data = symmetric_chunk h token seq body \<rparr> dst =
    symmetric_sign_and_encrypt ssl sc
      (symmetric_chunk (h \<lparr> ch_message_size := of_nat n \<rparr>) token seq (body @ replicate p (of_nat (p - 1))) @ replicate s 0)
      (24 + length body + p) (16, n) dst"
proof -
  have mode: "sc_security_mode sc \<noteq> ModeNone" using assms(2) by (auto simp: channel_secures_def)
  from add_space_symmetric [OF assms(1,3) mode s p, of ssl token seq] show ?thesis
    using assms by (simp add: apply_security_def ChunkInfo_symmetric secured_policy checked_sub_le add.assoc)
qed

lemma secured_chunk_received:
  assumes ssl: "symmetric_laws ssl" and pair: "channel_pair sc rc signing_key key iv"
    and h: "ch_message_type h \<noteq> CtOpenSecureChannel"
    and s: "s = digest_size (policy_digest (sc_security_policy sc))"
    and p: "p = sym_padding (length body) s"
    and n: "n = 24 + length body + p + s" "n < 2 ^ 32" "n + 16 \<le> length dst"
  shows "\<exists>tail. apply_security ssl sc \<lparr> mc_data = symmetric_chunk h token seq body \<rparr> dst =
             Inr (n, (MessageChunkHeader_bytes (h \<lparr> ch_message_size := of_nat n \<rparr>) @ tail) @ drop n dst) \<and>
           12 + length tail = n \<and>
           verify_and_remove_security ssl (MessageChunkHeader_bytes (h \<lparr> ch_message_size := of_nat n \<rparr>) @ tail) rc =
             (Inr \<lparr> mc_data = symmetric_chunk (h \<lparr> ch_message_size := of_nat (24 + length body + p) \<rparr>) token seq
                      (body @ replicate p (of_nat (p - 1))) \<rparr>, rc)"
proof -
  let ?h = "h \<lparr> ch_message_size := of_nat n \<rparr>" and ?body = "body @ replicate p (of_nat (p - 1))"
  have sec: "secured (sc_security_policy sc)" "channel_secures sc" using pair by (simp_all add: channel_pair_def)
  have size: "unat (ch_message_size ?h) = n" using n(2) by (simp add: unat_of_nat)
  have n': "n = 24 + length ?body + s" "n \<le> length dst" using n by simp_all
  have "(n - 16) mod 16 = 0" using sym_padding_aligned [of "length body" s] n(1) p by (simp add: add.assoc)
  note sign = sign_round_trip [OF ssl pair _ _ size s n', of token seq]
    and encrypt = encrypt_round_trip [OF ssl pair _ _ size s n'(1) n(3) this, of token seq]
  have "sc_security_mode sc = ModeSign \<or> sc_security_mode sc = ModeSignAndEncrypt"
    using sec by (simp add: channel_secures_def)
  then have "\<exists>tail. symmetric_sign_and_encrypt ssl sc (symmetric_chunk ?h token seq ?body @ replicate s 0)
             (24 + length ?body) (16, n) dst = Inr (n, (MessageChunkHeader_bytes ?h @ tail) @ drop n dst) \<and>
           12 + length tail = n \<and> verify_and_remove_security ssl (MessageChunkHeader_bytes ?h @ tail) rc =
             (Inr \<lparr> mc_data = symmetric_chunk (?h \<lparr> ch_message_size := of_nat (24 + length ?body) \<rparr>) token seq ?body \<rparr>, rc)"
    using sign encrypt h by auto
  then show ?thesis
    unfolding apply_security_symmetric [OF h sec(2,1) s p n(1)] by (simp add: add.assoc)
qed

text \<open>C5: A symmetric message survives a secured channel: when the keys with which one end signs
  and encrypts are those with which the other verifies and decrypts, applying security to a
  chunk (in mode Sign or SignAndEncrypt, for every policy) and verifying and removing it
  returns the headers and the body of the chunk. The padding that was added is not removed:
  it stays at the end of the body and the announced size counts it.\<close>

theorem symmetric_security_round_trip:
  assumes "symmetric_laws ssl" and "channel_pair sc rc signing_key key iv"
    and "ch_message_type h \<noteq> CtOpenSecureChannel"
    and "s = digest_size (policy_digest (sc_security_policy sc))"
    and "p = sym_padding (length body) s"
    and "n = 24 + length body + p + s" "n < 2 ^ 32" "n + 16 \<le> length dst"
  shows "\<exists>out. apply_security ssl sc \<lparr> mc_data = symmetric_chunk h token seq body \<rparr> dst = Inr (n, out) \<and>
           verify_and_remove_security ssl (take n out) rc =
             (Inr \<lparr> mc_data = symmetric_chunk (h \<lparr> ch_message_size := of_nat (24 + length body + p) \<rparr>) token seq
                      (body @ replicate p (of_nat (p - 1))) \<rparr>, rc)"
proof -
  from secured_chunk_received [OF assms, of token seq]
  obtain tail where tail: "apply_security ssl sc \<lparr> mc_data = symmetric_chunk h token seq body \<rparr> dst =
      Inr (n, (MessageChunkHeader_bytes (h \<lparr> ch_message_size := of_nat n \<rparr>) @ tail) @ drop n dst)"
    "12 + length tail = n"
    "verify_and_remove_security ssl (MessageChunkHeader_bytes (h \<lparr> ch_message_size := of_nat n \<rparr>) @ tail) rc =
       (Inr \<lparr> mc_data = symmetric_chunk (h \<lparr> ch_message_size := of_nat (24 + length body + p) \<rparr>) token seq
                (body @ replicate p (of_nat (p - 1))) \<rparr>, rc)"
    by blast
  have "take n ((MessageChunkHeader_bytes (h \<lparr> ch_message_size := of_nat n \<rparr>) @ tail) @ drop n dst) =
      MessageChunkHeader_bytes (h \<lparr> ch_message_size := of_nat n \<rparr>) @ tail"
    using tail(2) by auto
  with tail(1,3) show ?thesis by auto
qed

theorem symmetric_security_round_trip_witness:
  "\<exists>out. apply_security xor_ssl (sample_channel ModeSignAndEncrypt)
       \<lparr> mc_data = symmetric_chunk (sample_header 26) 1 \<lparr> sequence_number = 7, request_id = 8 \<rparr> [10, 11] \<rparr>
       (replicate 200 0) = Inr (64, out) \<and>
     verify_and_remove_security xor_ssl (take 64 out) (sample_channel ModeSignAndEncrypt) =
       (Inr \<lparr> mc_data = symmetric_chunk ((sample_header 26) \<lparr> ch_message_size := of_nat (24 + length [10, 11 :: u8] + 6) \<rparr>) 1
          \<lparr> sequence_number = 7, request_id = 8 \<rparr> ([10, 11] @ replicate 6 (of_nat (6 - 1))) \<rparr>,
        sample_channel ModeSignAndEncrypt)"
  by (rule symmetric_security_round_trip [OF xor_ssl_laws sample_channel_pair, where s = 32])
    (simp_all add: sample_header_def sample_channel_def SecureChannel_new_def policy_digest_def is_deprecated_def
      digest_size_def SHA256_SIZE_def sym_padding_def)

text \<open>Two ends that know each other's nonce derive the same keys, crosswise.\<close>

lemma derived_keys_pair:
  assumes "symmetric_laws ssl" "secured (sc_security_policy sc)" "sc_security_policy rc = sc_security_policy sc"
    and "channel_secures sc" "sc_security_mode rc = sc_security_mode sc"
    and "sc_local_nonce rc = sc_remote_nonce sc" "sc_remote_nonce rc = sc_local_nonce sc"
  shows "\<exists>sc' rc' k1 e1 iv1 k2 e2 iv2. derive_keys ssl sc = Inr sc' \<and> derive_keys ssl rc = Inr rc' \<and>
           channel_pair sc' rc' k1 e1 iv1 \<and> channel_pair rc' sc' k2 e2 iv2"
proof -
  let ?p = "sc_security_policy sc"
  have keys: "\<exists>sk key iv. make_secure_channel_keys ssl ?p secret seed = Inr (sk, key, iv) \<and>
      aes_policy key = ?p \<and> length (aes_value key) = cipher_key_len (policy_cipher ?p) \<and> length iv = 16" for secret seed
  proof -
    have len: "policy_signing_key_len ?p + cipher_key_len (policy_cipher ?p) + 16
        \<le> length (p_sha_stream ssl (policy_digest ?p) secret seed 5)"
      using assms(1,2) by (cases ?p) (simp_all add: length_p_sha_stream secured_def policy_signing_key_len_def
          policy_cipher_def cipher_key_len_def policy_digest_def is_deprecated_def digest_size_def SHA1_SIZE_def SHA256_SIZE_def)
    then show ?thesis using make_secure_channel_keys_stream [OF assms(1,2), of secret seed] by auto
  qed
  obtain k1 e1 iv1 where k1: "make_secure_channel_keys ssl ?p (sc_remote_nonce sc) (sc_local_nonce sc) = Inr (k1, e1, iv1)"
    "aes_policy e1 = ?p" "length (aes_value e1) = cipher_key_len (policy_cipher ?p)" "length iv1 = 16" using keys by blast
  obtain k2 e2 iv2 where k2: "make_secure_channel_keys ssl ?p (sc_local_nonce sc) (sc_remote_nonce sc) = Inr (k2, e2, iv2)"
    "aes_policy e2 = ?p" "length (aes_value e2) = cipher_key_len (policy_cipher ?p)" "length iv2 = 16" using keys by blast
  show ?thesis
    by (rule exI [of _ "sc \<lparr> sc_remote_keys := Some (k2, e2, iv2), sc_local_keys := Some (k1, e1, iv1) \<rparr>"],
        rule exI [of _ "rc \<lparr> sc_remote_keys := Some (k1, e1, iv1), sc_local_keys := Some (k2, e2, iv2) \<rparr>"],
        rule exI [of _ k1], rule exI [of _ e1], rule exI [of _ iv1], rule exI [of _ k2], rule exI [of _ e2], rule exI [of _ iv2])
      (use assms k1 k2 in \<open>simp add: derive_keys_def channel_pair_def channel_secures_def\<close>)
qed

text \<open>C31: In mode Sign nothing that is not signed with the channel's key is accepted: whatever
  bytes arrive, if a symmetric message is accepted then its last bytes are the HMAC, under the
  key of the peer, of all the bytes before them.\<close>

theorem sign_mode_authentic:
  assumes "symmetric_laws ssl" "secured (sc_security_policy rc)" "sc_security_mode rc = ModeSign"
    and "MessageChunkHeader_decode (sc_decoding_options rc) src = Inr (h, rest)"
    and "ch_message_type h \<noteq> CtOpenSecureChannel"
    and "verify_and_remove_security ssl src rc = (Inr chunk, rc')"
    and "s = digest_size (policy_digest (sc_security_policy rc))"
  shows "\<exists>key e iv. sc_remote_keys rc = Some (key, e, iv) \<and> s \<le> length src \<and>
           drop (length src - s) src =
             hmac_sign ssl (policy_digest (sc_security_policy rc)) key (take (length src - s) src)"
proof -
  have secures: "channel_secures rc" using assms(2,3) by (simp add: channel_secures_def secured_def)
  have size: "symmetric_signature_size (sc_security_policy rc) = Inr s" using assms(2,7) by (simp add: secured_policy)
  obtain tok s2 where tok: "SymmetricSecurityHeader_decode (sc_decoding_options rc) rest = Inr (tok, s2)"
    using assms(4,5,6)
    by (cases "SymmetricSecurityHeader_decode (sc_decoding_options rc) rest")
      (auto simp: verify_and_remove_security_def verify_and_remove_security_forensic_def decode_security_header_def
        mapD_def bindD_def)
  define off where "off = length src - length s2"
  have "unat (ch_message_size h) = length src"
    using assms(4,5,6) tok
    by (auto simp: verify_and_remove_security_def verify_and_remove_security_forensic_def decode_security_header_def
        mapD_def bindD_def returnD_def Let_def split: if_splits)
  then have "bindR (checked_sub (length src) s) (\<lambda>signed_end.
      bindR (symmetric_decrypt_and_verify ssl rc src signed_end (off, length src) (replicate (length src) 0)) (\<lambda>(decrypted_size, d).
      bindR (checked_sub decrypted_size s) (\<lambda>n. mapR (\<lambda>d. \<lparr> mc_data = d \<rparr>)
        (update_message_size_and_truncate d n (sc_decoding_options rc))))) = Inr chunk"
    using assms(4,5,6) secures size tok
    by (auto simp: verify_and_remove_security_def verify_and_remove_security_forensic_def decode_security_header_def
        mapD_def bindD_def returnD_def Let_def off_def)
  then obtain x where le: "s \<le> length src"
    and ok: "symmetric_decrypt_and_verify ssl rc src (length src - s) (off, length src) (replicate (length src) 0) = Inr x"
    by (auto simp: bindR_eq_Inr checked_sub_def split: if_splits)
  have "symmetric_decrypt_and_verify ssl rc src (length src - s) (off, length src) (replicate (length src) 0) =
      bindR (unwrapO (sc_remote_keys rc)) (\<lambda>(key, _, _).
      bindR (symmetric_verify_signature ssl (sc_security_policy rc) key (take (length src - s) src)
        (drop (length src - s) src)) (\<lambda>_. Inr (length src, src)))"
    using assms(2,3) le
    by (simp add: symmetric_decrypt_and_verify_def expect_supported_secured slice_def copy_slice_def)
  with ok le show ?thesis
    by (cases "sc_remote_keys rc")
      (auto simp: unwrapO_def bindR_eq_Inr symmetric_verify_hmac [OF assms(1,2)] split: if_splits)
qed

definition sample_signed :: "u8 list" where
  "sample_signed =
     (let msg = symmetric_chunk (sample_header 56) 1 \<lparr> sequence_number = 7, request_id = 8 \<rparr> []
      in msg @ hmac_sign xor_ssl Sha256 (replicate 32 1) msg)"

lemma sample_signed_accepted:
  "verify_and_remove_security xor_ssl sample_signed (sample_channel ModeSign) =
     (Inr \<lparr> mc_data = symmetric_chunk ((sample_header 56) \<lparr> ch_message_size := of_nat 24 \<rparr>) 1
        \<lparr> sequence_number = 7, request_id = 8 \<rparr> [] \<rparr>, sample_channel ModeSign)"
proof -
  have d: "policy_digest (sc_security_policy (sample_channel ModeSign)) = Sha256"
    by (simp add: sample_channel_def SecureChannel_new_def policy_digest_def is_deprecated_def)
  have s: "(32 :: nat) = digest_size (policy_digest (sc_security_policy (sample_channel ModeSign)))"
    unfolding d by (simp add: digest_size_def SHA256_SIZE_def)
  have mode: "sc_security_mode (sample_channel ModeSign) = ModeSign" by (simp add: sample_channel_def)
  have h: "ch_message_type (sample_header 56) \<noteq> CtOpenSecureChannel" "unat (ch_message_size (sample_header 56)) = 56"
    by (simp_all add: sample_header_def)
  note signs = channel_symmetric_sign_signs [OF xor_ssl_laws, of "sample_channel ModeSign"]
  obtain out where out: "symmetric_sign_and_encrypt xor_ssl (sample_channel ModeSign)
      (symmetric_chunk (sample_header 56) 1 \<lparr> sequence_number = 7, request_id = 8 \<rparr> [] @ replicate 32 0) 24 (16, 56)
      (replicate 56 0) = Inr (56, out)"
    "verify_and_remove_security xor_ssl (take 56 out) (sample_channel ModeSign) =
     (Inr \<lparr> mc_data = symmetric_chunk ((sample_header 56) \<lparr> ch_message_size := of_nat 24 \<rparr>) 1
        \<lparr> sequence_number = 7, request_id = 8 \<rparr> [] \<rparr>, sample_channel ModeSign)"
    using sign_round_trip [OF xor_ssl_laws sample_channel_pair mode h s, of "[]" "replicate 56 0" 1
        "\<lparr> sequence_number = 7, request_id = 8 \<rparr>"] by auto
  moreover have "out = sample_signed"
    using out(1) signs [of "replicate 32 1" "\<lparr> aes_value = replicate 32 2, aes_policy = Basic256Sha256 \<rparr>" "replicate 16 3" 32
        "symmetric_chunk (sample_header 56) 1 \<lparr> sequence_number = 7, request_id = 8 \<rparr> []" 24 "replicate 56 0" "replicate 32 0"] s
    by (simp add: symmetric_sign_and_encrypt_def mode d sample_signed_def Let_def)
      (simp add: sample_channel_def SecureChannel_new_def expect_supported_security_policy_def secured_def sample_keys_def)
  moreover have "length sample_signed = 56"
    by (simp add: sample_signed_def hmac_length [OF xor_ssl_laws] digest_size_def SHA256_SIZE_def Let_def)
  ultimately show ?thesis by simp
qed

theorem sign_mode_authentic_witness:
  "\<exists>key e iv. sc_remote_keys (sample_channel ModeSign) = Some (key, e, iv) \<and> 32 \<le> length sample_signed \<and>
     drop (length sample_signed - 32) sample_signed =
       hmac_sign xor_ssl (policy_digest (sc_security_policy (sample_channel ModeSign))) key
         (take (length sample_signed - 32) sample_signed)"
proof (rule sign_mode_authentic [OF xor_ssl_laws _ _ _ _ sample_signed_accepted])
  show "MessageChunkHeader_decode (sc_decoding_options (sample_channel ModeSign)) sample_signed =
      Inr (sample_header 56, drop 12 sample_signed)"
    by (simp add: sample_signed_def Let_def symmetric_chunk_append) (simp add: symmetric_chunk_def)
qed (simp_all add: sample_channel_def SecureChannel_new_def secured_def sample_header_def policy_digest_def
    is_deprecated_def digest_size_def SHA256_SIZE_def)

text \<open>C40: In mode SignAndEncrypt a symmetric message whose encrypted part is not a whole number of
  16 byte blocks makes the receiver panic, before anything is verified: the check of the size
  is commented out and the cipher panics.\<close>

theorem unaligned_ciphertext_panics:
  assumes "secured (sc_security_policy rc)" "sc_security_mode rc = ModeSignAndEncrypt"
    and "sc_remote_keys rc = Some (vk, key, iv)" "secured (aes_policy key)" "length iv = 16"
    and "ch_message_type h \<noteq> CtOpenSecureChannel" "unat (ch_message_size h) = 16 + length rest"
    and "digest_size (policy_digest (sc_security_policy rc)) \<le> 16 + length rest" "length rest mod 16 \<noteq> 0"
  shows "verify_and_remove_security ssl
           (MessageChunkHeader_bytes h @ SymmetricSecurityHeader_bytes t @ rest) rc = (Inl Panic, rc)"
proof -
  have secures: "channel_secures rc" using assms(1,2) by (simp add: channel_secures_def secured_def)
  let ?hdr = "MessageChunkHeader_bytes h @ SymmetricSecurityHeader_bytes t"
  have "symmetric_decrypt_and_verify ssl rc (?hdr @ rest) m (16, 16 + length rest) (replicate (16 + length rest) 0) =
      Inl Panic" for m
  proof -
    have "slice 0 16 (?hdr @ rest) = Inr ?hdr" "slice 16 (16 + length rest) (?hdr @ rest) = Inr rest"
      by (simp_all only: slice_prefix length_chunk_headers slice_suffix)
    then show ?thesis
      using assms
      by (simp add: symmetric_decrypt_and_verify_def expect_supported_secured unwrapO_def checked_sub_le copy_slice_def
          symmetric_decrypt_def do_cipher_def secured_policy(5) validate_aes_args_def cipher_block_size_def)
  qed
  then show ?thesis
    using assms secures
    by (simp add: verify_and_remove_security_def verify_and_remove_security_forensic_def decode_security_header_def
        mapD_def bindD_def returnD_def Let_def secured_policy checked_sub_le)
qed

theorem unaligned_ciphertext_panics_witness:
  "verify_and_remove_security xor_ssl
     (MessageChunkHeader_bytes (sample_header 49) @ SymmetricSecurityHeader_bytes \<lparr> sh_token_id = 1 \<rparr> @ replicate 33 0)
     (sample_channel ModeSignAndEncrypt) = (Inl Panic, sample_channel ModeSignAndEncrypt)"
  by (rule unaligned_ciphertext_panics [where vk = "replicate 32 1" and iv = "replicate 16 3"
      and key = "\<lparr> aes_value = replicate 32 2, aes_policy = Basic256Sha256 \<rparr>"])
    (simp_all add: sample_channel_def SecureChannel_new_def secured_def sample_header_def policy_digest_def sample_keys_def
      is_deprecated_def digest_size_def SHA256_SIZE_def)

text \<open>The body size that a chunk of the requested size may have is computed with the padding
  of a one byte body, which is not the largest padding: with a policy that signs with
  SHA-256 and a requested size of 65535 bytes, a chunk with a body of exactly that size
  becomes 65536 bytes long once it is padded and signed, more than requested.\<close>

theorem body_size_exceeds_message_size:
  assumes "sc_security_policy sc = Basic256Sha256" "sc_security_mode sc = ModeSignAndEncrypt"
    and "ch_message_type h = CtMessage" "length body = 65472"
  shows "body_size_from_message_size ssl CtMessage sc 65535 = Inr (Some 65472) \<and>
    (\<exists>data. add_space_for_padding_and_signature ssl sc \<lparr> mc_data = symmetric_chunk h token seq body \<rparr> = Inr data \<and>
       length data = 65536)"
proof -
  have sec: "secured (sc_security_policy sc)" "sc_security_mode sc \<noteq> ModeNone" using assms by (simp_all add: secured_def)
  have h: "ch_message_type h \<noteq> CtOpenSecureChannel" using assms by simp
  have s: "digest_size (policy_digest (sc_security_policy sc)) = 32"
    using assms by (simp add: policy_digest_def is_deprecated_def digest_size_def SHA256_SIZE_def)
  show ?thesis
    using assms add_space_symmetric [OF h sec refl refl, of ssl token seq body] s
      padding_size_symmetric [OF sec, of 32 ssl "\<lparr> sh_token_id = sc_token_id sc \<rparr>" 1]
    by (simp add: body_size_from_message_size_def MIN_CHUNK_SIZE_def make_security_header_def signature_size_def
        symmetric_signature_size_def SHA256_SIZE_def MESSAGE_CHUNK_HEADER_SIZE_def SecurityHeader_byte_len_def
        SymmetricSecurityHeader_byte_len_def SequenceHeader_byte_len_def checked_sub_def sym_padding_def)
qed

theorem body_size_exceeds_message_size_witness:
  "body_size_from_message_size xor_ssl CtMessage (sample_channel ModeSignAndEncrypt) 65535 = Inr (Some 65472) \<and>
    (\<exists>data. add_space_for_padding_and_signature xor_ssl (sample_channel ModeSignAndEncrypt)
       \<lparr> mc_data = symmetric_chunk (sample_header 65496) 1 \<lparr> sequence_number = 7, request_id = 8 \<rparr> (replicate 65472 0) \<rparr> =
         Inr data \<and> length data = 65536)"
  by (rule body_size_exceeds_message_size)
    (simp_all add: sample_channel_def SecureChannel_new_def sample_header_def)

end
