(* ===== verification/Opc_Messages.thy ===== *)
theory Opc_Messages
  imports Opc_Variant_Codec Opc_Secure_Channel
begin

text \<open>
  The messages that travel in chunks: the request and response headers
  (\<open>types/request_header.rs\<close>, \<open>types/response_header.rs\<close>), the messages of the secure
  channel service and the publish request (\<open>types/service_types\<close>), and the dispatch of
  \<open>core/supported_message.rs\<close>. The messages of the other services are generated
  field by field; they enter as the argument \<open>svc\<close>, an instance of which is the publish
  request.
\<close>

section \<open>Headers\<close>

record RequestHeader =
  rqh_authentication_token :: NodeId
  rqh_timestamp :: DateTime
  rqh_request_handle :: u32
  rqh_return_diagnostics :: u32
  rqh_audit_entry_id :: UAString
  rqh_timeout_hint :: u32
  rqh_additional_header :: ExtensionObject

text \<open>All bits that \<open>DiagnosticBits\<close> defines; decoding drops the others.\<close>

definition DIAGNOSTIC_BITS :: u32 where "DIAGNOSTIC_BITS = 0x3ff"

definition RequestHeader_byte_len :: "RequestHeader \<Rightarrow> nat" where
  "RequestHeader_byte_len h =
     NodeId_byte_len (rqh_authentication_token h) + DateTime_byte_len (rqh_timestamp h)
     + u32_byte_len (rqh_request_handle h) + u32_byte_len (rqh_return_diagnostics h)
     + UAString_byte_len (rqh_audit_entry_id h) + u32_byte_len (rqh_timeout_hint h)
     + ExtensionObject_byte_len (rqh_additional_header h)"

definition RequestHeader_encode :: "RequestHeader \<Rightarrow> writer" where
  "RequestHeader_encode h =
     thenW (NodeId_encode (rqh_authentication_token h))
    (thenW (DateTime_encode (rqh_timestamp h))
    (thenW (u32_encode (rqh_request_handle h))
    (thenW (u32_encode (rqh_return_diagnostics h))
    (thenW (UAString_encode (rqh_audit_entry_id h))
    (thenW (u32_encode (rqh_timeout_hint h))
           (ExtensionObject_encode (rqh_additional_header h)))))))"

definition RequestHeader_decode :: "DecodingOptions \<Rightarrow> RequestHeader reader" where
  "RequestHeader_decode opts =
     bindD (NodeId_decode opts) (\<lambda>token.
     bindD (DateTime_decode opts) (\<lambda>timestamp.
     bindD (u32_decode opts) (\<lambda>handle.
     bindD (u32_decode opts) (\<lambda>diagnostics.
     bindD (UAString_decode opts) (\<lambda>audit.
     bindD (u32_decode opts) (\<lambda>timeout.
     bindD (ExtensionObject_decode opts) (\<lambda>additional.
       returnD \<lparr> rqh_authentication_token = token, rqh_timestamp = timestamp,
         rqh_request_handle = handle, rqh_return_diagnostics = diagnostics AND DIAGNOSTIC_BITS,
         rqh_audit_entry_id = audit, rqh_timeout_hint = timeout, rqh_additional_header = additional \<rparr>)))))))"

record ResponseHeader =
  rsh_timestamp :: DateTime
  rsh_request_handle :: u32
  rsh_service_result :: StatusCode
  rsh_service_diagnostics :: DiagnosticInfo
  rsh_string_table :: "UAString list option"
  rsh_additional_header :: ExtensionObject

definition ResponseHeader_byte_len :: "ResponseHeader \<Rightarrow> nat" where
  "ResponseHeader_byte_len h =
     DateTime_byte_len (rsh_timestamp h) + u32_byte_len (rsh_request_handle h)
     + StatusCode_byte_len (rsh_service_result h) + DiagnosticInfo_byte_len (rsh_service_diagnostics h)
     + byte_len_array UAString_byte_len (rsh_string_table h)
     + ExtensionObject_byte_len (rsh_additional_header h)"

definition ResponseHeader_encode :: "ResponseHeader \<Rightarrow> writer" where
  "ResponseHeader_encode h = assert_size (ResponseHeader_byte_len h)
    (thenW (DateTime_encode (rsh_timestamp h))
    (thenW (u32_encode (rsh_request_handle h))
    (thenW (StatusCode_encode (rsh_service_result h))
    (thenW (DiagnosticInfo_encode (rsh_service_diagnostics h))
    (thenW (write_array UAString_encode (rsh_string_table h))
           (ExtensionObject_encode (rsh_additional_header h)))))))"

definition ResponseHeader_decode :: "DecodingOptions \<Rightarrow> ResponseHeader reader" where
  "ResponseHeader_decode opts =
     bindD (DateTime_decode opts) (\<lambda>timestamp.
     bindD (u32_decode opts) (\<lambda>handle.
     bindD (StatusCode_decode opts) (\<lambda>service_result.
     bindD (DiagnosticInfo_decode_stream opts) (\<lambda>diagnostics.
     bindD (read_array UAString_decode opts) (\<lambda>strings.
     bindD (ExtensionObject_decode opts) (\<lambda>additional.
       returnD \<lparr> rsh_timestamp = timestamp, rsh_request_handle = handle,
         rsh_service_result = service_result, rsh_service_diagnostics = diagnostics,
         rsh_string_table = strings, rsh_additional_header = additional \<rparr>))))))"

definition new_timestamped_service_result :: "DateTime \<Rightarrow> RequestHeader \<Rightarrow> StatusCode \<Rightarrow> ResponseHeader" where
  "new_timestamped_service_result timestamp request_header service_result =
     \<lparr> rsh_timestamp = timestamp, rsh_request_handle = rqh_request_handle request_header,
       rsh_service_result = service_result, rsh_service_diagnostics = DiagnosticInfo_null,
       rsh_string_table = None, rsh_additional_header = ExtensionObject_null \<rparr>"

section \<open>The secure channel service\<close>

datatype SecurityTokenRequestType = Issue | Renew

definition SecurityTokenRequestType_encode :: "SecurityTokenRequestType \<Rightarrow> writer" where
  "SecurityTokenRequestType_encode v = write_i32 (case v of Issue \<Rightarrow> 0 | Renew \<Rightarrow> 1)"

definition SecurityTokenRequestType_decode :: "DecodingOptions \<Rightarrow> SecurityTokenRequestType reader" where
  "SecurityTokenRequestType_decode opts =
     bindD read_i32 (\<lambda>v.
       if v = 0 then returnD Issue else if v = 1 then returnD Renew
       else failD (Err BadUnexpectedError))"

definition MessageSecurityMode_encode :: "MessageSecurityMode \<Rightarrow> writer" where
  "MessageSecurityMode_encode v =
     write_i32 (case v of ModeInvalid \<Rightarrow> 0 | ModeNone \<Rightarrow> 1 | ModeSign \<Rightarrow> 2 | ModeSignAndEncrypt \<Rightarrow> 3)"

definition MessageSecurityMode_decode :: "DecodingOptions \<Rightarrow> MessageSecurityMode reader" where
  "MessageSecurityMode_decode opts =
     bindD read_i32 (\<lambda>v.
       if v = 0 then returnD ModeInvalid else if v = 1 then returnD ModeNone
       else if v = 2 then returnD ModeSign else if v = 3 then returnD ModeSignAndEncrypt
       else failD (Err BadUnexpectedError))"

record OpenSecureChannelRequest =
  osq_request_header :: RequestHeader
  osq_client_protocol_version :: u32
  osq_request_type :: SecurityTokenRequestType
  osq_security_mode :: MessageSecurityMode
  osq_client_nonce :: ByteString
  osq_requested_lifetime :: u32

definition OpenSecureChannelRequest_byte_len :: "OpenSecureChannelRequest \<Rightarrow> nat" where
  "OpenSecureChannelRequest_byte_len m =
     RequestHeader_byte_len (osq_request_header m) + u32_byte_len (osq_client_protocol_version m)
     + 4 + 4 + ByteString_byte_len (osq_client_nonce m) + u32_byte_len (osq_requested_lifetime m)"

definition OpenSecureChannelRequest_encode :: "OpenSecureChannelRequest \<Rightarrow> writer" where
  "OpenSecureChannelRequest_encode m =
     thenW (RequestHeader_encode (osq_request_header m))
    (thenW (u32_encode (osq_client_protocol_version m))
    (thenW (SecurityTokenRequestType_encode (osq_request_type m))
    (thenW (MessageSecurityMode_encode (osq_security_mode m))
    (thenW (ByteString_encode (osq_client_nonce m))
           (u32_encode (osq_requested_lifetime m))))))"

definition OpenSecureChannelRequest_decode :: "DecodingOptions \<Rightarrow> OpenSecureChannelRequest reader" where
  "OpenSecureChannelRequest_decode opts =
     bindD (RequestHeader_decode opts) (\<lambda>header.
     bindD (u32_decode opts) (\<lambda>version.
     bindD (SecurityTokenRequestType_decode opts) (\<lambda>ty.
     bindD (MessageSecurityMode_decode opts) (\<lambda>mode.
     bindD (ByteString_decode opts) (\<lambda>nonce.
     bindD (u32_decode opts) (\<lambda>lifetime.
       returnD \<lparr> osq_request_header = header, osq_client_protocol_version = version,
         osq_request_type = ty, osq_security_mode = mode, osq_client_nonce = nonce,
         osq_requested_lifetime = lifetime \<rparr>))))))"

definition ChannelSecurityToken_byte_len :: "ChannelSecurityToken \<Rightarrow> nat" where
  "ChannelSecurityToken_byte_len t =
     u32_byte_len (tk_channel_id t) + u32_byte_len (tk_token_id t) + DateTime_byte_len (tk_created_at t)
     + u32_byte_len (tk_revised_lifetime t)"

definition ChannelSecurityToken_encode :: "ChannelSecurityToken \<Rightarrow> writer" where
  "ChannelSecurityToken_encode t =
     thenW (u32_encode (tk_channel_id t))
    (thenW (u32_encode (tk_token_id t))
    (thenW (DateTime_encode (tk_created_at t))
           (u32_encode (tk_revised_lifetime t))))"

definition ChannelSecurityToken_decode :: "DecodingOptions \<Rightarrow> ChannelSecurityToken reader" where
  "ChannelSecurityToken_decode opts =
     bindD (u32_decode opts) (\<lambda>channel.
     bindD (u32_decode opts) (\<lambda>token.
     bindD (DateTime_decode opts) (\<lambda>created.
     bindD (u32_decode opts) (\<lambda>lifetime.
       returnD \<lparr> tk_channel_id = channel, tk_token_id = token, tk_created_at = created,
         tk_revised_lifetime = lifetime \<rparr>))))"

record OpenSecureChannelResponse =
  osr_response_header :: ResponseHeader
  osr_server_protocol_version :: u32
  osr_security_token :: ChannelSecurityToken
  osr_server_nonce :: ByteString

definition OpenSecureChannelResponse_byte_len :: "OpenSecureChannelResponse \<Rightarrow> nat" where
  "OpenSecureChannelResponse_byte_len m =
     ResponseHeader_byte_len (osr_response_header m) + u32_byte_len (osr_server_protocol_version m)
     + ChannelSecurityToken_byte_len (osr_security_token m) + ByteString_byte_len (osr_server_nonce m)"

definition OpenSecureChannelResponse_encode :: "OpenSecureChannelResponse \<Rightarrow> writer" where
  "OpenSecureChannelResponse_encode m =
     thenW (ResponseHeader_encode (osr_response_header m))
    (thenW (u32_encode (osr_server_protocol_version m))
    (thenW (ChannelSecurityToken_encode (osr_security_token m))
           (ByteString_encode (osr_server_nonce m))))"

definition OpenSecureChannelResponse_decode :: "DecodingOptions \<Rightarrow> OpenSecureChannelResponse reader" where
  "OpenSecureChannelResponse_decode opts =
     bindD (ResponseHeader_decode opts) (\<lambda>header.
     bindD (u32_decode opts) (\<lambda>version.
     bindD (ChannelSecurityToken_decode opts) (\<lambda>token.
     bindD (ByteString_decode opts) (\<lambda>nonce.
       returnD \<lparr> osr_response_header = header, osr_server_protocol_version = version,
         osr_security_token = token, osr_server_nonce = nonce \<rparr>))))"

text \<open>The messages with a header and nothing else encode and decode as their header.\<close>

record CloseSecureChannelRequest =
  csq_request_header :: RequestHeader

record CloseSecureChannelResponse =
  csr_response_header :: ResponseHeader

record ServiceFault =
  sf_response_header :: ResponseHeader

section \<open>The publish request\<close>

record SubscriptionAcknowledgement =
  sa_subscription_id :: u32
  sa_sequence_number :: u32

definition SubscriptionAcknowledgement_byte_len :: "SubscriptionAcknowledgement \<Rightarrow> nat" where
  "SubscriptionAcknowledgement_byte_len a =
     u32_byte_len (sa_subscription_id a) + u32_byte_len (sa_sequence_number a)"

definition SubscriptionAcknowledgement_encode :: "SubscriptionAcknowledgement \<Rightarrow> writer" where
  "SubscriptionAcknowledgement_encode a =
     thenW (u32_encode (sa_subscription_id a)) (u32_encode (sa_sequence_number a))"

definition SubscriptionAcknowledgement_decode :: "DecodingOptions \<Rightarrow> SubscriptionAcknowledgement reader" where
  "SubscriptionAcknowledgement_decode opts =
     bindD (u32_decode opts) (\<lambda>subscription.
     bindD (u32_decode opts) (\<lambda>number.
       returnD \<lparr> sa_subscription_id = subscription, sa_sequence_number = number \<rparr>))"

record PublishRequest =
  pq_request_header :: RequestHeader
  pq_subscription_acknowledgements :: "SubscriptionAcknowledgement list option"

definition PublishRequest_byte_len :: "PublishRequest \<Rightarrow> nat" where
  "PublishRequest_byte_len m = RequestHeader_byte_len (pq_request_header m)
     + byte_len_array SubscriptionAcknowledgement_byte_len (pq_subscription_acknowledgements m)"

definition PublishRequest_encode :: "PublishRequest \<Rightarrow> writer" where
  "PublishRequest_encode m =
     thenW (RequestHeader_encode (pq_request_header m))
       (write_array SubscriptionAcknowledgement_encode (pq_subscription_acknowledgements m))"

definition PublishRequest_decode :: "DecodingOptions \<Rightarrow> PublishRequest reader" where
  "PublishRequest_decode opts =
     bindD (RequestHeader_decode opts) (\<lambda>header.
     bindD (read_array SubscriptionAcknowledgement_decode opts) (\<lambda>acks.
       returnD \<lparr> pq_request_header = header, pq_subscription_acknowledgements = acks \<rparr>))"

section \<open>Supported messages\<close>

text \<open>What the dispatch asks of the messages of the other services: their length, encoding and
  object id, the decoder of the arm of an object id if it has one, and which numbers are
  object ids at all (\<open>ObjectId::try_from\<close>, a table of \<open>node_ids.rs\<close>).\<close>

record 'm services =
  svc_byte_len :: "'m \<Rightarrow> nat"
  svc_encode :: "'m \<Rightarrow> writer"
  svc_object_id :: "'m \<Rightarrow> u32"
  svc_decode :: "u32 \<Rightarrow> (DecodingOptions \<Rightarrow> 'm reader) option"
  svc_is_object_id :: "u32 \<Rightarrow> bool"

datatype 'm SupportedMessage =
    SmInvalid u32
  | SmAcknowledge AcknowledgeMessage
  | SmServiceFault ServiceFault
  | SmOpenSecureChannelRequest OpenSecureChannelRequest
  | SmOpenSecureChannelResponse OpenSecureChannelResponse
  | SmCloseSecureChannelRequest CloseSecureChannelRequest
  | SmCloseSecureChannelResponse CloseSecureChannelResponse
  | SmService 'm

definition SupportedMessage_byte_len :: "'m services \<Rightarrow> 'm SupportedMessage \<Rightarrow> nat res" where
  "SupportedMessage_byte_len svc m =
     (case m of
        SmInvalid _ \<Rightarrow> Inl Panic
      | SmAcknowledge v \<Rightarrow> Inr (AcknowledgeMessage_byte_len v)
      | SmServiceFault v \<Rightarrow> Inr (ResponseHeader_byte_len (sf_response_header v))
      | SmOpenSecureChannelRequest v \<Rightarrow> Inr (OpenSecureChannelRequest_byte_len v)
      | SmOpenSecureChannelResponse v \<Rightarrow> Inr (OpenSecureChannelResponse_byte_len v)
      | SmCloseSecureChannelRequest v \<Rightarrow> Inr (RequestHeader_byte_len (csq_request_header v))
      | SmCloseSecureChannelResponse v \<Rightarrow> Inr (ResponseHeader_byte_len (csr_response_header v))
      | SmService v \<Rightarrow> Inr (svc_byte_len svc v))"

definition SupportedMessage_encode :: "'m services \<Rightarrow> 'm SupportedMessage \<Rightarrow> writer" where
  "SupportedMessage_encode svc m =
     (case m of
        SmInvalid _ \<Rightarrow> failW Panic
      | SmAcknowledge v \<Rightarrow> AcknowledgeMessage_encode v
      | SmServiceFault v \<Rightarrow> ResponseHeader_encode (sf_response_header v)
      | SmOpenSecureChannelRequest v \<Rightarrow> OpenSecureChannelRequest_encode v
      | SmOpenSecureChannelResponse v \<Rightarrow> OpenSecureChannelResponse_encode v
      | SmCloseSecureChannelRequest v \<Rightarrow> RequestHeader_encode (csq_request_header v)
      | SmCloseSecureChannelResponse v \<Rightarrow> ResponseHeader_encode (csr_response_header v)
      | SmService v \<Rightarrow> svc_encode svc v)"

definition SupportedMessage_object_id :: "'m services \<Rightarrow> 'm SupportedMessage \<Rightarrow> u32 res" where
  "SupportedMessage_object_id svc m =
     (case m of
        SmInvalid _ \<Rightarrow> Inl Panic
      | SmAcknowledge _ \<Rightarrow> Inl Panic
      | SmServiceFault _ \<Rightarrow> Inr 397
      | SmOpenSecureChannelRequest _ \<Rightarrow> Inr 446
      | SmOpenSecureChannelResponse _ \<Rightarrow> Inr 449
      | SmCloseSecureChannelRequest _ \<Rightarrow> Inr 452
      | SmCloseSecureChannelResponse _ \<Rightarrow> Inr 455
      | SmService v \<Rightarrow> Inr (svc_object_id svc v))"

definition SupportedMessage_node_id :: "'m services \<Rightarrow> 'm SupportedMessage \<Rightarrow> NodeId res" where
  "SupportedMessage_node_id svc m =
     mapR (\<lambda>i. NodeId_new 0 (IdNumeric i)) (SupportedMessage_object_id svc m)"

definition decode_by_object_id :: "'m services \<Rightarrow> u32 \<Rightarrow> DecodingOptions \<Rightarrow> 'm SupportedMessage reader" where
  "decode_by_object_id svc object_id opts =
     (if object_id = 397 then mapD (\<lambda>h. SmServiceFault \<lparr> sf_response_header = h \<rparr>) (ResponseHeader_decode opts)
      else if object_id = 446 then mapD SmOpenSecureChannelRequest (OpenSecureChannelRequest_decode opts)
      else if object_id = 449 then mapD SmOpenSecureChannelResponse (OpenSecureChannelResponse_decode opts)
      else if object_id = 452 then
        mapD (\<lambda>h. SmCloseSecureChannelRequest \<lparr> csq_request_header = h \<rparr>) (RequestHeader_decode opts)
      else if object_id = 455 then
        mapD (\<lambda>h. SmCloseSecureChannelResponse \<lparr> csr_response_header = h \<rparr>) (ResponseHeader_decode opts)
      else case svc_decode svc object_id of
             Some decode \<Rightarrow> mapD SmService (decode opts)
           | None \<Rightarrow> returnD (SmInvalid object_id))"

section \<open>Bytes and limits of the messages\<close>

definition RequestHeader_bytes :: "RequestHeader \<Rightarrow> u8 list" where
  "RequestHeader_bytes h =
     NodeId_bytes (rqh_authentication_token h) @ DateTime_bytes (rqh_timestamp h)
     @ le_bytes 4 (rqh_request_handle h) @ le_bytes 4 (rqh_return_diagnostics h)
     @ UAString_bytes (rqh_audit_entry_id h) @ le_bytes 4 (rqh_timeout_hint h)
     @ ExtensionObject_bytes (rqh_additional_header h)"

definition RequestHeader_valid :: "RequestHeader \<Rightarrow> bool" where
  "RequestHeader_valid h \<longleftrightarrow>
     NodeId_valid (rqh_authentication_token h) \<and> ExtensionObject_valid (rqh_additional_header h)"

definition RequestHeader_fits :: "DecodingOptions \<Rightarrow> RequestHeader \<Rightarrow> bool" where
  "RequestHeader_fits opts h \<longleftrightarrow>
     NodeId_fits opts (rqh_authentication_token h) \<and> DateTime_fits opts (rqh_timestamp h)
     \<and> rqh_return_diagnostics h AND DIAGNOSTIC_BITS = rqh_return_diagnostics h
     \<and> UAString_fits opts (rqh_audit_entry_id h) \<and> ExtensionObject_fits opts (rqh_additional_header h)"

definition ResponseHeader_bytes :: "ResponseHeader \<Rightarrow> u8 list" where
  "ResponseHeader_bytes h =
     DateTime_bytes (rsh_timestamp h) @ le_bytes 4 (rsh_request_handle h) @ le_bytes 4 (rsh_service_result h)
     @ DiagnosticInfo_bytes (rsh_service_diagnostics h) @ UAString_codec.array_bytes (rsh_string_table h)
     @ ExtensionObject_bytes (rsh_additional_header h)"

definition ResponseHeader_valid :: "ResponseHeader \<Rightarrow> bool" where
  "ResponseHeader_valid h \<longleftrightarrow> ExtensionObject_valid (rsh_additional_header h)"

definition ResponseHeader_fits :: "DecodingOptions \<Rightarrow> ResponseHeader \<Rightarrow> bool" where
  "ResponseHeader_fits opts h \<longleftrightarrow>
     DateTime_fits opts (rsh_timestamp h) \<and> DiagnosticInfo_fits opts (rsh_service_diagnostics h)
     \<and> UAString_codec.array_fits opts (rsh_string_table h) \<and> ExtensionObject_fits opts (rsh_additional_header h)"

lemmas field_writes [writes_rules] = NodeId_codec.encode_writes DateTime_codec.encode_writes
  UAString_codec.encode_writes ByteString_codec.encode_writes ExtensionObject_codec.encode_writes
  StatusCode_codec.encode_writes DiagnosticInfo_codec.encode_writes u32_codec.encode_writes
  UAString_codec.write_array_writes

lemmas field_reads = NodeId_codec.decode_reads [THEN readsD] DateTime_codec.decode_reads [THEN readsD]
  UAString_codec.decode_reads [THEN readsD] ByteString_codec.decode_reads [THEN readsD]
  ExtensionObject_codec.decode_reads [THEN readsD] StatusCode_codec.decode_reads [THEN readsD]
  DiagnosticInfo_codec.decode_reads [THEN readsD] u32_codec.decode_reads [THEN readsD]
  UAString_codec.read_array_reads [THEN readsD]

lemmas field_safe [safe0_rules] = NodeId_codec.decode_safe [THEN safe_reader_0]
  DateTime_codec.decode_safe [THEN safe_reader_0] ExtensionObject_codec.decode_safe [THEN safe_reader_0]
  StatusCode_codec.decode_safe [THEN safe_reader_0] DiagnosticInfo_codec.decode_safe [THEN safe_reader_0]
  u32_codec.decode_safe [THEN safe_reader_0] UAString_codec.read_array_safe [THEN safe_reader_0]

lemmas field_lens = NodeId_codec.byte_len_exact DateTime_codec.byte_len_exact UAString_codec.byte_len_exact
  ByteString_codec.byte_len_exact ExtensionObject_codec.byte_len_exact StatusCode_codec.byte_len_exact
  DiagnosticInfo_codec.byte_len_exact u32_codec.byte_len_exact UAString_codec.byte_len_array_exact

lemmas field_valid = NodeId_codec.fits_valid ExtensionObject_codec.fits_valid

interpretation RequestHeader_codec: codec RequestHeader_byte_len RequestHeader_encode RequestHeader_bytes
  RequestHeader_valid RequestHeader_decode 0 RequestHeader_fits
proof unfold_locales
  fix opts h
  show "writes (RequestHeader_encode h) (RequestHeader_bytes h)" if "RequestHeader_valid h"
    using that unfolding RequestHeader_encode_def RequestHeader_bytes_def RequestHeader_valid_def
    by (intro writes_thenW field_writes) simp_all
  show "RequestHeader_byte_len h = length (RequestHeader_bytes h)" if "RequestHeader_valid h"
    using that by (simp add: RequestHeader_byte_len_def RequestHeader_bytes_def RequestHeader_valid_def field_lens)
  show "safe_reader 0 (RequestHeader_decode opts)"
    unfolding RequestHeader_decode_def by (intro safe0_rules)
  show "RequestHeader_valid h" if "RequestHeader_fits opts h"
    using that by (auto simp: RequestHeader_fits_def RequestHeader_valid_def intro: field_valid)
  show "reads (RequestHeader_decode opts) (RequestHeader_bytes h) h" if "RequestHeader_fits opts h"
    using that by (simp add: reads_def RequestHeader_decode_def RequestHeader_bytes_def RequestHeader_fits_def
        bindD_def returnD_def field_reads)
qed

interpretation ResponseHeader_codec: codec ResponseHeader_byte_len ResponseHeader_encode ResponseHeader_bytes
  ResponseHeader_valid ResponseHeader_decode 0 ResponseHeader_fits
proof unfold_locales
  fix opts h
  show len: "ResponseHeader_byte_len h = length (ResponseHeader_bytes h)" if "ResponseHeader_valid h"
    using that by (simp add: ResponseHeader_byte_len_def ResponseHeader_bytes_def ResponseHeader_valid_def field_lens)
  show "writes (ResponseHeader_encode h) (ResponseHeader_bytes h)" if "ResponseHeader_valid h"
    using that len [OF that] unfolding ResponseHeader_encode_def
    by (intro writes_assert_size) (auto simp: ResponseHeader_bytes_def ResponseHeader_valid_def
        intro!: writes_thenW field_writes)
  show "safe_reader 0 (ResponseHeader_decode opts)"
    unfolding ResponseHeader_decode_def by (intro safe0_rules)
  show "ResponseHeader_valid h" if "ResponseHeader_fits opts h"
    using that by (auto simp: ResponseHeader_fits_def ResponseHeader_valid_def intro: field_valid)
  show "reads (ResponseHeader_decode opts) (ResponseHeader_bytes h) h" if "ResponseHeader_fits opts h"
    using that by (simp add: reads_def ResponseHeader_decode_def ResponseHeader_bytes_def ResponseHeader_fits_def
        bindD_def returnD_def field_reads)
qed

definition SecurityTokenRequestType_bytes :: "SecurityTokenRequestType \<Rightarrow> u8 list" where
  "SecurityTokenRequestType_bytes v = le_bytes 4 ((case v of Issue \<Rightarrow> 0 | Renew \<Rightarrow> 1) :: 32 word)"

definition MessageSecurityMode_bytes :: "MessageSecurityMode \<Rightarrow> u8 list" where
  "MessageSecurityMode_bytes v = le_bytes 4
     ((case v of ModeInvalid \<Rightarrow> 0 | ModeNone \<Rightarrow> 1 | ModeSign \<Rightarrow> 2 | ModeSignAndEncrypt \<Rightarrow> 3) :: 32 word)"

definition ChannelSecurityToken_bytes :: "ChannelSecurityToken \<Rightarrow> u8 list" where
  "ChannelSecurityToken_bytes t = le_bytes 4 (tk_channel_id t) @ le_bytes 4 (tk_token_id t)
     @ DateTime_bytes (tk_created_at t) @ le_bytes 4 (tk_revised_lifetime t)"

interpretation SecurityTokenRequestType_codec: codec "\<lambda>_. 4" SecurityTokenRequestType_encode
  SecurityTokenRequestType_bytes "\<lambda>_. True" SecurityTokenRequestType_decode 0 "\<lambda>_ _. True"
proof unfold_locales
  fix opts v
  show "safe_reader 0 (SecurityTokenRequestType_decode opts)"
    unfolding SecurityTokenRequestType_decode_def by (intro safe0_rules)
  show "reads (SecurityTokenRequestType_decode opts) (SecurityTokenRequestType_bytes v) v"
    by (cases v) (simp_all add: reads_def SecurityTokenRequestType_decode_def SecurityTokenRequestType_bytes_def
        read_simps del: le_bytes.simps)
qed (simp_all add: SecurityTokenRequestType_encode_def SecurityTokenRequestType_bytes_def writes_ints)

interpretation MessageSecurityMode_codec: codec "\<lambda>_. 4" MessageSecurityMode_encode
  MessageSecurityMode_bytes "\<lambda>_. True" MessageSecurityMode_decode 0 "\<lambda>_ _. True"
proof unfold_locales
  fix opts v
  show "safe_reader 0 (MessageSecurityMode_decode opts)"
    unfolding MessageSecurityMode_decode_def by (intro safe0_rules)
  show "reads (MessageSecurityMode_decode opts) (MessageSecurityMode_bytes v) v"
    by (cases v) (simp_all add: reads_def MessageSecurityMode_decode_def MessageSecurityMode_bytes_def
        read_simps del: le_bytes.simps)
qed (simp_all add: MessageSecurityMode_encode_def MessageSecurityMode_bytes_def writes_ints)

interpretation ChannelSecurityToken_codec: codec ChannelSecurityToken_byte_len ChannelSecurityToken_encode
  ChannelSecurityToken_bytes "\<lambda>_. True" ChannelSecurityToken_decode 0
  "\<lambda>opts t. DateTime_fits opts (tk_created_at t)"
proof unfold_locales
  fix opts t
  show "writes (ChannelSecurityToken_encode t) (ChannelSecurityToken_bytes t)"
    unfolding ChannelSecurityToken_encode_def ChannelSecurityToken_bytes_def
    by (intro writes_thenW field_writes) simp_all
  show "ChannelSecurityToken_byte_len t = length (ChannelSecurityToken_bytes t)"
    by (simp add: ChannelSecurityToken_byte_len_def ChannelSecurityToken_bytes_def field_lens)
  show "safe_reader 0 (ChannelSecurityToken_decode opts)"
    unfolding ChannelSecurityToken_decode_def by (intro safe0_rules)
  show "reads (ChannelSecurityToken_decode opts) (ChannelSecurityToken_bytes t) t"
    if "DateTime_fits opts (tk_created_at t)"
    using that by (simp add: reads_def ChannelSecurityToken_decode_def ChannelSecurityToken_bytes_def
        bindD_def returnD_def field_reads)
qed simp

definition OpenSecureChannelRequest_bytes :: "OpenSecureChannelRequest \<Rightarrow> u8 list" where
  "OpenSecureChannelRequest_bytes m =
     RequestHeader_bytes (osq_request_header m) @ le_bytes 4 (osq_client_protocol_version m)
     @ SecurityTokenRequestType_bytes (osq_request_type m) @ MessageSecurityMode_bytes (osq_security_mode m)
     @ ByteString_bytes (osq_client_nonce m) @ le_bytes 4 (osq_requested_lifetime m)"

definition OpenSecureChannelResponse_bytes :: "OpenSecureChannelResponse \<Rightarrow> u8 list" where
  "OpenSecureChannelResponse_bytes m =
     ResponseHeader_bytes (osr_response_header m) @ le_bytes 4 (osr_server_protocol_version m)
     @ ChannelSecurityToken_bytes (osr_security_token m) @ ByteString_bytes (osr_server_nonce m)"

lemmas part_writes = RequestHeader_codec.encode_writes ResponseHeader_codec.encode_writes
  SecurityTokenRequestType_codec.encode_writes MessageSecurityMode_codec.encode_writes
  ChannelSecurityToken_codec.encode_writes

lemmas part_reads = RequestHeader_codec.decode_reads [THEN readsD] ResponseHeader_codec.decode_reads [THEN readsD]
  SecurityTokenRequestType_codec.decode_reads [THEN readsD] MessageSecurityMode_codec.decode_reads [THEN readsD]
  ChannelSecurityToken_codec.decode_reads [THEN readsD]

lemmas part_safe [safe0_rules] = RequestHeader_codec.decode_safe ResponseHeader_codec.decode_safe
  SecurityTokenRequestType_codec.decode_safe MessageSecurityMode_codec.decode_safe
  ChannelSecurityToken_codec.decode_safe

lemmas part_lens = RequestHeader_codec.byte_len_exact ResponseHeader_codec.byte_len_exact
  SecurityTokenRequestType_codec.byte_len_exact [symmetric] MessageSecurityMode_codec.byte_len_exact [symmetric]
  ChannelSecurityToken_codec.byte_len_exact

interpretation OpenSecureChannelRequest_codec: codec OpenSecureChannelRequest_byte_len
  OpenSecureChannelRequest_encode OpenSecureChannelRequest_bytes "\<lambda>m. RequestHeader_valid (osq_request_header m)"
  OpenSecureChannelRequest_decode 0
  "\<lambda>opts m. RequestHeader_fits opts (osq_request_header m) \<and> ByteString_fits opts (osq_client_nonce m)"
proof unfold_locales
  fix opts m
  show "writes (OpenSecureChannelRequest_encode m) (OpenSecureChannelRequest_bytes m)"
    if "RequestHeader_valid (osq_request_header m)"
    using that unfolding OpenSecureChannelRequest_encode_def OpenSecureChannelRequest_bytes_def
    by (intro writes_thenW field_writes part_writes) simp_all
  show "OpenSecureChannelRequest_byte_len m = length (OpenSecureChannelRequest_bytes m)"
    if "RequestHeader_valid (osq_request_header m)"
    using that by (simp add: OpenSecureChannelRequest_byte_len_def OpenSecureChannelRequest_bytes_def
        field_lens part_lens)
  show "safe_reader 0 (OpenSecureChannelRequest_decode opts)"
    unfolding OpenSecureChannelRequest_decode_def by (intro safe0_rules)
  show "reads (OpenSecureChannelRequest_decode opts) (OpenSecureChannelRequest_bytes m) m"
    if "RequestHeader_fits opts (osq_request_header m) \<and> ByteString_fits opts (osq_client_nonce m)"
    using that by (simp add: reads_def OpenSecureChannelRequest_decode_def OpenSecureChannelRequest_bytes_def
        bindD_def returnD_def field_reads part_reads)
qed (auto intro: RequestHeader_codec.fits_valid)

interpretation OpenSecureChannelResponse_codec: codec OpenSecureChannelResponse_byte_len
  OpenSecureChannelResponse_encode OpenSecureChannelResponse_bytes "\<lambda>m. ResponseHeader_valid (osr_response_header m)"
  OpenSecureChannelResponse_decode 0
  "\<lambda>opts m. ResponseHeader_fits opts (osr_response_header m) \<and> DateTime_fits opts (tk_created_at (osr_security_token m))
     \<and> ByteString_fits opts (osr_server_nonce m)"
proof unfold_locales
  fix opts m
  show "writes (OpenSecureChannelResponse_encode m) (OpenSecureChannelResponse_bytes m)"
    if "ResponseHeader_valid (osr_response_header m)"
    using that unfolding OpenSecureChannelResponse_encode_def OpenSecureChannelResponse_bytes_def
    by (intro writes_thenW field_writes part_writes) simp_all
  show "OpenSecureChannelResponse_byte_len m = length (OpenSecureChannelResponse_bytes m)"
    if "ResponseHeader_valid (osr_response_header m)"
    using that by (simp add: OpenSecureChannelResponse_byte_len_def OpenSecureChannelResponse_bytes_def
        field_lens part_lens)
  show "safe_reader 0 (OpenSecureChannelResponse_decode opts)"
    unfolding OpenSecureChannelResponse_decode_def by (intro safe0_rules)
  show "reads (OpenSecureChannelResponse_decode opts) (OpenSecureChannelResponse_bytes m) m"
    if "ResponseHeader_fits opts (osr_response_header m) \<and> DateTime_fits opts (tk_created_at (osr_security_token m))
     \<and> ByteString_fits opts (osr_server_nonce m)"
    using that by (simp add: reads_def OpenSecureChannelResponse_decode_def OpenSecureChannelResponse_bytes_def
        bindD_def returnD_def field_reads part_reads)
qed (auto intro: ResponseHeader_codec.fits_valid)

section \<open>The publish request meets the codec contract\<close>

definition SubscriptionAcknowledgement_bytes :: "SubscriptionAcknowledgement \<Rightarrow> u8 list" where
  "SubscriptionAcknowledgement_bytes a = le_bytes 4 (sa_subscription_id a) @ le_bytes 4 (sa_sequence_number a)"

interpretation SubscriptionAcknowledgement_codec: codec SubscriptionAcknowledgement_byte_len
  SubscriptionAcknowledgement_encode SubscriptionAcknowledgement_bytes "\<lambda>_. True"
  SubscriptionAcknowledgement_decode 0 "\<lambda>_ _. True"
proof unfold_locales
  fix opts a
  show "writes (SubscriptionAcknowledgement_encode a) (SubscriptionAcknowledgement_bytes a)"
    unfolding SubscriptionAcknowledgement_encode_def SubscriptionAcknowledgement_bytes_def
    by (intro writes_thenW field_writes) simp_all
  show "SubscriptionAcknowledgement_byte_len a = length (SubscriptionAcknowledgement_bytes a)"
    by (simp add: SubscriptionAcknowledgement_byte_len_def SubscriptionAcknowledgement_bytes_def field_lens)
  show "safe_reader 0 (SubscriptionAcknowledgement_decode opts)"
    unfolding SubscriptionAcknowledgement_decode_def by (intro safe0_rules)
  show "reads (SubscriptionAcknowledgement_decode opts) (SubscriptionAcknowledgement_bytes a) a"
    by (simp add: reads_def SubscriptionAcknowledgement_decode_def SubscriptionAcknowledgement_bytes_def
        bindD_def returnD_def field_reads)
qed simp

definition PublishRequest_bytes :: "PublishRequest \<Rightarrow> u8 list" where
  "PublishRequest_bytes m = RequestHeader_bytes (pq_request_header m)
     @ SubscriptionAcknowledgement_codec.array_bytes (pq_subscription_acknowledgements m)"

definition PublishRequest_fits :: "DecodingOptions \<Rightarrow> PublishRequest \<Rightarrow> bool" where
  "PublishRequest_fits opts m \<longleftrightarrow> RequestHeader_fits opts (pq_request_header m)
     \<and> SubscriptionAcknowledgement_codec.array_fits opts (pq_subscription_acknowledgements m)"

interpretation PublishRequest_codec: codec PublishRequest_byte_len PublishRequest_encode PublishRequest_bytes
  "\<lambda>m. RequestHeader_valid (pq_request_header m)" PublishRequest_decode 0 PublishRequest_fits
proof unfold_locales
  fix opts m
  show "writes (PublishRequest_encode m) (PublishRequest_bytes m)" if "RequestHeader_valid (pq_request_header m)"
    using that unfolding PublishRequest_encode_def PublishRequest_bytes_def
    by (intro writes_thenW part_writes SubscriptionAcknowledgement_codec.write_array_writes) simp_all
  show "PublishRequest_byte_len m = length (PublishRequest_bytes m)" if "RequestHeader_valid (pq_request_header m)"
    using that by (simp add: PublishRequest_byte_len_def PublishRequest_bytes_def part_lens
        SubscriptionAcknowledgement_codec.byte_len_array_exact)
  show "safe_reader 0 (PublishRequest_decode opts)"
    unfolding PublishRequest_decode_def
    by (intro safe0_rules SubscriptionAcknowledgement_codec.read_array_safe [THEN safe_reader_0])
  show "reads (PublishRequest_decode opts) (PublishRequest_bytes m) m" if "PublishRequest_fits opts m"
    using that by (simp add: reads_def PublishRequest_decode_def PublishRequest_bytes_def PublishRequest_fits_def
        bindD_def returnD_def part_reads SubscriptionAcknowledgement_codec.read_array_reads [THEN readsD])
qed (auto simp: PublishRequest_fits_def intro: RequestHeader_codec.fits_valid)

section \<open>The contract of the dispatched messages\<close>

definition SupportedMessage_bytes :: "('m \<Rightarrow> u8 list) \<Rightarrow> 'm SupportedMessage \<Rightarrow> u8 list" where
  "SupportedMessage_bytes bytes m =
     (case m of
        SmInvalid _ \<Rightarrow> []
      | SmAcknowledge v \<Rightarrow> AcknowledgeMessage_bytes v
      | SmServiceFault v \<Rightarrow> ResponseHeader_bytes (sf_response_header v)
      | SmOpenSecureChannelRequest v \<Rightarrow> OpenSecureChannelRequest_bytes v
      | SmOpenSecureChannelResponse v \<Rightarrow> OpenSecureChannelResponse_bytes v
      | SmCloseSecureChannelRequest v \<Rightarrow> RequestHeader_bytes (csq_request_header v)
      | SmCloseSecureChannelResponse v \<Rightarrow> ResponseHeader_bytes (csr_response_header v)
      | SmService v \<Rightarrow> bytes v)"

definition SupportedMessage_fits ::
  "(DecodingOptions \<Rightarrow> 'm \<Rightarrow> bool) \<Rightarrow> DecodingOptions \<Rightarrow> 'm SupportedMessage \<Rightarrow> bool" where
  "SupportedMessage_fits fits opts m =
     (case m of
        SmInvalid _ \<Rightarrow> False
      | SmAcknowledge _ \<Rightarrow> False
      | SmServiceFault v \<Rightarrow> ResponseHeader_fits opts (sf_response_header v)
      | SmOpenSecureChannelRequest v \<Rightarrow>
          RequestHeader_fits opts (osq_request_header v) \<and> ByteString_fits opts (osq_client_nonce v)
      | SmOpenSecureChannelResponse v \<Rightarrow>
          ResponseHeader_fits opts (osr_response_header v) \<and> DateTime_fits opts (tk_created_at (osr_security_token v))
          \<and> ByteString_fits opts (osr_server_nonce v)
      | SmCloseSecureChannelRequest v \<Rightarrow> RequestHeader_fits opts (csq_request_header v)
      | SmCloseSecureChannelResponse v \<Rightarrow> ResponseHeader_fits opts (csr_response_header v)
      | SmService v \<Rightarrow> fits opts v)"

definition channel_object_ids :: "u32 list" where
  "channel_object_ids = [397, 446, 449, 452, 455]"

text \<open>The laws of the other services: a message that respects the limits is encoded to its bytes,
  announces their number, and is decoded from them by the arm of its own object id, which is
  not an object id of the secure channel service.\<close>

locale service_messages =
  fixes svc :: "'m services" and bytes :: "'m \<Rightarrow> u8 list" and fits :: "DecodingOptions \<Rightarrow> 'm \<Rightarrow> bool"
  assumes svc_encodes: "fits opts m \<Longrightarrow> writes (svc_encode svc m) (bytes m)"
    and svc_len: "fits opts m \<Longrightarrow> svc_byte_len svc m = length (bytes m)"
    and svc_decodes: "fits opts m \<Longrightarrow>
      \<exists>decode. svc_decode svc (svc_object_id svc m) = Some decode \<and> reads (decode opts) (bytes m) m"
    and svc_safe: "svc_decode svc i = Some decode \<Longrightarrow> safe_reader 0 (decode opts)"
    and svc_id: "fits opts m \<Longrightarrow> svc_is_object_id svc (svc_object_id svc m)"
    and svc_id_fresh: "fits opts m \<Longrightarrow> svc_object_id svc m \<notin> set channel_object_ids"
    and channel_ids: "i \<in> set channel_object_ids \<Longrightarrow> svc_is_object_id svc i"
begin

lemma message_encodes:
  assumes "SupportedMessage_fits fits opts m"
  shows "writes (SupportedMessage_encode svc m) (SupportedMessage_bytes bytes m)"
  using assms
  by (cases m) (auto simp: SupportedMessage_fits_def SupportedMessage_encode_def SupportedMessage_bytes_def
      intro!: RequestHeader_codec.encode_writes ResponseHeader_codec.encode_writes
        OpenSecureChannelRequest_codec.encode_writes OpenSecureChannelResponse_codec.encode_writes
      intro: svc_encodes RequestHeader_codec.fits_valid ResponseHeader_codec.fits_valid)

lemma message_len:
  assumes "SupportedMessage_fits fits opts m"
  shows "SupportedMessage_byte_len svc m = Inr (length (SupportedMessage_bytes bytes m))"
  using assms
  by (cases m) (auto simp: SupportedMessage_fits_def SupportedMessage_byte_len_def SupportedMessage_bytes_def
      intro!: RequestHeader_codec.byte_len_exact ResponseHeader_codec.byte_len_exact
        OpenSecureChannelRequest_codec.byte_len_exact OpenSecureChannelResponse_codec.byte_len_exact
      intro: svc_len RequestHeader_codec.fits_valid ResponseHeader_codec.fits_valid)

lemma message_id:
  assumes "SupportedMessage_fits fits opts m"
  obtains i where "SupportedMessage_object_id svc m = Inr i" "svc_is_object_id svc i"
  using assms channel_ids svc_id
  by (cases m) (auto simp: SupportedMessage_fits_def SupportedMessage_object_id_def channel_object_ids_def)

lemma message_decodes:
  assumes "SupportedMessage_fits fits opts m" "SupportedMessage_object_id svc m = Inr i"
  shows "reads (decode_by_object_id svc i opts) (SupportedMessage_bytes bytes m) m"
proof (cases m)
  case (SmService v)
  with assms have v: "fits opts v" and i: "i = svc_object_id svc v"
    by (simp_all add: SupportedMessage_fits_def SupportedMessage_object_id_def)
  obtain decode where "svc_decode svc i = Some decode" "reads (decode opts) (bytes v) v"
    using svc_decodes [OF v] i by blast
  with svc_id_fresh [OF v] SmService show ?thesis
    by (simp add: decode_by_object_id_def channel_object_ids_def SupportedMessage_bytes_def i reads_mapD)
next
  case (SmServiceFault v)
  with assms show ?thesis
    using reads_mapD [OF ResponseHeader_codec.decode_reads, of opts "sf_response_header v"
        "\<lambda>h. SmServiceFault \<lparr> sf_response_header = h \<rparr>"]
    by (cases v) (simp add: SupportedMessage_fits_def SupportedMessage_object_id_def decode_by_object_id_def
        SupportedMessage_bytes_def)
next
  case (SmCloseSecureChannelRequest v)
  with assms show ?thesis
    using reads_mapD [OF RequestHeader_codec.decode_reads, of opts "csq_request_header v"
        "\<lambda>h. SmCloseSecureChannelRequest \<lparr> csq_request_header = h \<rparr>"]
    by (cases v) (simp add: SupportedMessage_fits_def SupportedMessage_object_id_def decode_by_object_id_def
        SupportedMessage_bytes_def)
next
  case (SmCloseSecureChannelResponse v)
  with assms show ?thesis
    using reads_mapD [OF ResponseHeader_codec.decode_reads, of opts "csr_response_header v"
        "\<lambda>h. SmCloseSecureChannelResponse \<lparr> csr_response_header = h \<rparr>"]
    by (cases v) (simp add: SupportedMessage_fits_def SupportedMessage_object_id_def decode_by_object_id_def
        SupportedMessage_bytes_def)
qed (use assms in \<open>auto simp: SupportedMessage_fits_def SupportedMessage_object_id_def decode_by_object_id_def
      SupportedMessage_bytes_def intro!: reads_mapD OpenSecureChannelRequest_codec.decode_reads
      OpenSecureChannelResponse_codec.decode_reads\<close>)

lemma dispatch_safe: "safe_reader 0 (decode_by_object_id svc i opts)"
  unfolding decode_by_object_id_def
  by (auto split: option.split intro!: safe_mapD safe_returnD svc_safe part_safe
      OpenSecureChannelRequest_codec.decode_safe OpenSecureChannelResponse_codec.decode_safe)

end

definition publish_services :: "PublishRequest services" where
  "publish_services = \<lparr> svc_byte_len = PublishRequest_byte_len, svc_encode = PublishRequest_encode,
     svc_object_id = (\<lambda>_. 826), svc_decode = (\<lambda>i. if i = 826 then Some PublishRequest_decode else None),
     svc_is_object_id = (\<lambda>i. i = 826 \<or> i \<in> set channel_object_ids) \<rparr>"

interpretation publish_messages: service_messages publish_services PublishRequest_bytes PublishRequest_fits
  by unfold_locales
    (auto simp: publish_services_def channel_object_ids_def PublishRequest_codec.decode_reads
      PublishRequest_codec.decode_safe split: if_splits
      intro: PublishRequest_codec.encode_writes PublishRequest_codec.byte_len_exact PublishRequest_codec.fits_valid)

end
