(* ===== verification/Opc_Chunker.thy ===== *)
theory Opc_Chunker
  imports Opc_Messages Opc_Channel_Security
begin

text \<open>
  The chunker of \<open>core/comms/chunker.rs\<close>: a message is encoded behind the node id of its
  type, cut into the bodies of one or more chunks with consecutive sequence numbers, and
  put together again by the receiver, which first validates the sequence.
\<close>

section \<open>Splitting and validating\<close>

definition Chunker_message_type :: "'m SupportedMessage \<Rightarrow> MessageChunkType" where
  "Chunker_message_type m =
     (case m of
        SmOpenSecureChannelRequest _ \<Rightarrow> CtOpenSecureChannel
      | SmOpenSecureChannelResponse _ \<Rightarrow> CtOpenSecureChannel
      | SmCloseSecureChannelRequest _ \<Rightarrow> CtCloseSecureChannel
      | SmCloseSecureChannelResponse _ \<Rightarrow> CtCloseSecureChannel
      | _ \<Rightarrow> CtMessage)"

text \<open>The loop over the chunks: \<open>i\<close> is the index, \<open>expected\<close> the request id of the first chunk.\<close>

fun validate_loop :: "SecureChannel \<Rightarrow> u32 \<Rightarrow> nat \<Rightarrow> u32 \<Rightarrow> MessageChunk list \<Rightarrow> unit res" where
  "validate_loop sc first i expected [] = Inr ()"
| "validate_loop sc first i expected (chunk # chunks) =
     bindR (ChunkInfo_new chunk sc) (\<lambda>chunk_info.
       if sc_secure_channel_id sc \<noteq> 0 \<and>
          ch_secure_channel_id (ci_message_header chunk_info) \<noteq> sc_secure_channel_id sc
       then Inl (Err BadSecureChannelIdInvalid)
       else bindR (add_u32 first (of_nat i)) (\<lambda>expected_sequence_number.
         if sequence_number (ci_sequence_header chunk_info) \<noteq> expected_sequence_number
         then Inl (Err BadSecurityChecksFailed)
         else if i = 0 then
           validate_loop sc first (Suc i) (request_id (ci_sequence_header chunk_info)) chunks
         else if request_id (ci_sequence_header chunk_info) \<noteq> expected
         then Inl (Err BadSecurityChecksFailed)
         else validate_loop sc first (Suc i) expected chunks))"

definition validate_chunks :: "u32 \<Rightarrow> SecureChannel \<Rightarrow> MessageChunk list \<Rightarrow> u32 res" where
  "validate_chunks starting_sequence_number sc chunks =
     (case chunks of
        [] \<Rightarrow> Inl Panic
      | chunk # _ \<Rightarrow>
          bindR (ChunkInfo_new chunk sc) (\<lambda>chunk_info.
          let first = sequence_number (ci_sequence_header chunk_info) in
          if first < starting_sequence_number then Inl (Err BadSequenceNumberInvalid)
          else
            bindR (validate_loop sc first 0 0 chunks) (\<lambda>_.
            bindR (add_u32 first (of_nat (length chunks))) (\<lambda>n. sub_u32 n 1))))"

section \<open>Encoding\<close>

text \<open>\<open>data.chunks(n)\<close>, which panics when \<open>n\<close> is zero; the caller checks that.\<close>

function chunks_of :: "nat \<Rightarrow> 'a list \<Rightarrow> 'a list list" where
  "chunks_of n xs = (if n = 0 \<or> xs = [] then [] else take n xs # chunks_of n (drop n xs))"
  by pat_completeness auto
termination by (relation "measure (length \<circ> snd)") auto

declare chunks_of.simps [simp del]

fun make_chunks ::
  "openssl \<Rightarrow> u32 \<Rightarrow> u32 \<Rightarrow> MessageChunkType \<Rightarrow> SecureChannel \<Rightarrow> nat \<Rightarrow> nat \<Rightarrow> u8 list list \<Rightarrow> MessageChunk list res" where
  "make_chunks ssl sequence_no request ty sc n i [] = Inr []"
| "make_chunks ssl sequence_no request ty sc n i (data_chunk # rest) =
     bindR (add_u32 sequence_no (of_nat i)) (\<lambda>number.
     bindR (MessageChunk_new ssl number request ty (if i = n - 1 then Final else Intermediate) sc data_chunk) (\<lambda>chunk.
       mapR (Cons chunk) (make_chunks ssl sequence_no request ty sc n (Suc i) rest)))"

definition Chunker_encode ::
  "openssl \<Rightarrow> 'm services \<Rightarrow> u32 \<Rightarrow> u32 \<Rightarrow> nat \<Rightarrow> nat \<Rightarrow> SecureChannel \<Rightarrow> 'm SupportedMessage \<Rightarrow> MessageChunk list res" where
  "Chunker_encode ssl svc sequence_no request max_message max_chunk sc message =
     (if sc_security_policy sc = SpUnknown then Inl Panic
      else
        bindR (SupportedMessage_byte_len svc message) (\<lambda>message_size.
        if max_message > 0 \<and> message_size > max_message then
          Inl (Err (if sc_role sc = RoleClient then BadRequestTooLarge else BadResponseTooLarge))
        else
          bindR (SupportedMessage_node_id svc message) (\<lambda>node_id.
          let ty = Chunker_message_type message in
          bindR (NodeId_encode node_id []) (\<lambda>(_, s).
          bindR (SupportedMessage_encode svc message s) (\<lambda>(_, s').
          let data = cursor_write s' (replicate (message_size + NodeId_byte_len node_id) 0) in
          if max_chunk > 0 then
            bindR (body_size_from_message_size ssl ty sc max_chunk) (\<lambda>body_size.
            case body_size of
              None \<Rightarrow> Inl (Err BadTcpInternalError)
            | Some max_body \<Rightarrow>
                if max_body = 0 then Inl Panic
                else
                  let data_chunks = chunks_of max_body data in
                  make_chunks ssl sequence_no request ty sc (length data_chunks) 0 data_chunks)
          else
            mapR (\<lambda>chunk. [chunk]) (MessageChunk_new ssl sequence_no request ty Final sc data))))))"

section \<open>Decoding\<close>

definition chunk_body :: "MessageChunk \<Rightarrow> ChunkInfo \<Rightarrow> u8 list res" where
  "chunk_body chunk chunk_info =
     slice (ci_body_offset chunk_info) (ci_body_offset chunk_info + ci_body_length chunk_info) (mc_data chunk)"

text \<open>The first loop checks the final flags and adds up the sizes, the second copies the bodies.\<close>

fun check_chunks :: "SecureChannel \<Rightarrow> nat \<Rightarrow> nat \<Rightarrow> MessageChunk list \<Rightarrow> nat res" where
  "check_chunks sc n i [] = Inr 0"
| "check_chunks sc n i (chunk # chunks) =
     bindR (ChunkInfo_new chunk sc) (\<lambda>chunk_info.
     if ch_is_final (ci_message_header chunk_info) \<noteq> (if i = n - 1 then Final else Intermediate)
     then Inl (Err BadDecodingError)
     else bindR (chunk_body chunk chunk_info) (\<lambda>body.
       mapR ((+) (length body)) (check_chunks sc n (Suc i) chunks)))"

fun chunk_bodies :: "SecureChannel \<Rightarrow> MessageChunk list \<Rightarrow> u8 list res" where
  "chunk_bodies sc [] = Inr []"
| "chunk_bodies sc (chunk # chunks) =
     bindR (ChunkInfo_new chunk sc) (\<lambda>chunk_info.
     bindR (chunk_body chunk chunk_info) (\<lambda>body.
       mapR (\<lambda>rest. body @ rest) (chunk_bodies sc chunks)))"

definition object_id_from_node_id :: "'m services \<Rightarrow> NodeId \<Rightarrow> NodeId option \<Rightarrow> u32 res" where
  "object_id_from_node_id svc node_id expected =
     (case ni_identifier node_id of
        IdNumeric i \<Rightarrow>
          if ni_namespace node_id \<noteq> 0 then Inl (Err BadUnexpectedError)
          else if (case expected of None \<Rightarrow> False | Some e \<Rightarrow> e \<noteq> node_id) then Inl (Err BadUnexpectedError)
          else if svc_is_object_id svc i then Inr i
          else Inl (Err BadUnexpectedError)
      | _ \<Rightarrow> Inl (Err BadUnexpectedError))"

definition Chunker_decode ::
  "'m services \<Rightarrow> MessageChunk list \<Rightarrow> SecureChannel \<Rightarrow> NodeId option \<Rightarrow> 'm SupportedMessage res" where
  "Chunker_decode svc chunks sc expected =
     bindR (check_chunks sc (length chunks) 0 chunks) (\<lambda>_.
     bindR (chunk_bodies sc chunks) (\<lambda>data.
     bindR (NodeId_decode (sc_decoding_options sc) data) (\<lambda>(node_id, s).
     bindR (object_id_from_node_id svc node_id expected) (\<lambda>object_id.
       case decode_by_object_id svc object_id (sc_decoding_options sc) s of
         Inr (SmInvalid _, _) \<Rightarrow> Inl (Err BadServiceUnsupported)
       | Inr (m, _) \<Rightarrow> Inr m
       | Inl (Err _) \<Rightarrow> Inl (Err BadServiceUnsupported)
       | Inl e \<Rightarrow> Inl e))))"

section \<open>The layout of a chunk\<close>

definition chunk_layout :: "MessageChunkHeader \<Rightarrow> SecurityHeader \<Rightarrow> SequenceHeader \<Rightarrow> u8 list \<Rightarrow> MessageChunk" where
  "chunk_layout h sh seq body =
     \<lparr> mc_data = MessageChunkHeader_bytes h @ SecurityHeader_bytes sh @ SequenceHeader_bytes seq @ body \<rparr>"

text \<open>What a receiver accepts as the security header of a chunk of a type.\<close>

definition header_matches :: "DecodingOptions \<Rightarrow> MessageChunkType \<Rightarrow> SecurityHeader \<Rightarrow> bool" where
  "header_matches opts ty sh =
     (case sh of
        Asymmetric a \<Rightarrow> ty = CtOpenSecureChannel \<and> AsymmetricSecurityHeader_fits opts a \<and>
          (UAString_is_null (security_policy_uri a) \<or> from_uri (UAString_as_ref (security_policy_uri a)) \<noteq> SpUnknown)
      | Symmetric _ \<Rightarrow> ty \<noteq> CtOpenSecureChannel)"

lemma ChunkInfo_layout:
  assumes "header_matches (sc_decoding_options rc) (ch_message_type h) sh"
  shows "ChunkInfo_new (chunk_layout h sh seq body) rc =
    Inr \<lparr> ci_message_header = h, ci_security_header = sh, ci_sequence_header = seq,
      ci_security_header_offset = 12, ci_sequence_header_offset = 12 + length (SecurityHeader_bytes sh),
      ci_body_offset = 20 + length (SecurityHeader_bytes sh), ci_body_length = length body \<rparr>"
proof (cases sh)
  case (Asymmetric a)
  with assms have "AsymmetricSecurityHeader_decode (sc_decoding_options rc) (AsymmetricSecurityHeader_bytes a @ s) = Inr (a, s)" for s
    by (simp add: header_matches_def AsymmetricSecurityHeader_codec.decode_reads [THEN readsD])
  with Asymmetric assms show ?thesis
    by (auto simp: ChunkInfo_new_def chunk_layout_def map_err_def Let_def header_matches_def SecurityHeader_bytes_def
        MessageChunk_is_open_secure_channel_def MessageChunkType_is_open_secure_channel_def)
next
  case (Symmetric t)
  with assms show ?thesis
    by (simp add: ChunkInfo_new_def chunk_layout_def map_err_def Let_def header_matches_def SecurityHeader_bytes_def
        MessageChunk_is_open_secure_channel_def MessageChunkType_is_open_secure_channel_def)
qed

lemma chunk_body_layout [simp]:
  "chunk_body (chunk_layout h sh seq body)
     \<lparr> ci_message_header = h, ci_security_header = sh, ci_sequence_header = seq,
       ci_security_header_offset = 12, ci_sequence_header_offset = k,
       ci_body_offset = 20 + length (SecurityHeader_bytes sh), ci_body_length = length body \<rparr> = Inr body"
  by (simp add: chunk_body_def chunk_layout_def slice_def)

text \<open>The chunk that \<open>MessageChunk_new\<close> makes.\<close>

definition chunk_for ::
  "SecureChannel \<Rightarrow> SecurityHeader \<Rightarrow> u32 \<Rightarrow> MessageChunkType \<Rightarrow> u32 \<Rightarrow> MessageIsFinalType \<Rightarrow> u8 list \<Rightarrow> MessageChunk" where
  "chunk_for sc sh request ty number fin body =
     chunk_layout \<lparr> ch_message_type = ty, ch_is_final = fin,
        ch_message_size = of_nat (20 + length (SecurityHeader_bytes sh) + length body),
        ch_secure_channel_id = sc_secure_channel_id sc \<rparr> sh \<lparr> sequence_number = number, request_id = request \<rparr> body"

lemma MessageChunk_new_layout:
  assumes "make_security_header ssl sc ty = Inr sh"
  shows "MessageChunk_new ssl number request ty fin sc body = Inr (chunk_for sc sh request ty number fin body)"
proof -
  have sh: "writes (SecurityHeader_encode sh) (SecurityHeader_bytes sh)"
    by (cases sh) (simp_all add: SecurityHeader_encode_def SecurityHeader_bytes_def
        AsymmetricSecurityHeader_codec.encode_writes SymmetricSecurityHeader_codec.encode_writes)
  have "writes (thenW (MessageChunkHeader_encode h) (thenW (SecurityHeader_encode sh)
      (thenW (SequenceHeader_encode seq) (writeW body))))
      (MessageChunkHeader_bytes h @ SecurityHeader_bytes sh @ SequenceHeader_bytes seq @ body)" for h seq
    by (intro writes_thenW sh MessageChunkHeader_codec.encode_writes SequenceHeader_codec.encode_writes)
      (simp_all add: writes_def writeW_def)
  then show ?thesis
    by (simp add: MessageChunk_new_def assms Let_def writes_def chunk_for_def chunk_layout_def cursor_write_def
        length_SecurityHeader_bytes SequenceHeader_byte_len_def MESSAGE_CHUNK_HEADER_SIZE_def algebra_simps)
qed

section \<open>A sequence of chunks\<close>

fun chunk_seq ::
  "SecureChannel \<Rightarrow> SecurityHeader \<Rightarrow> u32 \<Rightarrow> MessageChunkType \<Rightarrow> u32 \<Rightarrow> nat \<Rightarrow> nat \<Rightarrow> u8 list list \<Rightarrow> MessageChunk list" where
  "chunk_seq sc sh request ty number n i [] = []"
| "chunk_seq sc sh request ty number n i (d # ds) =
     chunk_for sc sh request ty (number + of_nat i) (if i = n - 1 then Final else Intermediate) d
       # chunk_seq sc sh request ty number n (Suc i) ds"

lemma length_chunk_seq [simp]: "length (chunk_seq sc sh request ty number n i ds) = length ds"
  by (induction ds arbitrary: i) simp_all

lemma make_chunks_seq:
  assumes "make_security_header ssl sc ty = Inr sh" "unat number + i + length ds \<le> 2 ^ 32"
  shows "make_chunks ssl number request ty sc n i ds = Inr (chunk_seq sc sh request ty number n i ds)"
  using assms(2)
  by (induction ds arbitrary: i) (simp_all add: add_u32_of_nat MessageChunk_new_layout [OF assms(1)])

lemma validate_loop_seq:
  assumes "header_matches (sc_decoding_options rc) ty sh"
    and "sc_secure_channel_id rc = 0 \<or> sc_secure_channel_id rc = sc_secure_channel_id sc"
    and "unat number + i + length ds \<le> 2 ^ 32" "i = 0 \<or> expected = request"
  shows "validate_loop rc number i expected (chunk_seq sc sh request ty number n i ds) = Inr ()"
  using assms(3,4)
proof (induction ds arbitrary: i expected)
  case (Cons d ds)
  then show ?case
    using assms(1,2) by (auto simp: chunk_for_def ChunkInfo_layout add_u32_of_nat)
qed simp

lemma check_chunks_seq:
  assumes "header_matches (sc_decoding_options rc) ty sh" "i + length ds \<le> n"
  shows "check_chunks rc n i (chunk_seq sc sh request ty number n i ds) = Inr (length (concat ds))"
  using assms(2)
  by (induction ds arbitrary: i) (simp_all add: chunk_for_def ChunkInfo_layout assms(1))

lemma chunk_bodies_seq:
  assumes "header_matches (sc_decoding_options rc) ty sh"
  shows "chunk_bodies rc (chunk_seq sc sh request ty number n i ds) = Inr (concat ds)"
  by (induction ds arbitrary: i) (simp_all add: chunk_for_def ChunkInfo_layout assms)

lemma concat_chunks_of: "0 < n \<Longrightarrow> concat (chunks_of n xs) = xs"
proof (induction n xs rule: chunks_of.induct)
  case (1 n xs)
  then show ?case by (simp add: chunks_of.simps [of n xs])
qed

lemma chunks_of_bounds:
  assumes "0 < n"
  shows "length (chunks_of n xs) \<le> length xs" "\<And>c. c \<in> set (chunks_of n xs) \<Longrightarrow> length c \<le> n \<and> c \<noteq> []"
proof -
  show "length (chunks_of n xs) \<le> length xs"
    using assms
  proof (induction n xs rule: chunks_of.induct)
    case (1 n xs)
    show ?case
    proof (cases "xs = []")
      case False
      with 1 have "length (chunks_of n (drop n xs)) \<le> length xs - n" "0 < length xs" by auto
      with 1(2) have "Suc (length (chunks_of n (drop n xs))) \<le> length xs" by linarith
      with False 1(2) show ?thesis by (simp add: chunks_of.simps [of n xs])
    qed (simp add: chunks_of.simps)
  qed
  show "length c \<le> n \<and> c \<noteq> []" if "c \<in> set (chunks_of n xs)" for c
    using assms that
  proof (induction n xs rule: chunks_of.induct)
    case (1 n xs)
    then show ?case
      by (subst (asm) (2) chunks_of.simps) (auto split: if_splits)
  qed
qed

lemma chunks_of_nonempty: "0 < n \<Longrightarrow> xs \<noteq> [] \<Longrightarrow> chunks_of n xs \<noteq> []"
  by (simp add: chunks_of.simps [of n xs])

lemma validate_chunks_seq:
  assumes "header_matches (sc_decoding_options rc) ty sh"
    and "sc_secure_channel_id rc = 0 \<or> sc_secure_channel_id rc = sc_secure_channel_id sc"
    and "unat number + length ds < 2 ^ 32" "start \<le> number" "ds \<noteq> []"
  shows "validate_chunks start rc (chunk_seq sc sh request ty number n 0 ds) =
    Inr (number + of_nat (length ds - 1))"
proof -
  let ?chunks = "chunk_seq sc sh request ty number n 0 ds"
  obtain c cs info where c: "?chunks = c # cs" "ChunkInfo_new c rc = Inr info"
    "sequence_number (ci_sequence_header info) = number"
    using assms(1,5) by (cases ds) (simp_all add: chunk_for_def ChunkInfo_layout)
  have bound: "unat number + length ds < 4294967296" using assms(3) by simp
  have add: "add_u32 number (of_nat (length ds)) = Inr (number + of_nat (length ds))"
    using bound by (rule add_u32_of_nat)
  have "1 \<le> unat (number + of_nat (length ds))"
    using unat_add_of_nat [OF bound] assms(5) by (cases ds) simp_all
  then have "1 \<le> number + of_nat (length ds)" by (simp add: word_le_nat_alt)
  then have sub: "sub_u32 (number + of_nat (length ds)) 1 = Inr (number + of_nat (length ds - 1))"
    using assms(5) by (cases ds) (simp_all add: sub_u32_def)
  have loop: "validate_loop rc number 0 0 ?chunks = Inr ()"
    using assms by (intro validate_loop_seq) auto
  have "validate_chunks start rc ?chunks =
      bindR (validate_loop rc number 0 0 ?chunks) (\<lambda>_. bindR (add_u32 number (of_nat (length ?chunks))) (\<lambda>n. sub_u32 n 1))"
    using c leD [OF assms(4)] by (simp add: validate_chunks_def del: validate_loop.simps)
  then show ?thesis using loop add sub by simp
qed

lemma decode_chunk_seq:
  assumes msgs: "service_messages svc bytes fits" and fit: "SupportedMessage_fits fits (sc_decoding_options rc) m"
    and "header_matches (sc_decoding_options rc) ty sh"
    and id: "SupportedMessage_node_id svc m = Inr node_id"
    and data: "concat ds = NodeId_bytes node_id @ SupportedMessage_bytes bytes m @ rest"
  shows "Chunker_decode svc (chunk_seq sc sh request ty number (length ds) 0 ds) rc None = Inr m"
proof -
  obtain i where i: "SupportedMessage_object_id svc m = Inr i" "svc_is_object_id svc i"
    using service_messages.message_id [OF msgs fit] by blast
  with id have node_id: "node_id = NodeId_new 0 (IdNumeric i)" by (simp add: SupportedMessage_node_id_def)
  then have "NodeId_decode (sc_decoding_options rc) (NodeId_bytes node_id @ s) = Inr (node_id, s)" for s
    by (intro NodeId_codec.decode_reads [THEN readsD]) (simp add: NodeId_fits_def NodeId_new_def)
  moreover have "decode_by_object_id svc i (sc_decoding_options rc) (SupportedMessage_bytes bytes m @ rest) = Inr (m, rest)"
    using service_messages.message_decodes [OF msgs fit i(1)] by (rule readsD)
  moreover have "(\<forall>k. m \<noteq> SmInvalid k)" using fit by (auto simp: SupportedMessage_fits_def)
  ultimately show ?thesis
    using assms(3) i(2)
    by (cases m) (simp_all add: Chunker_decode_def check_chunks_seq chunk_bodies_seq data object_id_from_node_id_def
        node_id NodeId_new_def)
qed

lemma message_data:
  assumes msgs: "service_messages svc bytes fits" and fit: "SupportedMessage_fits fits opts m"
  obtains node_id where "SupportedMessage_node_id svc m = Inr node_id"
    "NodeId_encode node_id [] = Inr (NodeId_byte_len node_id, NodeId_bytes node_id)"
    "NodeId_byte_len node_id = length (NodeId_bytes node_id)" "length (NodeId_bytes node_id) \<le> 7"
    "NodeId_bytes node_id \<noteq> []"
proof -
  obtain i where i: "SupportedMessage_object_id svc m = Inr i"
    using service_messages.message_id [OF msgs fit] by blast
  let ?id = "NodeId_new 0 (IdNumeric i)"
  have valid: "NodeId_valid ?id" by (simp add: NodeId_valid_def NodeId_new_def)
  have len: "NodeId_byte_len ?id = length (NodeId_bytes ?id)" using valid by (rule NodeId_codec.byte_len_exact)
  have "NodeId_byte_len ?id \<le> 7" "0 < NodeId_byte_len ?id" by (simp_all add: NodeId_byte_len_def NodeId_new_def)
  with that [of ?id] i len NodeId_codec.encode_returns_byte_len [OF valid, of "[]"] show thesis
    by (simp add: SupportedMessage_node_id_def)
qed

lemma Chunker_encode_seq:
  assumes msgs: "service_messages svc bytes fits" and fit: "SupportedMessage_fits fits opts m"
    and sh: "make_security_header ssl sc (Chunker_message_type m) = Inr sh"
    and policy: "sc_security_policy sc \<noteq> SpUnknown"
    and len: "n = length (SupportedMessage_bytes bytes m)" "max_message = 0 \<or> n \<le> max_message"
    and chunk: "max_chunk = 0 \<or>
      (\<exists>max_body > 0. body_size_from_message_size ssl (Chunker_message_type m) sc max_chunk = Inr (Some max_body))"
    and number: "unat number + n + 7 < 2 ^ 32"
  obtains ds node_id where
    "Chunker_encode ssl svc number request max_message max_chunk sc m =
       Inr (chunk_seq sc sh request (Chunker_message_type m) number (length ds) 0 ds)"
    "SupportedMessage_node_id svc m = Inr node_id"
    "concat ds = NodeId_bytes node_id @ SupportedMessage_bytes bytes m"
    "ds \<noteq> []" "length ds \<le> n + 7" "max_chunk = 0 \<Longrightarrow> length ds = 1"
proof -
  obtain node_id where id: "SupportedMessage_node_id svc m = Inr node_id"
    "NodeId_encode node_id [] = Inr (NodeId_byte_len node_id, NodeId_bytes node_id)"
    "NodeId_byte_len node_id = length (NodeId_bytes node_id)" "length (NodeId_bytes node_id) \<le> 7"
    "NodeId_bytes node_id \<noteq> []"
    using message_data [OF msgs fit] .
  define data where "data = NodeId_bytes node_id @ SupportedMessage_bytes bytes m"
  have data: "length data \<le> n + 7" "data \<noteq> []" using id len(1) by (auto simp: data_def)
  have enc: "SupportedMessage_encode svc m (NodeId_bytes node_id) = Inr (n, data)" "SupportedMessage_byte_len svc m = Inr n"
    using service_messages.message_encodes [OF msgs fit] service_messages.message_len [OF msgs fit] len(1)
    by (simp_all add: writes_def data_def)
  have data': "cursor_write data (replicate (n + length (NodeId_bytes node_id)) 0) = data"
    by (simp add: cursor_write_def data_def len(1))
  show thesis
  proof (cases "max_chunk = 0")
    case True
    have "Chunker_encode ssl svc number request max_message max_chunk sc m =
        Inr (chunk_seq sc sh request (Chunker_message_type m) number (length [data]) 0 [data])"
      using policy len(2) id(1-3) enc data' True
      by (auto simp: Chunker_encode_def MessageChunk_new_layout [OF sh])
    from that [OF this id(1)] data show thesis by (simp add: data_def)
  next
    case False
    with chunk obtain k where k: "0 < k" "body_size_from_message_size ssl (Chunker_message_type m) sc max_chunk = Inr (Some k)"
      by auto
    have ds: "length (chunks_of k data) \<le> n + 7" using chunks_of_bounds(1) [OF k(1), of data] data by simp
    have "Chunker_encode ssl svc number request max_message max_chunk sc m =
        Inr (chunk_seq sc sh request (Chunker_message_type m) number (length (chunks_of k data)) 0 (chunks_of k data))"
      using policy len(2) id(1-3) enc data' False k number ds
      by (auto simp: Chunker_encode_def make_chunks_seq [OF sh] Let_def)
    from that [OF this id(1)] concat_chunks_of [OF k(1), of data] chunks_of_nonempty [OF k(1) data(2)] ds False
    show thesis by (simp add: data_def)
  qed
qed

section \<open>What the validation accepts\<close>

definition info_follows :: "SecureChannel \<Rightarrow> u32 \<Rightarrow> u32 \<Rightarrow> nat \<Rightarrow> ChunkInfo \<Rightarrow> bool" where
  "info_follows rc first request k info \<longleftrightarrow>
     sequence_number (ci_sequence_header info) = first + of_nat k \<and>
     request_id (ci_sequence_header info) = request \<and>
     sc_secure_channel_id rc \<in> {0, ch_secure_channel_id (ci_message_header info)}"

definition infos_follow :: "SecureChannel \<Rightarrow> u32 \<Rightarrow> u32 \<Rightarrow> nat \<Rightarrow> MessageChunk list \<Rightarrow> bool" where
  "infos_follow rc first request i chunks \<longleftrightarrow>
     list_all (\<lambda>(k, chunk). \<exists>info. ChunkInfo_new chunk rc = Inr info \<and> info_follows rc first request k info)
       (enumerate i chunks)"

lemma infos_follow_Cons:
  "infos_follow rc first request i (c # cs) \<longleftrightarrow>
     (\<exists>info. ChunkInfo_new c rc = Inr info \<and> info_follows rc first request i info) \<and>
     infos_follow rc first request (Suc i) cs"
  by (simp add: infos_follow_def)

lemma validate_loop_Cons:
  "validate_loop rc first i expected (c # cs) = Inr () \<longleftrightarrow>
     (\<exists>info. ChunkInfo_new c rc = Inr info \<and>
        info_follows rc first (if i = 0 then request_id (ci_sequence_header info) else expected) i info \<and>
        unat first + unat (of_nat i :: u32) < 2 ^ 32 \<and>
        validate_loop rc first (Suc i) (if i = 0 then request_id (ci_sequence_header info) else expected) cs = Inr ())"
  by (cases "ChunkInfo_new c rc") (auto simp: info_follows_def bindR_eq_Inr add_u32_eq_Inr)

lemma validate_loop_iff:
  assumes "0 < i" "i + length chunks < 2 ^ 32"
  shows "validate_loop rc first i request chunks = Inr () \<longleftrightarrow>
    infos_follow rc first request i chunks \<and> (chunks = [] \<or> unat first + i + length chunks \<le> 2 ^ 32)"
  using assms
proof (induction chunks arbitrary: i)
  case (Cons c cs)
  from Cons.IH [of "Suc i"] Cons.prems show ?case
    by (auto simp: validate_loop_Cons infos_follow_Cons simp del: validate_loop.simps)
qed (simp add: infos_follow_def)

section \<open>Properties\<close>

text \<open>C3: A message survives the chunker: a message within the limits is encoded, as one chunk or
  cut into many, to chunks that the receiver validates, getting the number of the last one, and
  decodes to the same message. This holds for any channel whose security header the receiver
  accepts, as long as the sequence numbers do not reach the end of 32 bits.\<close>

theorem Chunker_round_trip:
  assumes msgs: "service_messages svc bytes fits" and fit: "SupportedMessage_fits fits (sc_decoding_options rc) m"
    and sh: "make_security_header ssl sc (Chunker_message_type m) = Inr sh"
    and match: "header_matches (sc_decoding_options rc) (Chunker_message_type m) sh"
    and policy: "sc_security_policy sc \<noteq> SpUnknown"
    and channel: "sc_secure_channel_id rc \<in> {0, sc_secure_channel_id sc}"
    and len: "n = length (SupportedMessage_bytes bytes m)" "max_message = 0 \<or> n \<le> max_message"
    and chunk: "max_chunk = 0 \<or>
      (\<exists>max_body > 0. body_size_from_message_size ssl (Chunker_message_type m) sc max_chunk = Inr (Some max_body))"
    and number: "start \<le> number" "unat number + n + 7 < 2 ^ 32"
  shows "\<exists>chunks. Chunker_encode ssl svc number request max_message max_chunk sc m = Inr chunks \<and>
           validate_chunks start rc chunks = Inr (number + of_nat (length chunks - 1)) \<and>
           Chunker_decode svc chunks rc None = Inr m"
proof -
  obtain ds node_id where ds: "Chunker_encode ssl svc number request max_message max_chunk sc m =
       Inr (chunk_seq sc sh request (Chunker_message_type m) number (length ds) 0 ds)"
    "SupportedMessage_node_id svc m = Inr node_id"
    "concat ds = NodeId_bytes node_id @ SupportedMessage_bytes bytes m" "ds \<noteq> []" "length ds \<le> n + 7"
    using Chunker_encode_seq [OF msgs fit sh policy len chunk number(2), where request = request] by metis
  show ?thesis
    using ds decode_chunk_seq [OF msgs fit match ds(2), where rest = "[]"] match channel number
    by (simp add: validate_chunks_seq)
qed

definition sample_publish :: "nat \<Rightarrow> PublishRequest SupportedMessage" where
  "sample_publish n = SmService
     \<lparr> pq_request_header = \<lparr> rqh_authentication_token = NodeId_null, rqh_timestamp = \<lparr> date_time = 0 \<rparr>,
         rqh_request_handle = 1, rqh_return_diagnostics = 0, rqh_audit_entry_id = UAString_null,
         rqh_timeout_hint = 1000, rqh_additional_header = ExtensionObject_null \<rparr>,
       pq_subscription_acknowledgements = Some (replicate n \<lparr> sa_subscription_id = 3, sa_sequence_number = 4 \<rparr>) \<rparr>"

definition plain_channel :: SecureChannel where
  "plain_channel = SecureChannel_new None RoleClient
     (DecodingOptions_default \<lparr> max_array_length := 5000 \<rparr>) \<lparr> date_time = 0 \<rparr>"

lemma sample_publish_fits:
  "n \<le> 5000 \<Longrightarrow> SupportedMessage_fits PublishRequest_fits (sc_decoding_options plain_channel) (sample_publish n)"
  by (simp add: SupportedMessage_fits_def sample_publish_def PublishRequest_fits_def RequestHeader_fits_def
      NodeId_fits_def NodeId_null_def NodeId_new_def DateTime_fits_def DateTime_in_range_def plain_channel_def
      SecureChannel_new_def DecodingOptions_default_def UAString_fits_def UAString_null_def
      ExtensionObject_fits_def ExtensionObject_null_def SubscriptionAcknowledgement_codec.array_fits_def
      list_all_iff depth_available_def DepthGauge_default_def MAX_DECODING_DEPTH_def endtimes_chrono_def time_consts)

lemma length_sample_publish: "length (SupportedMessage_bytes PublishRequest_bytes (sample_publish n)) = 33 + 8 * n"
  by (simp add: SupportedMessage_bytes_def sample_publish_def PublishRequest_bytes_def RequestHeader_bytes_def
      NodeId_null_def NodeId_new_def NodeId_bytes_def NodeId_tagged_bytes_def NodeId_tag_def NodeId_body_bytes_def
      UAString_null_def UAString_bytes_def ExtensionObject_null_def ExtensionObject_bytes_def
      SubscriptionAcknowledgement_codec.array_bytes_def SubscriptionAcknowledgement_bytes_def
      length_concat sum_list_replicate del: le_bytes.simps)

theorem Chunker_round_trip_witness:
  "\<exists>chunks. Chunker_encode xor_ssl publish_services 11 5 0 8196 plain_channel (sample_publish 2000) = Inr chunks \<and>
     validate_chunks 11 plain_channel chunks = Inr (11 + of_nat (length chunks - 1)) \<and>
     Chunker_decode publish_services chunks plain_channel None = Inr (sample_publish 2000)"
  by (rule Chunker_round_trip [OF publish_messages.service_messages_axioms sample_publish_fits _ _ _ _
        length_sample_publish [symmetric], where sh = "Symmetric \<lparr> sh_token_id = 0 \<rparr>"])
    (simp_all add: sample_publish_def Chunker_message_type_def plain_channel_def SecureChannel_new_def
      make_security_header_def header_matches_def body_size_from_message_size_def MIN_CHUNK_SIZE_def
      signature_size_def padding_size_def symmetric_signature_size_def checked_sub_def
      MESSAGE_CHUNK_HEADER_SIZE_def SecurityHeader_byte_len_def SymmetricSecurityHeader_byte_len_def
      SequenceHeader_byte_len_def)



end
