(* ===== verification/Opc_Message_Writer.thy ===== *)
theory Opc_Message_Writer
  imports Opc_Chunker Opc_Tcp_Codec
begin

text \<open>
  The sending side of a connection, \<open>core/comms/message_writer.rs\<close>: messages are cut into
  chunks with the next sequence numbers, secured, and collected in a buffer until they are sent.
  Operations that fail half way leave the writer changed, so every operation returns the writer.
\<close>

section \<open>The writer\<close>

definition DEFAULT_REQUEST_ID :: u32 where "DEFAULT_REQUEST_ID = 1000"
definition DEFAULT_SENT_SEQUENCE_NUMBER :: u32 where "DEFAULT_SENT_SEQUENCE_NUMBER = 0"

text \<open>The buffer is a cursor: a vector and the position after the last byte written.\<close>

record MessageWriter =
  mw_buffer :: "u8 list"
  mw_position :: nat
  mw_last_request_id :: u32
  mw_last_sent_sequence_number :: u32
  mw_max_message_size :: nat
  mw_max_chunk_count :: nat

definition MessageWriter_new :: "nat \<Rightarrow> nat \<Rightarrow> nat \<Rightarrow> MessageWriter" where
  "MessageWriter_new buffer_size max_message max_chunks =
     \<lparr> mw_buffer = replicate buffer_size 0, mw_position = 0, mw_last_request_id = DEFAULT_REQUEST_ID,
       mw_last_sent_sequence_number = DEFAULT_SENT_SEQUENCE_NUMBER, mw_max_message_size = max_message,
       mw_max_chunk_count = max_chunks \<rparr>"

text \<open>Writing at the position overwrites what is there and grows the vector at its end.\<close>

definition buffer_write :: "u8 list \<Rightarrow> MessageWriter \<Rightarrow> MessageWriter" where
  "buffer_write bytes w = w \<lparr> mw_buffer := take (mw_position w) (mw_buffer w) @ bytes
       @ drop (mw_position w + length bytes) (mw_buffer w),
     mw_position := mw_position w + length bytes \<rparr>"

definition write_ack :: "AcknowledgeMessage \<Rightarrow> MessageWriter \<Rightarrow> nat res \<times> MessageWriter" where
  "write_ack ack w =
     (case AcknowledgeMessage_encode ack [] of
        Inl e \<Rightarrow> (Inl e, w)
      | Inr (n, bytes) \<Rightarrow> (Inr n, buffer_write bytes w))"

text \<open>The loop over the chunks; \<open>data\<close> is the scratch buffer that security is applied in.\<close>

fun write_chunks ::
  "openssl \<Rightarrow> SecureChannel \<Rightarrow> u8 list \<Rightarrow> MessageChunk list \<Rightarrow> MessageWriter \<Rightarrow> unit res \<times> MessageWriter" where
  "write_chunks ssl sc data [] w = (Inr (), w)"
| "write_chunks ssl sc data (chunk # chunks) w =
     (case apply_security ssl sc chunk data of
        Inl e \<Rightarrow> (Inl e, w)
      | Inr (n, data') \<Rightarrow>
          (case slice 0 n data' of
             Inl e \<Rightarrow> (Inl e, w)
           | Inr bytes \<Rightarrow> write_chunks ssl sc data' chunks (buffer_write bytes w)))"

definition MessageWriter_write ::
  "openssl \<Rightarrow> 'm services \<Rightarrow> u32 \<Rightarrow> 'm SupportedMessage \<Rightarrow> SecureChannel \<Rightarrow> MessageWriter \<Rightarrow> u32 res \<times> MessageWriter" where
  "MessageWriter_write ssl svc request message sc w =
     (case bindR (add_u32 (mw_last_sent_sequence_number w) 1) (\<lambda>number.
             Chunker_encode ssl svc number request (mw_max_message_size w) 0 sc message) of
        Inl e \<Rightarrow> (Inl e, w)
      | Inr chunks \<Rightarrow>
          if mw_max_chunk_count w > 0 \<and> length chunks > mw_max_chunk_count w
          then (Inl (Err BadCommunicationError), w)
          else
            (case add_u32 (mw_last_sent_sequence_number w) (of_nat (length chunks)) of
               Inl e \<Rightarrow> (Inl e, w)
             | Inr number \<Rightarrow>
                 let data = replicate (length (mw_buffer w) + 1024) 0;
                     (r, w') = write_chunks ssl sc data chunks (w \<lparr> mw_last_sent_sequence_number := number \<rparr>)
                 in (mapR (\<lambda>_. request) r, w')))"

definition next_request_id :: "MessageWriter \<Rightarrow> u32 res \<times> MessageWriter" where
  "next_request_id w =
     (case add_u32 (mw_last_request_id w) 1 of
        Inl e \<Rightarrow> (Inl e, w)
      | Inr i \<Rightarrow> (Inr i, w \<lparr> mw_last_request_id := i \<rparr>))"

definition bytes_to_write :: "MessageWriter \<Rightarrow> u8 list \<times> MessageWriter" where
  "bytes_to_write w = (take (mw_position w) (mw_buffer w), w \<lparr> mw_position := 0 \<rparr>)"

section \<open>The buffer as a queue of bytes\<close>

text \<open>The bytes that wait to be sent; the rest of the vector does not matter.\<close>

definition pending_bytes :: "MessageWriter \<Rightarrow> u8 list" where
  "pending_bytes w = take (mw_position w) (mw_buffer w)"

definition writer_inv :: "MessageWriter \<Rightarrow> bool" where
  "writer_inv w \<longleftrightarrow> mw_position w \<le> length (mw_buffer w)"

lemma writer_inv_new [simp]: "writer_inv (MessageWriter_new b m c)" "pending_bytes (MessageWriter_new b m c) = []"
  by (simp_all add: writer_inv_def MessageWriter_new_def pending_bytes_def)

lemma buffer_write_appends:
  assumes "writer_inv w"
  shows "writer_inv (buffer_write bs w)" "pending_bytes (buffer_write bs w) = pending_bytes w @ bs"
  using assms by (simp_all add: writer_inv_def buffer_write_def pending_bytes_def)

lemma buffer_write_fields [simp]:
  "mw_last_sent_sequence_number (buffer_write bs w) = mw_last_sent_sequence_number w"
  "mw_last_request_id (buffer_write bs w) = mw_last_request_id w"
  "mw_max_message_size (buffer_write bs w) = mw_max_message_size w"
  "mw_max_chunk_count (buffer_write bs w) = mw_max_chunk_count w"
  by (simp_all add: buffer_write_def)

lemma bytes_to_write_drains:
  "writer_inv w \<Longrightarrow> bytes_to_write w = (pending_bytes w, w') \<Longrightarrow> writer_inv w' \<and> pending_bytes w' = []"
  by (auto simp: bytes_to_write_def writer_inv_def pending_bytes_def)

lemma write_chunks_keeps:
  assumes "writer_inv w" "write_chunks ssl sc data chunks w = (r, w')"
  shows "writer_inv w' \<and> (\<exists>bs. pending_bytes w' = pending_bytes w @ bs) \<and>
    mw_last_sent_sequence_number w' = mw_last_sent_sequence_number w \<and>
    mw_last_request_id w' = mw_last_request_id w \<and> mw_max_message_size w' = mw_max_message_size w \<and>
    mw_max_chunk_count w' = mw_max_chunk_count w"
  using assms
proof (induction ssl sc data chunks w rule: write_chunks.induct)
  case (2 ssl sc data chunk chunks w)
  then show ?case
    by (auto simp: buffer_write_appends split: sum.splits prod.splits) (metis append_assoc)
qed auto

end
