(* ===== verification/Opc_Server_Transport.thy ===== *)
theory Opc_Server_Transport
  imports Opc_Chunker Opc_Tcp_Codec
begin

text \<open>
  The receiving side of a server connection: the secure channel service
  (\<open>server/comms/secure_channel_service.rs\<close>) and the part of \<open>server/comms/tcp_transport.rs\<close>
  that turns frames into requests. Messages sent to the client and requests handed to the
  message handler are outputs; the handler's verdict on a request is the argument \<open>handle\<close>, the
  match of a url against the configured endpoints the argument \<open>url_matches\<close>, the random source
  and the clock the arguments \<open>random_bytes\<close> and \<open>now\<close>.
\<close>

section \<open>The secure channel service\<close>

record SecureChannelState =
  ss_issued :: bool
  ss_renew_count :: nat
  ss_last_secure_channel_id :: u32
  ss_last_token_id :: u32

definition SecureChannelState_new :: SecureChannelState where
  "SecureChannelState_new = \<lparr> ss_issued = False, ss_renew_count = 0, ss_last_secure_channel_id = 0,
     ss_last_token_id = 0 \<rparr>"

definition service_fault :: "DateTime \<Rightarrow> RequestHeader \<Rightarrow> StatusCode \<Rightarrow> 'm SupportedMessage" where
  "service_fault now request_header code =
     SmServiceFault \<lparr> sf_response_header = new_timestamped_service_result now request_header code \<rparr>"

text \<open>The channel id for the request, or the result with which the service returns early.\<close>

definition request_channel_id ::
  "DateTime \<Rightarrow> OpenSecureChannelRequest \<Rightarrow> SecureChannel \<Rightarrow> SecureChannelState
    \<Rightarrow> ('m SupportedMessage res + u32) \<times> SecureChannelState" where
  "request_channel_id now request sc st =
     (case osq_request_type request of
        Issue \<Rightarrow>
          (case add_u32 (ss_last_secure_channel_id st) 1 of
             Inl e \<Rightarrow> (Inl (Inl e), st)
           | Inr i \<Rightarrow> (Inr i, st \<lparr> ss_last_secure_channel_id := i \<rparr>))
      | Renew \<Rightarrow>
          if sc_security_policy sc \<noteq> SpNone \<and> ByteString_as_ref (osq_client_nonce request) = sc_remote_nonce sc
          then (Inl (Inr (service_fault now (osq_request_header request) BadNonceInvalid)), st)
          else if \<not> ss_issued st then (Inl (Inl (Err BadUnexpectedError)), st)
          else (Inr (sc_secure_channel_id sc), st \<lparr> ss_renew_count := ss_renew_count st + 1 \<rparr>))"

definition open_response :: "DateTime \<Rightarrow> OpenSecureChannelRequest \<Rightarrow> SecureChannel \<Rightarrow> OpenSecureChannelResponse" where
  "open_response now request sc =
     \<lparr> osr_response_header = new_timestamped_service_result now (osq_request_header request) Good,
       osr_server_protocol_version = 0,
       osr_security_token = \<lparr> tk_channel_id = sc_secure_channel_id sc, tk_token_id = sc_token_id sc,
         tk_created_at = now, tk_revised_lifetime = osq_requested_lifetime request \<rparr>,
       osr_server_nonce = local_nonce_as_byte_string sc \<rparr>"

definition open_secure_channel ::
  "openssl \<Rightarrow> (nat \<Rightarrow> u8 list) \<Rightarrow> DateTime \<Rightarrow> SecurityHeader \<Rightarrow> u32 \<Rightarrow> 'm SupportedMessage
    \<Rightarrow> SecureChannel \<Rightarrow> SecureChannelState \<Rightarrow> 'm SupportedMessage res \<times> SecureChannel \<times> SecureChannelState" where
  "open_secure_channel ssl random_bytes now security_header client_version message sc st =
     (case message of
        SmOpenSecureChannelRequest request \<Rightarrow>
          (case security_header of
             Asymmetric header \<Rightarrow>
               if osq_client_protocol_version request \<noteq> client_version then
                 (Inr (service_fault now (osq_request_header request) BadProtocolVersionUnsupported), sc, st)
               else
                 (case request_channel_id now request sc st of
                    (Inl result, st1) \<Rightarrow> (result, sc, st1)
                  | (Inr channel_id, st1) \<Rightarrow>
                      if osq_security_mode request = ModeInvalid then
                        (Inr (service_fault now (osq_request_header request) BadSecurityModeRejected), sc, st1)
                      else
                        (case add_u32 (ss_last_token_id st1) 1 of
                           Inl e \<Rightarrow> (Inl e, sc, st1)
                         | Inr token \<Rightarrow>
                             let st2 = st1 \<lparr> ss_issued := True, ss_last_token_id := token \<rparr>;
                                 sc1 = sc \<lparr> sc_security_mode := osq_security_mode request,
                                   sc_token_id := token, sc_secure_channel_id := channel_id \<rparr>
                             in (case set_remote_cert_from_byte_string ssl (sender_certificate header) sc1 of
                                   Inl e \<Rightarrow> (Inl e, sc1, st2)
                                 | Inr sc2 \<Rightarrow>
                                     (case set_remote_nonce_from_byte_string (osq_client_nonce request) sc2 of
                                        Inl (Err e) \<Rightarrow> (Inr (service_fault now (osq_request_header request) e), sc2, st2)
                                      | Inl e \<Rightarrow> (Inl e, sc2, st2)
                                      | Inr sc3 \<Rightarrow>
                                          let sc4 = create_random_nonce random_bytes sc3 in
                                          (case (if channel_secures sc4 then derive_keys ssl sc4 else Inr sc4) of
                                             Inl e \<Rightarrow> (Inl e, sc4, st2)
                                           | Inr sc5 \<Rightarrow>
                                               (Inr (SmOpenSecureChannelResponse (open_response now request sc5)),
                                                sc5, st2))))))
           | Symmetric _ \<Rightarrow> (Inl (Err BadUnexpectedError), sc, st))
      | _ \<Rightarrow> (Inl (Err BadUnexpectedError), sc, st))"

definition close_secure_channel :: "'m SupportedMessage \<Rightarrow> 'm SupportedMessage res" where
  "close_secure_channel message = Inl (Err BadConnectionClosed)"

section \<open>The transport\<close>

datatype TransportState = TsNew | TsWaitingHello | TsProcessMessages | TsFinished StatusCode

record TcpTransport =
  tt_secure_channel :: SecureChannel
  tt_transport_state :: TransportState
  tt_secure_channel_service :: SecureChannelState
  tt_client_protocol_version :: u32
  tt_last_received_sequence_number :: u32
  tt_pending_chunks :: "MessageChunk list"

datatype 'm outcome = Send u32 "'m SupportedMessage" | Handle u32 "'m SupportedMessage"

definition TcpTransport_new :: "(X509 \<times> u8 list) option \<Rightarrow> DecodingOptions \<Rightarrow> DateTime \<Rightarrow> TcpTransport" where
  "TcpTransport_new own opts now =
     \<lparr> tt_secure_channel = SecureChannel_new own RoleServer opts now, tt_transport_state = TsNew,
       tt_secure_channel_service = SecureChannelState_new, tt_client_protocol_version = 0,
       tt_last_received_sequence_number = 0, tt_pending_chunks = [] \<rparr>"

definition finish :: "StatusCode \<Rightarrow> TcpTransport \<Rightarrow> TcpTransport" where
  "finish code t =
     (case tt_transport_state t of TsFinished _ \<Rightarrow> t | _ \<Rightarrow> t \<lparr> tt_transport_state := TsFinished code \<rparr>)"

definition process_hello ::
  "(HelloMessage \<Rightarrow> bool) \<Rightarrow> HelloMessage \<Rightarrow> DecodingOptions \<Rightarrow> nat \<Rightarrow> nat \<Rightarrow> TcpTransport
    \<Rightarrow> unit res \<times> 'm outcome list \<times> TcpTransport" where
  "process_hello url_matches hello opts send_size receive_size t =
     (if \<not> (is_endpoint_valid_length hello \<and> url_matches hello) then (Inl (Err BadTcpEndpointUrlInvalid), [], t)
      else if \<not> is_valid_buffer_sizes hello then (Inl (Err BadCommunicationError), [], t)
      else if hel_protocol_version hello > 0 then (Inl (Err BadProtocolVersionUnsupported), [], t)
      else
        let ack = \<lparr> ack_message_header = MessageHeader_new MtAcknowledge, ack_protocol_version = 0,
              ack_receive_buffer_size = of_nat receive_size, ack_send_buffer_size = of_nat send_size,
              ack_max_message_size = of_nat (max_message_size opts),
              ack_max_chunk_count = of_nat (max_chunk_count opts) \<rparr>;
            ack' = ack \<lparr> ack_message_header := (ack_message_header ack)
              \<lparr> mh_message_size := of_nat (AcknowledgeMessage_byte_len ack) \<rparr> \<rparr>
        in (Inr (), [Send 0 (SmAcknowledge ack')],
            t \<lparr> tt_transport_state := TsProcessMessages, tt_client_protocol_version := hel_protocol_version hello \<rparr>))"

definition turn_received_chunks_into_message ::
  "'m services \<Rightarrow> MessageChunk list \<Rightarrow> TcpTransport \<Rightarrow> 'm SupportedMessage res \<times> TcpTransport" where
  "turn_received_chunks_into_message svc chunks t =
     (case bindR (add_u32 (tt_last_received_sequence_number t) 1) (\<lambda>start.
             validate_chunks start (tt_secure_channel t) chunks) of
        Inl e \<Rightarrow> (Inl e, t)
      | Inr number \<Rightarrow>
          (Chunker_decode svc chunks (tt_secure_channel t) None,
           t \<lparr> tt_last_received_sequence_number := number \<rparr>))"

definition process_request ::
  "openssl \<Rightarrow> (nat \<Rightarrow> u8 list) \<Rightarrow> DateTime \<Rightarrow> (u32 \<Rightarrow> 'm SupportedMessage \<Rightarrow> unit res) \<Rightarrow> MessageChunkType
    \<Rightarrow> u32 \<Rightarrow> 'm SupportedMessage \<Rightarrow> SecurityHeader \<Rightarrow> TcpTransport \<Rightarrow> unit res \<times> 'm outcome list \<times> TcpTransport" where
  "process_request ssl random_bytes now handle ty request_no request security_header t =
     (case ty of
        CtOpenSecureChannel \<Rightarrow>
          (case open_secure_channel ssl random_bytes now security_header (tt_client_protocol_version t) request
                  (tt_secure_channel t) (tt_secure_channel_service t) of
             (result, sc, st) \<Rightarrow>
               let t' = t \<lparr> tt_secure_channel := sc, tt_secure_channel_service := st \<rparr> in
               (case result of
                  Inl e \<Rightarrow> (Inl e, [], t')
                | Inr response \<Rightarrow> (Inr (), [Send request_no response], t')))
      | CtCloseSecureChannel \<Rightarrow>
          (case close_secure_channel request of
             Inl e \<Rightarrow> (Inl e, [], t)
           | Inr response \<Rightarrow> (Inr (), [Send request_no response], t))
      | CtMessage \<Rightarrow> (handle request_no request, [Handle request_no request], t))"

definition process_final_chunk ::
  "openssl \<Rightarrow> 'm services \<Rightarrow> (nat \<Rightarrow> u8 list) \<Rightarrow> DateTime \<Rightarrow> (u32 \<Rightarrow> 'm SupportedMessage \<Rightarrow> unit res)
    \<Rightarrow> MessageChunkHeader \<Rightarrow> TcpTransport \<Rightarrow> unit res \<times> 'm outcome list \<times> TcpTransport" where
  "process_final_chunk ssl svc random_bytes now handle message_header t =
     (let chunks = tt_pending_chunks t; t1 = t \<lparr> tt_pending_chunks := [] \<rparr> in
      case (case chunks of [] \<Rightarrow> Inl Panic | chunk # _ \<Rightarrow> ChunkInfo_new chunk (tt_secure_channel t1)) of
        Inl e \<Rightarrow> (Inl e, [], t1)
      | Inr chunk_info \<Rightarrow>
          (case turn_received_chunks_into_message svc chunks t1 of
             (Inl e, t2) \<Rightarrow> (Inl e, [], t2)
           | (Inr request, t2) \<Rightarrow>
               process_request ssl random_bytes now handle (ch_message_type message_header)
                 (request_id (ci_sequence_header chunk_info)) request (ci_security_header chunk_info) t2))"

definition process_chunk ::
  "openssl \<Rightarrow> 'm services \<Rightarrow> (nat \<Rightarrow> u8 list) \<Rightarrow> DateTime \<Rightarrow> (u32 \<Rightarrow> 'm SupportedMessage \<Rightarrow> unit res)
    \<Rightarrow> MessageChunk \<Rightarrow> TcpTransport \<Rightarrow> unit res \<times> 'm outcome list \<times> TcpTransport" where
  "process_chunk ssl svc random_bytes now handle chunk t =
     (case MessageChunk_message_header chunk (sc_decoding_options (tt_secure_channel t)) of
        Inl e \<Rightarrow> (Inl e, [], t)
      | Inr message_header \<Rightarrow>
          if ch_is_final message_header = FinalError then (Inr (), [], t \<lparr> tt_pending_chunks := [] \<rparr>)
          else
            (case verify_and_remove_security ssl (mc_data chunk) (tt_secure_channel t) of
               (Inl e, sc) \<Rightarrow> (Inl e, [], t \<lparr> tt_secure_channel := sc \<rparr>)
             | (Inr chunk', sc) \<Rightarrow>
                 let t1 = t \<lparr> tt_secure_channel := sc, tt_pending_chunks := tt_pending_chunks t @ [chunk'] \<rparr> in
                 if ch_is_final message_header = Final
                 then process_final_chunk ssl svc random_bytes now handle message_header t1
                 else (Inr (), [], t1)))"

text \<open>The reading loop over the frames of the connection: the first must be a hello, the others
  chunks; the first error ends the loop.\<close>

fun read_messages ::
  "openssl \<Rightarrow> 'm services \<Rightarrow> (nat \<Rightarrow> u8 list) \<Rightarrow> DateTime \<Rightarrow> (u32 \<Rightarrow> 'm SupportedMessage \<Rightarrow> unit res)
    \<Rightarrow> Message list \<Rightarrow> TcpTransport \<Rightarrow> unit res \<times> 'm outcome list \<times> TcpTransport" where
  "read_messages ssl svc random_bytes now handle [] t = (Inr (), [], t)"
| "read_messages ssl svc random_bytes now handle (MChunk chunk # msgs) t =
     (case process_chunk ssl svc random_bytes now handle chunk t of
        (Inl e, outs, t') \<Rightarrow> (Inl e, outs, t')
      | (Inr _, outs, t') \<Rightarrow>
          (case read_messages ssl svc random_bytes now handle msgs t' of
             (r, outs', t'') \<Rightarrow> (r, outs @ outs', t'')))"
| "read_messages ssl svc random_bytes now handle (_ # msgs) t = (Inl (Err BadCommunicationError), [], t)"

definition read_connection ::
  "openssl \<Rightarrow> 'm services \<Rightarrow> (nat \<Rightarrow> u8 list) \<Rightarrow> DateTime \<Rightarrow> (u32 \<Rightarrow> 'm SupportedMessage \<Rightarrow> unit res)
    \<Rightarrow> (HelloMessage \<Rightarrow> bool) \<Rightarrow> nat \<Rightarrow> nat \<Rightarrow> Message list \<Rightarrow> TcpTransport \<Rightarrow> unit res \<times> 'm outcome list \<times> TcpTransport" where
  "read_connection ssl svc random_bytes now handle url_matches send_size receive_size msgs t =
     (case msgs of
        [] \<Rightarrow> (Inl (Err BadConnectionClosed), [], t)
      | MHello hello # rest \<Rightarrow>
          (case process_hello url_matches hello (sc_decoding_options (tt_secure_channel t)) send_size receive_size t of
             (Inl e, outs, t') \<Rightarrow> (Inl e, outs, t')
           | (Inr _, outs, t') \<Rightarrow>
               (case read_messages ssl svc random_bytes now handle rest t' of
                  (r, outs', t'') \<Rightarrow> (r, outs @ outs', t'')))
      | _ \<Rightarrow> (Inl (Err BadCommunicationError), [], t))"

section \<open>What the operations leave alone\<close>

lemma verify_keeps_channel:
  assumes "verify_and_remove_security ssl src sc = (r, sc')"
  shows "sc_token_id sc' = sc_token_id sc" "sc_secure_channel_id sc' = sc_secure_channel_id sc"
    "sc_decoding_options sc' = sc_decoding_options sc" "sc_security_mode sc' = sc_security_mode sc"
  using assms
  by (auto simp: verify_and_remove_security_def verify_and_remove_security_forensic_def Let_def
      split: sum.splits if_splits SecurityHeader.splits prod.splits)

lemma set_remote_cert_keeps:
  assumes "set_remote_cert_from_byte_string ssl c sc = Inr sc'"
  shows "sc_token_id sc' = sc_token_id sc \<and> sc_secure_channel_id sc' = sc_secure_channel_id sc \<and>
    sc_security_policy sc' = sc_security_policy sc \<and> sc_security_mode sc' = sc_security_mode sc \<and>
    sc_local_nonce sc' = sc_local_nonce sc \<and> sc_remote_nonce sc' = sc_remote_nonce sc \<and>
    sc_decoding_options sc' = sc_decoding_options sc"
  using assms by (auto simp: set_remote_cert_from_byte_string_def mapR_eq_Inr split: if_splits)

lemma set_remote_nonce_keeps:
  assumes "set_remote_nonce_from_byte_string c sc = Inr sc'"
  shows "sc_token_id sc' = sc_token_id sc \<and> sc_secure_channel_id sc' = sc_secure_channel_id sc \<and>
    sc_security_policy sc' = sc_security_policy sc \<and> sc_security_mode sc' = sc_security_mode sc \<and>
    sc_local_nonce sc' = sc_local_nonce sc \<and> sc_decoding_options sc' = sc_decoding_options sc"
  using assms by (auto simp: set_remote_nonce_from_byte_string_def split: if_splits option.splits)

lemma derive_keys_keeps:
  assumes "derive_keys ssl sc = Inr sc'"
  shows "sc_token_id sc' = sc_token_id sc \<and> sc_secure_channel_id sc' = sc_secure_channel_id sc \<and>
    sc_security_policy sc' = sc_security_policy sc \<and> sc_security_mode sc' = sc_security_mode sc \<and>
    sc_local_nonce sc' = sc_local_nonce sc \<and> sc_remote_nonce sc' = sc_remote_nonce sc \<and>
    sc_decoding_options sc' = sc_decoding_options sc"
  using assms by (auto simp: derive_keys_def bindR_eq_Inr)

section \<open>The channel and token ids\<close>

text \<open>The token of the channel is the last one created, no channel id exceeds the last one created,
  a token exists exactly when one was issued, and then the channel has an id; renewals happen
  only after an issue.\<close>

definition channel_inv :: "SecureChannel \<Rightarrow> SecureChannelState \<Rightarrow> bool" where
  "channel_inv sc st \<longleftrightarrow>
     sc_token_id sc = ss_last_token_id st \<and> sc_secure_channel_id sc \<le> ss_last_secure_channel_id st \<and>
     (ss_issued st \<longleftrightarrow> 0 < ss_last_token_id st) \<and> (ss_issued st \<longleftrightarrow> 0 < sc_secure_channel_id sc) \<and>
     (0 < ss_renew_count st \<longrightarrow> ss_issued st)"

lemma add_u32_1: "add_u32 a 1 = Inr b \<Longrightarrow> a < b \<and> 0 < b"
  by (auto simp: add_u32_def word_less_nat_alt unat_word_ariths split: if_splits)

lemma request_channel_id_inv:
  assumes "channel_inv sc st" "request_channel_id now request sc st = (r, st')"
  shows "channel_inv sc st'" "\<And>i. r = Inr i \<Longrightarrow> 0 < i \<and> i \<le> ss_last_secure_channel_id st'"
  using assms
  by (auto simp: request_channel_id_def channel_inv_def dest!: add_u32_1
      split: SecurityTokenRequestType.splits sum.splits if_splits)

lemma open_secure_channel_inv:
  assumes inv: "channel_inv sc st"
    and call: "open_secure_channel ssl random_bytes now security_header client_version message sc st = (r, sc', st')"
  shows "channel_inv sc' st'"
proof -
  have new: "channel_inv sc2 (st1 \<lparr> ss_issued := True, ss_last_token_id := token \<rparr>)"
    if "request_channel_id now request sc st = (Inr i :: 'a SupportedMessage res + u32, st1)"
      "add_u32 (ss_last_token_id st1) 1 = Inr token" "sc_token_id sc2 = token" "sc_secure_channel_id sc2 = i"
    for st1 token sc2 i request
    using that request_channel_id_inv [OF inv that(1)] add_u32_1 [OF that(2)] by (simp add: channel_inv_def)
  show ?thesis
    using call inv
    by (auto simp: open_secure_channel_def Let_def create_random_nonce_def dest!: set_remote_cert_keeps
        set_remote_nonce_keeps derive_keys_keeps intro: new request_channel_id_inv(1)
        split: SupportedMessage.splits SecurityHeader.splits if_splits prod.splits sum.splits fault.splits)
qed

definition transport_inv :: "TcpTransport \<Rightarrow> bool" where
  "transport_inv t \<longleftrightarrow> channel_inv (tt_secure_channel t) (tt_secure_channel_service t)"

text \<open>The states a connection can get into: any hello and any chunks, whatever the clock, the random
  source and the message handler answer, and whether or not an operation fails.\<close>

inductive transport_reachable :: "openssl \<Rightarrow> 'm services \<Rightarrow> TcpTransport \<Rightarrow> bool" for ssl svc where
  new: "transport_reachable ssl svc (TcpTransport_new own opts now)"
| hello: "transport_reachable ssl svc t \<Longrightarrow>
    process_hello url_matches hello opts send_size receive_size t = (r, outs :: 'm outcome list, t') \<Longrightarrow>
    transport_reachable ssl svc t'"
| chunk: "transport_reachable ssl svc t \<Longrightarrow>
    process_chunk ssl svc random_bytes now handle chunk t = (r, outs, t') \<Longrightarrow> transport_reachable ssl svc t'"
| finish: "transport_reachable ssl svc t \<Longrightarrow> transport_reachable ssl svc (finish code t)"

lemma turn_received_keeps:
  assumes "turn_received_chunks_into_message svc chunks t = (r, t')"
  shows "tt_secure_channel t' = tt_secure_channel t \<and> tt_secure_channel_service t' = tt_secure_channel_service t \<and>
    tt_pending_chunks t' = tt_pending_chunks t \<and> tt_client_protocol_version t' = tt_client_protocol_version t"
  using assms by (auto simp: turn_received_chunks_into_message_def split: sum.splits)

lemma process_request_inv:
  assumes "transport_inv t"
    "process_request ssl random_bytes now handle ty request_no request security_header t = (r, outs, t')"
  shows "transport_inv t'"
proof -
  obtain result sc st where "open": "open_secure_channel ssl random_bytes now security_header
      (tt_client_protocol_version t) request (tt_secure_channel t) (tt_secure_channel_service t) = (result, sc, st)"
    using prod_cases3 by blast
  have "channel_inv sc st" using assms(1) "open" unfolding transport_inv_def by (rule open_secure_channel_inv)
  with assms "open" show ?thesis
    by (cases ty; cases result) (auto simp: process_request_def transport_inv_def split: sum.splits)
qed

lemma process_final_chunk_inv:
  assumes "transport_inv t" "process_final_chunk ssl svc random_bytes now handle message_header t = (r, outs, t')"
  shows "transport_inv t'"
proof -
  let ?t1 = "t \<lparr> tt_pending_chunks := [] \<rparr>"
  have t1: "transport_inv ?t1" using assms(1) by (simp add: transport_inv_def)
  obtain q t2 where turn: "turn_received_chunks_into_message svc (tt_pending_chunks t) ?t1 = (q, t2)" by (meson surj_pair)
  have t2: "transport_inv t2" using turn_received_keeps [OF turn] t1 by (simp add: transport_inv_def)
  show ?thesis
    using assms(2) t1 t2
    by (cases q) (auto simp: process_final_chunk_def Let_def turn split: sum.splits elim: process_request_inv [OF t2])
qed

lemma process_chunk_inv:
  assumes "transport_inv t" "process_chunk ssl svc random_bytes now handle chunk t = (r, outs, t')"
  shows "transport_inv t'"
proof -
  obtain q sc where v: "verify_and_remove_security ssl (mc_data chunk) (tt_secure_channel t) = (q, sc)" by (meson surj_pair)
  have "channel_inv sc (tt_secure_channel_service t)"
    using assms(1) unfolding transport_inv_def channel_inv_def verify_keeps_channel [OF v] .
  then have sc: "transport_inv (t \<lparr> tt_secure_channel := sc, tt_pending_chunks := pending \<rparr>)"
      "transport_inv (t \<lparr> tt_secure_channel := sc \<rparr>)" for pending
    by (simp_all add: transport_inv_def)
  have "transport_inv (t \<lparr> tt_pending_chunks := [] \<rparr>)" using assms(1) by (simp add: transport_inv_def)
  then show ?thesis
    using assms sc(2) process_final_chunk_inv [OF sc(1), of _ _ _ _ _ _ _ r outs t']
    by (cases q) (auto simp: process_chunk_def Let_def v sc(1) split: sum.splits if_splits)
qed

section \<open>Properties\<close>

text \<open>C8: In every state that a connection can reach the secure channel's token is the last token
  created, its id is not above the last id created, a token exists exactly if one was issued,
  which is exactly when the channel has an id, and a renewal presupposes an issue.\<close>

theorem transport_channel_invariant:
  assumes "transport_reachable ssl svc t"
  shows "channel_inv (tt_secure_channel t) (tt_secure_channel_service t)"
proof -
  from assms have "transport_inv t"
  proof induction
    case (new own opts now)
    show ?case
      by (simp add: transport_inv_def channel_inv_def TcpTransport_new_def SecureChannel_new_def SecureChannelState_new_def)
  next
    case (hello t url_matches hello opts send_size receive_size r outs t')
    then show ?case by (auto simp: process_hello_def transport_inv_def Let_def split: if_splits)
  next
    case (chunk t random_bytes now handle chunk r outs t')
    then show ?case by (blast intro: process_chunk_inv)
  next
    case (finish t code)
    then show ?case by (auto simp: finish_def transport_inv_def split: TransportState.splits)
  qed
  then show ?thesis by (simp add: transport_inv_def)
qed

theorem transport_channel_invariant_witness:
  "channel_inv (tt_secure_channel (finish BadTimeout (TcpTransport_new None DecodingOptions_minimal \<lparr> date_time = 0 \<rparr>)))
     (tt_secure_channel_service (finish BadTimeout (TcpTransport_new None DecodingOptions_minimal \<lparr> date_time = 0 \<rparr>)))"
  by (rule transport_channel_invariant [of xor_ssl publish_services]) (rule transport_reachable.finish, rule transport_reachable.new)


section \<open>Sequence numbers are not reused\<close>

lemma ChunkInfo_new_cong:
  "sc_decoding_options sc = sc_decoding_options sc' \<Longrightarrow> ChunkInfo_new chunk sc = ChunkInfo_new chunk sc'"
  by (simp add: ChunkInfo_new_def)

lemma validate_chunks_Inr:
  assumes "validate_chunks start sc chunks = Inr number" "length chunks < 2 ^ 32"
  obtains chunk rest info where "chunks = chunk # rest" "ChunkInfo_new chunk sc = Inr info"
    "start \<le> sequence_number (ci_sequence_header info)" "sequence_number (ci_sequence_header info) \<le> number"
proof (cases chunks)
  case (Cons chunk rest)
  with assms obtain info n where info: "ChunkInfo_new chunk sc = Inr info"
      "start \<le> sequence_number (ci_sequence_header info)"
      "add_u32 (sequence_number (ci_sequence_header info)) (of_nat (length chunks)) = Inr n" "sub_u32 n 1 = Inr number"
    by (auto simp: validate_chunks_def bindR_eq_Inr Let_def not_less simp del: validate_loop.simps split: if_splits)
  have "unat number = unat (sequence_number (ci_sequence_header info)) + length chunks - 1"
    using info(3,4) assms(2) Cons unat_add_of_nat [of "sequence_number (ci_sequence_header info)" "length chunks"]
    by (auto simp: add_u32_eq_Inr sub_u32_eq_Inr unat_sub_if' word_le_nat_alt simp del: of_nat_Suc)
  then have "sequence_number (ci_sequence_header info) \<le> number" using Cons by (simp add: word_le_nat_alt)
  with that Cons info show thesis by blast
qed (use assms in \<open>simp add: validate_chunks_def\<close>)

lemma turn_received_advances:
  assumes "turn_received_chunks_into_message svc chunks t = (r, t')" "length chunks < 2 ^ 32"
  shows "(t' = t \<and> (\<exists>e. r = Inl e)) \<or>
    unat (tt_last_received_sequence_number t) < unat (tt_last_received_sequence_number t')"
proof (cases "bindR (add_u32 (tt_last_received_sequence_number t) 1)
    (\<lambda>start. validate_chunks start (tt_secure_channel t) chunks)")
  case (Inr number)
  then obtain start where start: "add_u32 (tt_last_received_sequence_number t) 1 = Inr start"
    "validate_chunks start (tt_secure_channel t) chunks = Inr number" by (auto simp: bindR_eq_Inr)
  have "start \<le> number"
    by (rule validate_chunks_Inr [OF start(2) assms(2)]) (rule order_trans)
  with add_u32_1 [OF start(1)] have "tt_last_received_sequence_number t < number" by (meson less_le_trans)
  with Inr assms(1) show ?thesis by (auto simp: turn_received_chunks_into_message_def word_less_nat_alt)
qed (use assms(1) in \<open>auto simp: turn_received_chunks_into_message_def\<close>)

lemma process_request_outcomes:
  assumes "process_request ssl random_bytes now handle ty request_no request security_header t = (r, outs, t')"
  shows "length outs \<le> 1 \<and> tt_last_received_sequence_number t' = tt_last_received_sequence_number t \<and>
    tt_pending_chunks t' = tt_pending_chunks t"
  using assms
  by (auto simp: process_request_def Let_def split: MessageChunkType.splits prod.splits sum.splits)

lemma process_final_chunk_outcomes:
  assumes "process_final_chunk ssl svc random_bytes now handle message_header t = (r, outs, t')"
    and "length (tt_pending_chunks t) < 2 ^ 32"
  shows "length outs + unat (tt_last_received_sequence_number t) \<le> unat (tt_last_received_sequence_number t') \<and>
    tt_pending_chunks t' = []"
proof -
  let ?t1 = "t \<lparr> tt_pending_chunks := [] \<rparr>"
  obtain q t2 where turn: "turn_received_chunks_into_message svc (tt_pending_chunks t) ?t1 = (q, t2)"
    by (meson surj_pair)
  have adv: "(t2 = ?t1 \<and> (\<exists>e. q = Inl e)) \<or>
      unat (tt_last_received_sequence_number t) < unat (tt_last_received_sequence_number t2)"
    using turn_received_advances [OF turn assms(2)] by simp
  have pending: "tt_pending_chunks t2 = []" using turn_received_keeps [OF turn] by simp
  show ?thesis
  proof (cases q)
    case (Inl e)
    with assms(1) adv pending show ?thesis
      by (auto simp: process_final_chunk_def Let_def turn split: sum.splits)
  next
    case (Inr request)
    with adv have "unat (tt_last_received_sequence_number t) < unat (tt_last_received_sequence_number t2)" by simp
    with assms(1) Inr pending show ?thesis
      by (auto simp: process_final_chunk_def Let_def turn split: sum.splits dest!: process_request_outcomes)
  qed
qed

lemma process_chunk_outcomes:
  assumes "process_chunk ssl svc random_bytes now handle chunk t = (r, outs, t')"
    and "Suc (length (tt_pending_chunks t)) < 2 ^ 32"
  shows "length outs + unat (tt_last_received_sequence_number t) \<le> unat (tt_last_received_sequence_number t') \<and>
    length (tt_pending_chunks t') \<le> Suc (length (tt_pending_chunks t))"
proof -
  obtain q sc where v: "verify_and_remove_security ssl (mc_data chunk) (tt_secure_channel t) = (q, sc)"
    by (meson surj_pair)
  show ?thesis
    using assms
    by (cases q) (auto simp: process_chunk_def Let_def v split: sum.splits if_splits dest!: process_final_chunk_outcomes)
qed

text \<open>C9: Every message a connection delivers, to the message handler or answered itself, uses up
  at least one sequence number: over any run of the reading loop, over any frames, the last
  received sequence number grows by at least the number of messages delivered. A message is
  therefore never delivered twice under the same sequence number.\<close>

theorem deliveries_use_sequence_numbers:
  assumes "read_messages ssl svc random_bytes now handle msgs t = (r, outs, t')"
    and "length (tt_pending_chunks t) + length msgs < 2 ^ 32"
  shows "length outs + unat (tt_last_received_sequence_number t) \<le> unat (tt_last_received_sequence_number t')"
  using assms
proof (induction msgs arbitrary: t r outs t')
  case (Cons m msgs)
  show ?case
  proof (cases m)
    case (MChunk chunk)
    obtain q outs1 t1 where step: "process_chunk ssl svc random_bytes now handle chunk t = (q, outs1, t1)"
      using prod_cases3 by blast
    from Cons.prems(2) have adv: "length outs1 + unat (tt_last_received_sequence_number t) \<le>
        unat (tt_last_received_sequence_number t1)" "length (tt_pending_chunks t1) \<le> Suc (length (tt_pending_chunks t))"
      using process_chunk_outcomes [OF step] by simp_all
    obtain r2 outs2 t2 where rec: "read_messages ssl svc random_bytes now handle msgs t1 = (r2, outs2, t2)"
      using prod_cases3 by blast
    have "length outs2 + unat (tt_last_received_sequence_number t1) \<le> unat (tt_last_received_sequence_number t2)"
      using rec adv(2) Cons.prems(2) by (intro Cons.IH) auto
    with adv(1) Cons.prems(1) MChunk step rec show ?thesis by (auto split: sum.splits)
  qed (use Cons.prems in auto)
qed auto

theorem deliveries_use_sequence_numbers_witness:
  "\<exists>r outs t'. read_messages xor_ssl publish_services (\<lambda>n. replicate n 0) \<lparr> date_time = 0 \<rparr> (\<lambda>_ _. Inr ())
       [MChunk (chunk_for plain_channel (Symmetric \<lparr> sh_token_id = 0 \<rparr>) 5 CtMessage 12 Final [1])]
       (TcpTransport_new None DecodingOptions_minimal \<lparr> date_time = 0 \<rparr>) = (r, outs, t') \<and>
     length outs + unat (tt_last_received_sequence_number (TcpTransport_new None DecodingOptions_minimal \<lparr> date_time = 0 \<rparr>))
       \<le> unat (tt_last_received_sequence_number t')"
proof -
  obtain r outs t' where run: "read_messages xor_ssl publish_services (\<lambda>n. replicate n 0) \<lparr> date_time = 0 \<rparr> (\<lambda>_ _. Inr ())
       [MChunk (chunk_for plain_channel (Symmetric \<lparr> sh_token_id = 0 \<rparr>) 5 CtMessage 12 Final [1])]
       (TcpTransport_new None DecodingOptions_minimal \<lparr> date_time = 0 \<rparr>) = (r, outs, t')"
    using prod_cases3 by blast
  with deliveries_use_sequence_numbers [OF run] show ?thesis by (auto simp: TcpTransport_new_def)
qed

text \<open>C24: A message cannot be replayed: once a sequence of chunks has been accepted, the same chunks
  are rejected with BadSequenceNumberInvalid, and change nothing, in every later state of the
  connection.\<close>

theorem replayed_chunks_rejected:
  assumes "turn_received_chunks_into_message svc chunks t = (Inr m, t')" "length chunks < 2 ^ 32"
    and "sc_decoding_options (tt_secure_channel u) = sc_decoding_options (tt_secure_channel t)"
    and "tt_last_received_sequence_number t' \<le> tt_last_received_sequence_number u"
    and "tt_last_received_sequence_number u < 2 ^ 32 - 1"
  shows "turn_received_chunks_into_message svc chunks u = (Inl (Err BadSequenceNumberInvalid), u)"
proof -
  from assms(1) obtain start where start: "validate_chunks start (tt_secure_channel t) chunks =
      Inr (tt_last_received_sequence_number t')"
    by (auto simp: turn_received_chunks_into_message_def bindR_eq_Inr split: sum.splits)
  obtain chunk rest info where
    c: "chunks = chunk # rest" "ChunkInfo_new chunk (tt_secure_channel t) = Inr info"
      "sequence_number (ci_sequence_header info) \<le> tt_last_received_sequence_number t'"
    by (rule validate_chunks_Inr [OF start assms(2)])
  have info: "ChunkInfo_new chunk (tt_secure_channel u) = Inr info"
    using c(2) ChunkInfo_new_cong [OF assms(3)] by simp
  have next': "add_u32 (tt_last_received_sequence_number u) 1 = Inr (tt_last_received_sequence_number u + 1)"
    using assms(5) by (simp add: add_u32_def word_less_nat_alt)
  have "sequence_number (ci_sequence_header info) < tt_last_received_sequence_number u + 1"
    using c(3) assms(4) add_u32_1 [OF next'] by (meson le_less_trans)
  with next' info c(1) show ?thesis
    by (simp add: turn_received_chunks_into_message_def validate_chunks_def)
qed

theorem replayed_chunks_rejected_witness:
  "\<exists>chunks t t'. turn_received_chunks_into_message publish_services chunks t = (Inr (sample_publish 2), t') \<and>
     turn_received_chunks_into_message publish_services chunks t' = (Inl (Err BadSequenceNumberInvalid), t')"
proof -
  let ?t = "(TcpTransport_new None DecodingOptions_minimal \<lparr> date_time = 0 \<rparr>) \<lparr> tt_secure_channel := plain_channel \<rparr>"
  let ?sh = "Symmetric \<lparr> sh_token_id = 0 \<rparr>"
  have match: "header_matches (sc_decoding_options plain_channel) CtMessage ?sh" by (simp add: header_matches_def)
  obtain node_id where id: "SupportedMessage_node_id publish_services (sample_publish 2) = Inr node_id"
    by (rule message_data [OF publish_messages.service_messages_axioms sample_publish_fits [of 2]]) simp_all
  let ?data = "NodeId_bytes node_id @ SupportedMessage_bytes PublishRequest_bytes (sample_publish 2)"
  let ?chunks = "chunk_seq plain_channel ?sh 5 CtMessage 1 1 0 [?data]"
  have "validate_chunks 1 plain_channel ?chunks = Inr 1"
    using validate_chunks_seq [OF match, of plain_channel 1 "[?data]" 1 5 1] by simp
  moreover have "Chunker_decode publish_services ?chunks plain_channel None = Inr (sample_publish 2)"
    using decode_chunk_seq [OF publish_messages.service_messages_axioms sample_publish_fits [of 2] match id,
        of "[?data]" "[]" plain_channel 5 1] by simp
  ultimately have first: "turn_received_chunks_into_message publish_services ?chunks ?t =
      (Inr (sample_publish 2), ?t \<lparr> tt_last_received_sequence_number := 1 \<rparr>)"
    by (simp add: turn_received_chunks_into_message_def TcpTransport_new_def add_u32_def)
  moreover have "turn_received_chunks_into_message publish_services ?chunks (?t \<lparr> tt_last_received_sequence_number := 1 \<rparr>) =
      (Inl (Err BadSequenceNumberInvalid), ?t \<lparr> tt_last_received_sequence_number := 1 \<rparr>)"
    by (rule replayed_chunks_rejected [OF first]) simp_all
  ultimately show ?thesis by blast
qed

end
