(* ===== verification/Opc_Client_Channel.thy ===== *)
theory Opc_Client_Channel
  imports Opc_Server_Transport "HOL-Library.AList"
begin

text \<open>
  The client's end of a connection: how it asks for a security token and takes the answer
  (\<open>client/session/session_state.rs\<close>), and how it collects chunks into messages
  (\<open>client/comms/tcp_transport.rs\<close>). The properties are about both ends: the handshake makes
  them agree on the keys, and chunks that arrive out of order or twice are put in order.
\<close>

section \<open>Opening the channel\<close>

definition REQUESTED_LIFETIME :: u32 where "REQUESTED_LIFETIME = 60000"

text \<open>Until the request is sent, and from the response on; the sending in between is the transport's.\<close>

definition issue_or_renew_request ::
  "(nat \<Rightarrow> u8 list) \<Rightarrow> RequestHeader \<Rightarrow> SecurityTokenRequestType \<Rightarrow> SecureChannel
    \<Rightarrow> OpenSecureChannelRequest \<times> SecureChannel" where
  "issue_or_renew_request random_bytes header ty sc =
     (let client_nonce = random_nonce random_bytes (sc_security_policy sc);
          sc' = sc \<lparr> sc_local_nonce := ByteString_as_ref client_nonce \<rparr>
      in (\<lparr> osq_request_header = header, osq_client_protocol_version = 0, osq_request_type = ty,
            osq_security_mode = sc_security_mode sc', osq_client_nonce = client_nonce,
            osq_requested_lifetime = REQUESTED_LIFETIME \<rparr>, sc'))"

text \<open>The state besides the channel is the client's clock offset. The creation time of the token is
  adjusted in the source, but \<open>set_security_token\<close> does not read it.\<close>

definition accept_open_response ::
  "openssl \<Rightarrow> DateTime \<Rightarrow> bool \<Rightarrow> 'm SupportedMessage \<Rightarrow> int \<times> SecureChannel \<Rightarrow> unit res \<times> int \<times> SecureChannel" where
  "accept_open_response ssl now ignore_clock_skew response state =
     (case response of
        SmOpenSecureChannelResponse r \<Rightarrow>
          let timestamp = rsh_timestamp (osr_response_header r);
              skewed = ignore_clock_skew \<and> \<not> DateTime_is_null timestamp;
              offset = DateTime_diff timestamp now;
              token = (if skewed then (osr_security_token r)
                         \<lparr> tk_created_at := DateTime_sub (tk_created_at (osr_security_token r)) offset \<rparr>
                       else osr_security_token r);
              client_off = (if skewed then fst state + offset else fst state);
              sc = snd state;
              sc1 = sc \<lparr> sc_decoding_options := (sc_decoding_options sc) \<lparr> client_offset := client_off \<rparr> \<rparr>;
              sc2 = set_security_token now token sc1
          in if channel_secures sc then
               (case set_remote_nonce_from_byte_string (osr_server_nonce r) sc2 of
                  Inl e \<Rightarrow> (Inl e, client_off, sc2)
                | Inr sc3 \<Rightarrow>
                    (case derive_keys ssl sc3 of
                       Inl e \<Rightarrow> (Inl e, client_off, sc3)
                     | Inr sc4 \<Rightarrow> (Inr (), client_off, sc4)))
             else (Inr (), client_off, sc2)
      | SmServiceFault f \<Rightarrow> (Inl (Err (rsh_service_result (sf_response_header f))), state)
      | _ \<Rightarrow> (Inl (Err BadUnknownResponse), state))"

section \<open>Collecting chunks\<close>

text \<open>The chunks of unfinished messages by request id, in an order that the hash map chooses: the
  argument \<open>order\<close> is the order in which it iterates.\<close>

record ReadState =
  rs_secure_channel :: SecureChannel
  rs_max_chunk_count :: nat
  rs_last_received_sequence_number :: u32
  rs_chunks :: "(u32 \<times> (ChunkInfo \<times> MessageChunk) list) list"

definition chunk_number :: "ChunkInfo \<times> MessageChunk \<Rightarrow> u32" where
  "chunk_number c = sequence_number (ci_sequence_header (fst c))"

fun merge_loop :: "u32 \<Rightarrow> (ChunkInfo \<times> MessageChunk) list \<Rightarrow> MessageChunk list res" where
  "merge_loop expected [] = Inr []"
| "merge_loop expected (c # cs) =
     (if chunk_number c \<noteq> expected then merge_loop expected cs
      else bindR (add_u32 expected 1) (\<lambda>expected'. mapR (Cons (snd c)) (merge_loop expected' cs)))"

definition merge_chunks :: "(ChunkInfo \<times> MessageChunk) list \<Rightarrow> MessageChunk list res" where
  "merge_chunks chunks =
     (if length chunks = 1 then Inr [snd (last chunks)]
      else case sort_key chunk_number chunks of
             [] \<Rightarrow> Inl Panic
           | c # cs \<Rightarrow> merge_loop (chunk_number c) (c # cs))"

definition ReadState_turn_received ::
  "'m services \<Rightarrow> MessageChunk list \<Rightarrow> ReadState \<Rightarrow> 'm SupportedMessage res \<times> ReadState" where
  "ReadState_turn_received svc chunks rs =
     (case bindR (add_u32 (rs_last_received_sequence_number rs) 1) (\<lambda>start.
             validate_chunks start (rs_secure_channel rs) chunks) of
        Inl e \<Rightarrow> (Inl e, rs)
      | Inr number \<Rightarrow>
          (Chunker_decode svc chunks (rs_secure_channel rs) None,
           rs \<lparr> rs_last_received_sequence_number := number \<rparr>))"

definition pushed_chunks :: "u32 \<Rightarrow> ChunkInfo \<times> MessageChunk \<Rightarrow> ReadState \<Rightarrow> (ChunkInfo \<times> MessageChunk) list" where
  "pushed_chunks req c rs = (case map_of (rs_chunks rs) req of None \<Rightarrow> [c] | Some cs \<Rightarrow> cs @ [c])"

definition ReadState_process_chunk ::
  "openssl \<Rightarrow> 'm services \<Rightarrow> (u32 list \<Rightarrow> u32 list) \<Rightarrow> MessageChunk \<Rightarrow> ReadState
    \<Rightarrow> 'm SupportedMessage option res \<times> ReadState" where
  "ReadState_process_chunk ssl svc order chunk rs =
     (case verify_and_remove_security ssl (mc_data chunk) (rs_secure_channel rs) of
        (Inl e, sc) \<Rightarrow> (Inl e, rs \<lparr> rs_secure_channel := sc \<rparr>)
      | (Inr chunk', sc) \<Rightarrow>
          let rs1 = rs \<lparr> rs_secure_channel := sc \<rparr> in
          (case ChunkInfo_new chunk' sc of
             Inl e \<Rightarrow> (Inl e, rs1)
           | Inr info \<Rightarrow>
               let req = request_id (ci_sequence_header info);
                   cs = pushed_chunks req (info, chunk') rs1
               in (case ch_is_final (ci_message_header info) of
                     Intermediate \<Rightarrow>
                       let m = AList.update req cs (rs_chunks rs1) in
                       if rs_max_chunk_count rs1 > 0 \<and> length m > rs_max_chunk_count rs1 then
                         (case order (map fst m) of
                            [] \<Rightarrow> (Inl Panic, rs1 \<lparr> rs_chunks := m \<rparr>)
                          | first # _ \<Rightarrow> (Inr None, rs1 \<lparr> rs_chunks := AList.delete first m \<rparr>))
                       else (Inr None, rs1 \<lparr> rs_chunks := m \<rparr>)
                   | FinalError \<Rightarrow> (Inr None, rs1 \<lparr> rs_chunks := AList.delete req (rs_chunks rs1) \<rparr>)
                   | Final \<Rightarrow>
                       let rs2 = rs1 \<lparr> rs_chunks := AList.delete req (rs_chunks rs1) \<rparr> in
                       (case merge_chunks cs of
                          Inl e \<Rightarrow> (Inl e, rs2)
                        | Inr in_chunks \<Rightarrow>
                            (case ReadState_turn_received svc in_chunks rs2 of
                               (r, rs3) \<Rightarrow> (mapR Some r, rs3))))))"

section \<open>The handshake\<close>

lemma nonce_bytes [simp]:
  "ByteString_as_ref (ByteString_from v) = v" "bs_value (ByteString_from v) = Some v"
  by (simp_all add: ByteString_as_ref_def ByteString_from_def)

lemma server_accepts_request:
  assumes "secured (sc_security_policy sc)" "osq_security_mode request = ModeSign \<or> osq_security_mode request = ModeSignAndEncrypt"
    and "osq_client_protocol_version request = version"
    and "osq_client_nonce request = ByteString_from nonce" "length nonce = secure_channel_nonce_length (sc_security_policy sc)"
    and "ByteString_is_null (sender_certificate h) \<or> (\<exists>cert. X509_from_byte_string ssl (sender_certificate h) = Inr cert)"
    and "osq_request_type request = Issue \<or> (ss_issued st \<and> nonce \<noteq> sc_remote_nonce sc)"
    and "ss_last_secure_channel_id st < 2 ^ 32 - 1" "ss_last_token_id st < 2 ^ 32 - 1"
    and derive: "\<And>sc1. sc_security_policy sc1 = sc_security_policy sc \<Longrightarrow> sc_security_mode sc1 = osq_security_mode request \<Longrightarrow>
      sc_remote_nonce sc1 = nonce \<Longrightarrow> sc_local_nonce sc1 = random_bytes (secure_channel_nonce_length (sc_security_policy sc)) \<Longrightarrow>
      \<exists>sc2. derive_keys ssl sc1 = Inr sc2 \<and> P sc1 sc2"
  shows "\<exists>sc1 sc2 st'. open_secure_channel ssl random_bytes now (Asymmetric h) version
       (SmOpenSecureChannelRequest request :: 'm SupportedMessage) sc st =
       (Inr (SmOpenSecureChannelResponse (open_response now request sc2)), sc2, st') \<and>
     derive_keys ssl sc1 = Inr sc2 \<and> P sc1 sc2 \<and>
     sc_security_policy sc1 = sc_security_policy sc \<and> sc_security_mode sc1 = osq_security_mode request \<and>
     sc_remote_nonce sc1 = nonce \<and> sc_local_nonce sc1 = random_bytes (secure_channel_nonce_length (sc_security_policy sc))"
proof -
  have add: "\<exists>i. add_u32 a 1 = Inr i" if "a < 2 ^ 32 - 1" for a :: u32
    using that by (simp add: add_u32_def word_less_nat_alt)
  obtain i st1 where i: "request_channel_id now request sc st = (Inr i :: 'm SupportedMessage res + u32, st1)" "ss_last_token_id st1 = ss_last_token_id st"
    using assms(4,7) add [OF assms(8)]
    by (cases "osq_request_type request") (auto simp: request_channel_id_def)
  obtain token where token: "add_u32 (ss_last_token_id st) 1 = Inr token" using add [OF assms(9)] by blast
  let ?sc1 = "sc \<lparr> sc_security_mode := osq_security_mode request, sc_token_id := token, sc_secure_channel_id := i \<rparr>"
  obtain cert where cert: "set_remote_cert_from_byte_string ssl (sender_certificate h) ?sc1 = Inr (?sc1 \<lparr> sc_remote_cert := cert \<rparr>)"
    using assms(6) by (cases "ByteString_is_null (sender_certificate h)")
      (auto simp: set_remote_cert_from_byte_string_def)
  let ?sc4 = "?sc1 \<lparr> sc_remote_cert := cert, sc_remote_nonce := nonce,
    sc_local_nonce := random_bytes (secure_channel_nonce_length (sc_security_policy sc)) \<rparr>"
  have "set_remote_nonce_from_byte_string (osq_client_nonce request) (?sc1 \<lparr> sc_remote_cert := cert \<rparr>) =
      Inr (?sc1 \<lparr> sc_remote_cert := cert, sc_remote_nonce := nonce \<rparr>)"
    using assms(4,5) by (simp add: set_remote_nonce_from_byte_string_def)
  moreover obtain sc2 where sc2: "derive_keys ssl ?sc4 = Inr sc2" "P ?sc4 sc2" using derive [of ?sc4] by auto
  moreover have "channel_secures ?sc4" using assms(1,2) by (auto simp: channel_secures_def secured_def)
  moreover have "osq_security_mode request \<noteq> ModeInvalid" using assms(2) by auto
  ultimately have "open_secure_channel ssl random_bytes now (Asymmetric h) version
      (SmOpenSecureChannelRequest request :: 'm SupportedMessage) sc st =
      (Inr (SmOpenSecureChannelResponse (open_response now request sc2)), sc2, st1 \<lparr> ss_issued := True, ss_last_token_id := token \<rparr>)"
    using assms(3) i token cert by (simp add: open_secure_channel_def create_random_nonce_def)
  with sc2 show ?thesis
    by - (rule exI [of _ ?sc4], rule exI [of _ sc2], rule exI, auto)
qed

lemma client_accepts_response:
  assumes "channel_secures cc" "osr_server_nonce r = ByteString_from nonce"
    and "length nonce = secure_channel_nonce_length (sc_security_policy cc)"
  shows "\<exists>off' cc2. sc_security_policy cc2 = sc_security_policy cc \<and> sc_security_mode cc2 = sc_security_mode cc \<and>
    sc_local_nonce cc2 = sc_local_nonce cc \<and> sc_remote_nonce cc2 = nonce \<and>
    sc_secure_channel_id cc2 = tk_channel_id (osr_security_token r) \<and> sc_token_id cc2 = tk_token_id (osr_security_token r) \<and>
    accept_open_response ssl now skew (SmOpenSecureChannelResponse r) (off, cc) =
      (case derive_keys ssl cc2 of Inl e \<Rightarrow> (Inl e, off', cc2) | Inr cc' \<Rightarrow> (Inr (), off', cc'))"
proof -
  let ?t = "rsh_timestamp (osr_response_header r)"
  define skewed where "skewed \<longleftrightarrow> skew \<and> \<not> DateTime_is_null ?t"
  let ?off = "if skewed then off + DateTime_diff ?t now else off"
  let ?cc2 = "cc \<lparr> sc_decoding_options := (sc_decoding_options cc) \<lparr> client_offset := ?off \<rparr>,
      sc_secure_channel_id := tk_channel_id (osr_security_token r), sc_token_id := tk_token_id (osr_security_token r),
      sc_token_created_at := now, sc_token_lifetime := tk_revised_lifetime (osr_security_token r), sc_remote_nonce := nonce \<rparr>"
  show ?thesis
    by (rule exI [of _ ?off], rule exI [of _ ?cc2])
      (cases skewed; use assms in \<open>simp add: accept_open_response_def skewed_def [symmetric] set_security_token_def set_remote_nonce_from_byte_string_def Let_def split: sum.split\<close>)
qed

text \<open>C4: The handshake makes both ends agree. A client with a secured policy makes a request for a
  new token, or for a renewal with a fresh nonce, and the server opens the channel for it. The
  response makes the client's channel and the server's channel match: same channel id, same
  token id, and the keys with which each signs and encrypts are those with which the other
  verifies and decrypts.\<close>

theorem secure_channel_handshake:
  assumes "symmetric_laws ssl" "secured (sc_security_policy cc)" "channel_secures cc"
    and "sc_security_policy sc = sc_security_policy cc"
    and "\<And>n. length (client_random n) = n" "\<And>n. length (server_random n) = n"
    and "issue_or_renew_request client_random header ty cc = (request, cc1)"
    and "ByteString_is_null (sender_certificate h) \<or> (\<exists>cert. X509_from_byte_string ssl (sender_certificate h) = Inr cert)"
    and "ty = Issue \<or> (ss_issued st \<and> sc_local_nonce cc1 \<noteq> sc_remote_nonce sc)"
    and "ss_last_secure_channel_id st < 2 ^ 32 - 1" "ss_last_token_id st < 2 ^ 32 - 1"
  shows "\<exists>response sc' st' off' cc' k1 e1 iv1 k2 e2 iv2.
      open_secure_channel ssl server_random now (Asymmetric h) 0
        (SmOpenSecureChannelRequest request :: 'm SupportedMessage) sc st = (Inr response, sc', st') \<and>
      accept_open_response ssl now' skew response (off, cc1) = (Inr (), off', cc') \<and>
      channel_pair cc' sc' k1 e1 iv1 \<and> channel_pair sc' cc' k2 e2 iv2 \<and>
      sc_secure_channel_id cc' = sc_secure_channel_id sc' \<and> sc_token_id cc' = sc_token_id sc'"
proof -
  let ?n = "secure_channel_nonce_length (sc_security_policy cc)"
  have cc: "sc_security_policy cc \<noteq> SpNone" "sc_security_mode cc = ModeSign \<or> sc_security_mode cc = ModeSignAndEncrypt"
    using assms(3) by (simp_all add: channel_secures_def)
  have req: "cc1 = cc \<lparr> sc_local_nonce := client_random ?n \<rparr>" "osq_client_nonce request = ByteString_from (client_random ?n)"
    "osq_security_mode request = sc_security_mode cc" "osq_client_protocol_version request = 0" "osq_request_type request = ty"
    using assms(7) cc(1) by (auto simp: issue_or_renew_request_def random_nonce_def Let_def)
  define agrees where "agrees sc2 \<longleftrightarrow>
      (\<forall>cc2. sc_security_policy cc2 = sc_security_policy cc \<longrightarrow> sc_security_mode cc2 = sc_security_mode cc \<longrightarrow>
         sc_local_nonce cc2 = client_random ?n \<longrightarrow> sc_remote_nonce cc2 = server_random ?n \<longrightarrow>
         (\<exists>cc' k1 e1 iv1 k2 e2 iv2. derive_keys ssl cc2 = Inr cc' \<and>
            channel_pair cc' sc2 k1 e1 iv1 \<and> channel_pair sc2 cc' k2 e2 iv2))" for sc2
  have keys: "\<exists>sc2. derive_keys ssl sc1 = Inr sc2 \<and> agrees sc2"
    if "sc_security_policy sc1 = sc_security_policy sc" "sc_security_mode sc1 = osq_security_mode request"
      "sc_remote_nonce sc1 = client_random ?n" "sc_local_nonce sc1 = server_random (secure_channel_nonce_length (sc_security_policy sc))" for sc1
  proof -
    have sc1: "secured (sc_security_policy sc1)" "channel_secures sc1" "sc_security_policy sc1 = sc_security_policy cc"
      "sc_security_mode sc1 = sc_security_mode cc" "sc_local_nonce sc1 = server_random ?n"
      using that assms(2,3,4) req(3) by (simp_all add: channel_secures_def)
    have pair: "\<exists>sc2 cc' k1 e1 iv1 k2 e2 iv2. derive_keys ssl sc1 = Inr sc2 \<and> derive_keys ssl cc2 = Inr cc' \<and>
        channel_pair sc2 cc' k1 e1 iv1 \<and> channel_pair cc' sc2 k2 e2 iv2"
      if cc2: "sc_security_policy cc2 = sc_security_policy cc" "sc_security_mode cc2 = sc_security_mode cc"
         "sc_local_nonce cc2 = client_random ?n" "sc_remote_nonce cc2 = server_random ?n" for cc2
      by (rule derived_keys_pair [OF assms(1) sc1(1) _ sc1(2)])
        (simp_all only: sc1 cc2 \<open>sc_remote_nonce sc1 = _\<close>)
    have "\<exists>sc2 cc' k1 e1 iv1 k2 e2 iv2. derive_keys ssl sc1 = Inr sc2 \<and>
        derive_keys ssl (cc1 \<lparr> sc_remote_nonce := server_random ?n \<rparr>) = Inr cc' \<and>
        channel_pair sc2 cc' k1 e1 iv1 \<and> channel_pair cc' sc2 k2 e2 iv2"
      by (rule pair) (simp_all add: req(1))
    then obtain sc2 where sc2: "derive_keys ssl sc1 = Inr sc2" by blast
    have "agrees sc2"
      unfolding agrees_def using pair sc2 by (metis Inr_inject)
    with sc2 show ?thesis by blast
  qed
  have fresh: "osq_request_type request = Issue \<or> (ss_issued st \<and> client_random ?n \<noteq> sc_remote_nonce sc)"
    using assms(9) req by simp
  have len: "length (client_random ?n) = secure_channel_nonce_length (sc_security_policy sc)" using assms(4,5) by simp
  have sec: "secured (sc_security_policy sc)"
    "osq_security_mode request = ModeSign \<or> osq_security_mode request = ModeSignAndEncrypt"
    using assms(2,4) cc req by simp_all
  from server_accepts_request [OF sec req(4,2) len assms(8) fresh assms(10,11) keys, where now = now]
  obtain sc1 sc2 st' where server:
    "open_secure_channel ssl server_random now (Asymmetric h) 0 (SmOpenSecureChannelRequest request :: 'm SupportedMessage) sc st =
       (Inr (SmOpenSecureChannelResponse (open_response now request sc2)), sc2, st')"
    "derive_keys ssl sc1 = Inr sc2"
    "sc_local_nonce sc1 = server_random (secure_channel_nonce_length (sc_security_policy sc))" "agrees sc2"
    by blast
  have nonce: "local_nonce_as_byte_string sc2 = ByteString_from (server_random ?n)"
  proof -
    have "server_random ?n \<noteq> []" using assms(6) [of ?n] by (auto simp: secure_channel_nonce_length_def split: if_splits)
    then show ?thesis using derive_keys_keeps [OF server(2)] server(3) assms(4) by (simp add: local_nonce_as_byte_string_def)
  qed
  let ?response = "SmOpenSecureChannelResponse (open_response now request sc2) :: 'm SupportedMessage"
  have client: "channel_secures cc1" "osr_server_nonce (open_response now request sc2) = ByteString_from (server_random ?n)"
    "length (server_random ?n) = secure_channel_nonce_length (sc_security_policy cc1)"
    using assms(3,6) req(1) nonce by (simp_all add: channel_secures_def open_response_def)
  from client_accepts_response [OF client, of ssl now' skew off] obtain off' cc2 where
    cc2: "sc_security_policy cc2 = sc_security_policy cc" "sc_security_mode cc2 = sc_security_mode cc"
      "sc_local_nonce cc2 = client_random ?n" "sc_remote_nonce cc2 = server_random ?n"
      "sc_secure_channel_id cc2 = sc_secure_channel_id sc2" "sc_token_id cc2 = sc_token_id sc2"
    and accept: "accept_open_response ssl now' skew ?response (off, cc1) =
      (case derive_keys ssl cc2 of Inl e \<Rightarrow> (Inl e, off', cc2) | Inr cc' \<Rightarrow> (Inr (), off', cc'))"
    by (auto simp: req(1) open_response_def)
  from server(4) cc2(1-4) obtain cc' k1 e1 iv1 k2 e2 iv2 where cc':
    "derive_keys ssl cc2 = Inr cc'" "channel_pair cc' sc2 k1 e1 iv1" "channel_pair sc2 cc' k2 e2 iv2" unfolding agrees_def by metis
  have "accept_open_response ssl now' skew ?response (off, cc1) = (Inr (), off', cc')" using accept cc'(1) by simp
  with server(1) cc'(2,3) derive_keys_keeps [OF cc'(1)] cc2(5,6) show ?thesis by metis
qed

theorem secure_channel_handshake_witness:
  "\<exists>response sc' st' off' cc' k1 e1 iv1 k2 e2 iv2.
      open_secure_channel xor_ssl (\<lambda>n. replicate n 7) \<lparr> date_time = 100 \<rparr> (Asymmetric
          \<lparr> security_policy_uri = UAString_null, sender_certificate = ByteString_null,
            receiver_certificate_thumbprint = ByteString_null \<rparr>) 0
        (SmOpenSecureChannelRequest (fst (issue_or_renew_request (\<lambda>n. replicate n 9)
           (pq_request_header (case sample_publish 0 of SmService p \<Rightarrow> p)) Issue (sample_channel ModeSign)))
         :: PublishRequest SupportedMessage) (sample_channel ModeNone) SecureChannelState_new = (Inr response, sc', st') \<and>
      accept_open_response xor_ssl \<lparr> date_time = 200 \<rparr> True response
        (0, snd (issue_or_renew_request (\<lambda>n. replicate n 9)
           (pq_request_header (case sample_publish 0 of SmService p \<Rightarrow> p)) Issue (sample_channel ModeSign))) = (Inr (), off', cc') \<and>
      channel_pair cc' sc' k1 e1 iv1 \<and> channel_pair sc' cc' k2 e2 iv2 \<and>
      sc_secure_channel_id cc' = sc_secure_channel_id sc' \<and> sc_token_id cc' = sc_token_id sc'"
  by (rule secure_channel_handshake [OF xor_ssl_laws, where cc = "sample_channel ModeSign" and client_random = "\<lambda>n. replicate n 9"])
    (simp_all add: sample_channel_def SecureChannel_new_def secured_def channel_secures_def SecureChannelState_new_def
      issue_or_renew_request_def ByteString_is_null_def ByteString_null_def)

section \<open>Chunks in any order\<close>

fun numbered_from :: "u32 \<Rightarrow> (ChunkInfo \<times> MessageChunk) list \<Rightarrow> bool" where
  "numbered_from n [] \<longleftrightarrow> True"
| "numbered_from n (c # cs) \<longleftrightarrow> chunk_number c = n \<and> unat n + 1 < 2 ^ 32 \<and> numbered_from (n + 1) cs"

lemma next_number_greater: "unat (n :: u32) + 1 < 2 ^ 32 \<Longrightarrow> n < n + 1"
  by (simp add: word_less_nat_alt unat_word_ariths)

lemma numbered_from_ge: "numbered_from n cs \<Longrightarrow> c \<in> set cs \<Longrightarrow> n \<le> chunk_number c"
proof (induction n cs rule: numbered_from.induct)
  case (2 n d cs)
  then have "n < n + 1" using next_number_greater [of n] by simp
  with 2 show ?case by (auto dest: less_imp_le intro: order_trans)
qed simp

lemma merge_loop_sorted:
  "sorted (map chunk_number zs) \<Longrightarrow> numbered_from n cs \<Longrightarrow> set cs \<subseteq> set zs \<Longrightarrow>
   (\<And>z. z \<in> set zs \<Longrightarrow> z \<in> set cs \<or> chunk_number z < n) \<Longrightarrow> merge_loop n zs = Inr (map snd cs)"
proof (induction zs arbitrary: n cs)
  case (Cons z zs)
  show ?case
  proof (cases "chunk_number z < n")
    case True
    then have "z \<notin> set cs" using numbered_from_ge [OF Cons.prems(2), of z] leD by blast
    then have "merge_loop n zs = Inr (map snd cs)" using Cons by (intro Cons.IH) auto
    with True show ?thesis by (simp add: less_imp_neq)
  next
    case False
    with Cons.prems(4) [of z] have z: "z \<in> set cs" by simp
    then obtain c ds where cs: "cs = c # ds" by (cases cs) auto
    have n: "chunk_number c = n" "n < n + 1" "numbered_from (n + 1) ds" "unat n + 1 < 2 ^ 32"
      using Cons.prems(2) cs next_number_greater by auto
    have "chunk_number z \<le> n" using Cons.prems(1,3) cs n(1) by auto
    moreover have later: "n < chunk_number d" if "d \<in> set ds" for d
      using numbered_from_ge [OF n(3) that] n(2) by (rule less_le_trans [rotated])
    ultimately have "z = c" using z cs by (metis leD set_ConsD)
    moreover have "merge_loop (n + 1) zs = Inr (map snd ds)"
    proof (rule Cons.IH [OF _ n(3)])
      show "set ds \<subseteq> set zs" using Cons.prems(3) cs later \<open>z = c\<close> n(1) by auto
      show "z' \<in> set ds \<or> chunk_number z' < n + 1" if "z' \<in> set zs" for z'
        using Cons.prems(4) [of z'] that cs n(1,2) by (auto intro: less_trans)
    qed (use Cons.prems(1) in simp)
    ultimately show ?thesis using cs n(1,4) by (simp add: add_u32_def)
  qed
qed simp

text \<open>C23: The client puts the chunks of a message in order. Whatever order the chunks of a message
  arrive in, and however often a chunk is repeated, merging them gives each chunk once, by
  increasing sequence number.\<close>

theorem merge_chunks_restores_order:
  assumes "cs \<noteq> []" "numbered_from n cs" "set arrived = set cs"
  shows "merge_chunks arrived = Inr (map snd cs)"
proof (cases "length arrived = 1")
  case True
  then obtain c where arrived: "arrived = [c]" by (auto simp: length_Suc_conv)
  obtain d ds where cs: "cs = d # ds" using assms(1) by (cases cs) auto
  have "ds = []"
  proof (cases ds)
    case (Cons e es)
    then show ?thesis using assms(2,3) cs arrived next_number_greater [of n] by auto
  qed simp
  then show ?thesis using arrived cs assms(3) by (simp add: merge_chunks_def)
next
  case False
  have "merge_loop n (sort_key chunk_number arrived) = Inr (map snd cs)"
    by (rule merge_loop_sorted [OF _ assms(2)]) (simp_all add: assms(3))
  moreover obtain z zs where z: "sort_key chunk_number arrived = z # zs"
    using assms(1,3) by (cases "sort_key chunk_number arrived") (auto dest: arg_cong [where f = set])
  moreover have "chunk_number z = n"
  proof (rule antisym)
    have "z \<in> set cs" using z assms(3) by (metis list.set_intros(1) set_sort)
    then show "n \<le> chunk_number z" using numbered_from_ge [OF assms(2)] by blast
    have "hd cs \<in> set (z # zs)" using assms(1,3) z by (metis hd_in_set set_sort)
    moreover have "sorted (map chunk_number (z # zs))" using z by (metis sorted_sort_key)
    moreover have "chunk_number (hd cs) = n" using assms(1,2) by (cases cs) auto
    ultimately show "chunk_number z \<le> n" by auto
  qed
  ultimately show ?thesis using False by (simp add: merge_chunks_def)
qed

definition numbered_chunk :: "u32 \<Rightarrow> u8 list \<Rightarrow> ChunkInfo \<times> MessageChunk" where
  "numbered_chunk n v =
     (\<lparr> ci_message_header = \<lparr> ch_message_type = CtMessage, ch_is_final = Intermediate, ch_message_size = 8, ch_secure_channel_id = 1 \<rparr>,
        ci_security_header = Symmetric \<lparr> sh_token_id = 0 \<rparr>,
        ci_sequence_header = \<lparr> sequence_number = n, request_id = 5 \<rparr>,
        ci_security_header_offset = 12, ci_sequence_header_offset = 16, ci_body_offset = 24, ci_body_length = length v \<rparr>,
      \<lparr> mc_data = v \<rparr>)"

theorem merge_chunks_restores_order_witness:
  "merge_chunks [numbered_chunk 9 [3], numbered_chunk 7 [1], numbered_chunk 8 [2], numbered_chunk 7 [1]] =
     Inr [\<lparr> mc_data = [1] \<rparr>, \<lparr> mc_data = [2] \<rparr>, \<lparr> mc_data = [3] \<rparr>]"
  using merge_chunks_restores_order [of "[numbered_chunk 7 [1], numbered_chunk 8 [2], numbered_chunk 9 [3]]" 7
    "[numbered_chunk 9 [3], numbered_chunk 7 [1], numbered_chunk 8 [2], numbered_chunk 7 [1]]"]
  by (auto simp: numbered_chunk_def chunk_number_def)

end
