(* ===== verification/Opc_F64.thy ===== *)
theory Opc_F64
  imports Complex_Main "HOL-Library.Log_Nat" Opc_Prelude
begin

text \<open>
  The 64-bit floating point arithmetic that intervals and deadbands are computed with. A bit
  pattern is read as a value; the operations are exact on rationals and rounded to the nearest
  representable value, ties to even. No operation modelled can tell the two zeros apart, so the
  value has one zero.
\<close>

section \<open>Values\<close>

datatype fval = NotANumber | Infinite bool | Finite rat

definition f_sign :: "bool \<Rightarrow> rat" where
  "f_sign negative = (if negative then -1 else 1)"

definition f64_val :: "64 word \<Rightarrow> fval" where
  "f64_val w =
     (let negative = bit w 63; e = unat (take_bit 11 (drop_bit 52 w)); m = unat (take_bit 52 w) in
      if e = 2047 then (if m = 0 then Infinite negative else NotANumber)
      else if e = 0 then Finite (f_sign negative * of_nat m / 2 ^ 1074)
      else Finite (f_sign negative * of_nat (m + 2 ^ 52) * 2 powi (int e - 1075)))"

definition f32_val :: "32 word \<Rightarrow> fval" where
  "f32_val w =
     (let negative = bit w 31; e = unat (take_bit 8 (drop_bit 23 w)); m = unat (take_bit 23 w) in
      if e = 255 then (if m = 0 then Infinite negative else NotANumber)
      else if e = 0 then Finite (f_sign negative * of_nat m / 2 ^ 149)
      else Finite (f_sign negative * of_nat (m + 2 ^ 23) * 2 powi (int e - 150)))"

section \<open>Comparison\<close>

definition f_le :: "fval \<Rightarrow> fval \<Rightarrow> bool" where
  "f_le a b =
     (case a of
        NotANumber \<Rightarrow> False
      | Infinite s \<Rightarrow> (case b of NotANumber \<Rightarrow> False | Infinite t \<Rightarrow> s \<or> \<not> t | Finite _ \<Rightarrow> s)
      | Finite x \<Rightarrow> (case b of NotANumber \<Rightarrow> False | Infinite t \<Rightarrow> \<not> t | Finite y \<Rightarrow> x \<le> y))"

definition f_eq :: "fval \<Rightarrow> fval \<Rightarrow> bool" where
  "f_eq a b \<longleftrightarrow> a \<noteq> NotANumber \<and> a = b"

definition f_lt :: "fval \<Rightarrow> fval \<Rightarrow> bool" where
  "f_lt a b \<longleftrightarrow> f_le a b \<and> \<not> f_eq a b"

lemma f_le_refl [simp]: "f_le a a \<longleftrightarrow> a \<noteq> NotANumber"
  by (cases a) (simp_all add: f_le_def)

lemma f_le_trans [trans]: "f_le a b \<Longrightarrow> f_le b c \<Longrightarrow> f_le a c"
  by (cases a; cases b; cases c) (auto simp: f_le_def)

lemma f_le_linear: "a \<noteq> NotANumber \<Longrightarrow> b \<noteq> NotANumber \<Longrightarrow> f_le a b \<or> f_lt b a"
  by (cases a; cases b) (auto simp: f_le_def f_lt_def f_eq_def)

lemma f_le_NaN [simp]: "\<not> f_le NotANumber a" "\<not> f_le a NotANumber"
  by (cases a; simp add: f_le_def)+

text \<open>\<open>f64::max\<close> returns the other argument when one is not a number.\<close>

definition f64_max :: "64 word \<Rightarrow> 64 word \<Rightarrow> 64 word" where
  "f64_max a b =
     (if f64_val a = NotANumber then b else if f64_val b = NotANumber then a
      else if f_le (f64_val b) (f64_val a) then a else b)"

lemma f64_max_ge: "f64_val b \<noteq> NotANumber \<Longrightarrow> f_le (f64_val b) (f64_val (f64_max a b))"
  by (simp add: f64_max_def)

section \<open>Rounding\<close>

definition round_even :: "rat \<Rightarrow> int" where
  "round_even q =
     (let n = \<lfloor>q\<rfloor>; r = q - of_int n in
      if r < 1 / 2 then n else if r > 1 / 2 then n + 1 else if even n then n else n + 1)"

definition floor_log2 :: "rat \<Rightarrow> int" where
  "floor_log2 q =
     (let (n, d) = quotient_of q; k = bitlen n - bitlen d in if 2 powi k \<le> q then k else k - 1)"

definition f64_round :: "rat \<Rightarrow> fval" where
  "f64_round q =
     (if q = 0 then Finite 0
      else
        let u = max (floor_log2 \<bar>q\<bar> - 52) (- 1074); r = of_int (round_even (\<bar>q\<bar> / 2 powi u)) * 2 powi u in
        if 2 ^ 1024 \<le> r then Infinite (q < 0) else Finite (sgn q * r))"

definition f_sub :: "fval \<Rightarrow> fval \<Rightarrow> fval" where
  "f_sub a b =
     (case (a, b) of
        (NotANumber, _) \<Rightarrow> NotANumber
      | (_, NotANumber) \<Rightarrow> NotANumber
      | (Infinite s, Infinite t) \<Rightarrow> (if s = t then NotANumber else Infinite s)
      | (Infinite s, _) \<Rightarrow> Infinite s
      | (_, Infinite t) \<Rightarrow> Infinite (\<not> t)
      | (Finite x, Finite y) \<Rightarrow> f64_round (x - y))"

definition f_abs :: "fval \<Rightarrow> fval" where
  "f_abs a = (case a of Finite x \<Rightarrow> Finite \<bar>x\<bar> | Infinite _ \<Rightarrow> Infinite False | NotANumber \<Rightarrow> NotANumber)"

text \<open>Multiplication with a positive constant, and the saturating conversion \<open>as u64\<close>.\<close>

definition f_scale :: "rat \<Rightarrow> fval \<Rightarrow> fval" where
  "f_scale c a = (case a of Finite x \<Rightarrow> f64_round (x * c) | _ \<Rightarrow> a)"

definition f_as_u64 :: "fval \<Rightarrow> nat" where
  "f_as_u64 a =
     (case a of
        NotANumber \<Rightarrow> 0
      | Infinite negative \<Rightarrow> (if negative then 0 else 2 ^ 64 - 1)
      | Finite x \<Rightarrow> min (nat \<lfloor>x\<rfloor>) (2 ^ 64 - 1))"

lemma round_even_nonneg: "0 \<le> q \<Longrightarrow> 0 \<le> round_even q"
  by (auto simp: round_even_def Let_def)

lemma round_even_of_int [simp]: "round_even (of_int n) = n"
  by (simp add: round_even_def)

text \<open>Rounding keeps the sign and never moves a value further than to the neighbouring multiple.\<close>

lemma round_even_near: "\<bar>of_int (round_even q) - q\<bar> \<le> 1 / 2"
proof -
  have "of_int \<lfloor>q\<rfloor> \<le> q" "q < of_int \<lfloor>q\<rfloor> + 1" by linarith+
  then show ?thesis by (auto simp: round_even_def Let_def)
qed

text \<open>Integers of up to 53 bits are represented exactly.\<close>

lemma floor_log2_int:
  assumes "0 < n" "n < 2 ^ 53"
  shows "floor_log2 (of_int n) \<le> 52"
proof -
  have q: "quotient_of (of_int n) = (n, 1)" using quotient_of_int [of n] by (simp add: Rat.of_int_def)
  have "bitlen n \<le> 53" using assms by (simp add: bitlen_le_iff_power)
  moreover have "bitlen 1 = 1" by code_simp
  ultimately show ?thesis by (simp add: floor_log2_def q Let_def)
qed

lemma f64_round_int:
  assumes "\<bar>n\<bar> < 2 ^ 53"
  shows "f64_round (of_int n) = Finite (of_int n)"
proof (cases "n = 0")
  case False
  define u where "u = max (floor_log2 \<bar>of_int n\<bar> - 52) (- 1074)"
  have u: "u \<le> 0" using floor_log2_int [of "\<bar>n\<bar>"] assms False by (simp add: u_def)
  have "\<bar>of_int n\<bar> / 2 powi u = (of_int (\<bar>n\<bar> * 2 ^ nat (- u)) :: rat)"
    using u by (simp add: power_int_def power_divide) 
  then have "round_even (\<bar>of_int n\<bar> / 2 powi u) = \<bar>n\<bar> * 2 ^ nat (- u)" by (metis round_even_of_int)
  then have "of_int (round_even (\<bar>of_int n\<bar> / 2 powi u)) * 2 powi u = (of_int \<bar>n\<bar> :: rat)"
    using u by (simp add: power_int_def power_divide)
  moreover have "\<not> (2 :: rat) ^ 1024 \<le> of_int \<bar>n\<bar>"
  proof -
    have "(of_int \<bar>n\<bar> :: rat) < 2 ^ 53" using assms by (metis of_int_less_iff of_int_numeral of_int_power)
    also have "\<dots> \<le> 2 ^ 1024" by simp
    finally show ?thesis by simp
  qed
  moreover have "sgn (of_int n) * of_int \<bar>n\<bar> = (of_int n :: rat)" by (simp add: sgn_mult_abs)
  ultimately show ?thesis using False unfolding f64_round_def u_def [symmetric] Let_def
    by (simp only: if_False) simp
qed (simp add: f64_round_def)

end
