(* ===== verification/Opc_Monitored_Item.thy ===== *)
theory Opc_Monitored_Item
  imports Opc_F64 Opc_Messages
begin

text \<open>
  Monitored items (\<open>server/subscriptions/monitored_item.rs\<close>) with the data change filter
  (\<open>types/service_types/impls.rs\<close>): sampling an attribute, deciding whether it changed, and the
  bounded queue of notifications. The address space and the evaluation of event filters are not
  modelled; the operations that consult them take their answers as an argument, and the type of an
  event filter is a parameter.
\<close>

section \<open>Data\<close>

datatype MonitoringMode = Disabled | Sampling | Reporting

datatype TimestampsToReturn = TrSource | TrServer | TrBoth | TrNeither | TrInvalid

record ReadValueId =
  rv_node_id :: NodeId
  rv_attribute_id :: u32
  rv_index_range :: UAString
  rv_data_encoding :: QualifiedName

datatype DataChangeTrigger = TriggerStatus | TriggerStatusValue | TriggerStatusValueTimestamp

record DataChangeFilter =
  dcf_trigger :: DataChangeTrigger
  dcf_deadband_type :: u32
  dcf_deadband_value :: "64 word"

record MonitoringParameters =
  mp_client_handle :: u32
  mp_sampling_interval :: "64 word"
  mp_filter :: ExtensionObject
  mp_queue_size :: u32
  mp_discard_oldest :: bool

record MonitoredItemNotification =
  min_client_handle :: u32
  min_value :: DataValue

record EventFieldList =
  efl_client_handle :: u32
  efl_event_fields :: "Variant list option"

datatype Notification = NMonitoredItem MonitoredItemNotification | NEvent EventFieldList

datatype 'f FilterType = FtNone | FtDataChange DataChangeFilter | FtEvent 'f

record 'f MonitoredItem =
  mi_monitored_item_id :: u32
  mi_item_to_monitor :: ReadValueId
  mi_monitoring_mode :: MonitoringMode
  mi_triggered_items :: "u32 set"
  mi_client_handle :: u32
  mi_sampling_interval :: "64 word"
  mi_filter :: "'f FilterType"
  mi_discard_oldest :: bool
  mi_queue_size :: nat
  mi_notification_queue :: "Notification list"
  mi_queue_overflow :: bool
  mi_timestamps_to_return :: TimestampsToReturn
  mi_last_sample_time :: int
  mi_last_data_value :: "DataValue option"

datatype TickResult = ReportValueChanged | ValueChanged | NoChange

text \<open>The limits of the server, out of its state.\<close>

record ServerState =
  st_last_subscription_id :: u32
  st_max_subscriptions :: nat
  st_max_monitored_items_per_sub :: nat
  st_max_monitored_item_queue_size :: nat
  st_min_publishing_interval_ms :: "64 word"
  st_min_sampling_interval_ms :: "64 word"
  st_default_keep_alive_count :: u32
  st_max_keep_alive_count :: u32
  st_max_lifetime_count :: u32
  st_decoding_options :: DecodingOptions

text \<open>What the operations ask of the address space and of the event filters: whether a node exists,
  its attributes, decoding an event filter, its validation, and the events since a time.\<close>

record 'f address_space =
  as_node_exists :: "NodeId \<Rightarrow> bool"
  as_get_attribute :: "NodeId \<Rightarrow> u32 \<Rightarrow> DataValue option"
  as_decode_event_filter :: "DecodingOptions \<Rightarrow> 'f reader"
  as_validate_event_filter :: "'f \<Rightarrow> ExtensionObject res"
  as_evaluate_event_filter :: "NodeId \<Rightarrow> 'f \<Rightarrow> int \<Rightarrow> u32 \<Rightarrow> EventFieldList list option"

section \<open>Filters\<close>

definition DataChangeTrigger_decode :: "DecodingOptions \<Rightarrow> DataChangeTrigger reader" where
  "DataChangeTrigger_decode opts =
     bindD read_i32 (\<lambda>v.
       if v = 0 then returnD TriggerStatus
       else if v = 1 then returnD TriggerStatusValue
       else if v = 2 then returnD TriggerStatusValueTimestamp
       else failD (Err BadUnexpectedError))"

definition DataChangeFilter_decode :: "DecodingOptions \<Rightarrow> DataChangeFilter reader" where
  "DataChangeFilter_decode opts =
     bindD (DataChangeTrigger_decode opts) (\<lambda>trigger.
     bindD (u32_decode opts) (\<lambda>deadband_type.
     bindD (f64_decode opts) (\<lambda>deadband_value.
       returnD \<lparr> dcf_trigger = trigger, dcf_deadband_type = deadband_type, dcf_deadband_value = deadband_value \<rparr>)))"

definition decode_inner :: "(DecodingOptions \<Rightarrow> 'a reader) \<Rightarrow> DecodingOptions \<Rightarrow> ExtensionObject \<Rightarrow> 'a res" where
  "decode_inner decode opts e =
     (case eo_body e of
        ExtByteString b \<Rightarrow>
          (case bs_value b of
             None \<Rightarrow> Inl (Err BadDecodingError)
           | Some v \<Rightarrow> mapR fst (decode opts v))
      | _ \<Rightarrow> Inl (Err BadDecodingError))"

text \<open>\<open>as_object_id\<close> fails on every node id that is not a known numeric one; an id that is known but
  none of the two filters gives the same error.\<close>

definition from_filter :: "'f address_space \<Rightarrow> DecodingOptions \<Rightarrow> ExtensionObject \<Rightarrow> 'f FilterType res" where
  "from_filter asp opts filter_object =
     (if NodeId_is_null (eo_node_id filter_object) then Inr FtNone
      else if eo_node_id filter_object = \<lparr> ni_namespace = 0, ni_identifier = IdNumeric 724 \<rparr> then
        mapR FtDataChange (decode_inner DataChangeFilter_decode opts filter_object)
      else if eo_node_id filter_object = \<lparr> ni_namespace = 0, ni_identifier = IdNumeric 727 \<rparr> then
        mapR FtEvent (decode_inner (as_decode_event_filter asp) opts filter_object)
      else Inl (Err BadFilterNotAllowed))"

section \<open>Comparing values\<close>

text \<open>The derived equality of variants. It is not that of the bit patterns: the two zeros are equal and
  a value that is not a number differs from itself.\<close>

fun Variant_eq :: "Variant \<Rightarrow> Variant \<Rightarrow> bool"
and DataValue_eq :: "DataValue \<Rightarrow> DataValue \<Rightarrow> bool"
and Array_eq :: "Array \<Rightarrow> Array \<Rightarrow> bool" where
  "Variant_eq VEmpty w \<longleftrightarrow> w = VEmpty"
| "Variant_eq (VBoolean x) w \<longleftrightarrow> w = VBoolean x"
| "Variant_eq (VSByte x) w \<longleftrightarrow> w = VSByte x"
| "Variant_eq (VByte x) w \<longleftrightarrow> w = VByte x"
| "Variant_eq (VInt16 x) w \<longleftrightarrow> w = VInt16 x"
| "Variant_eq (VUInt16 x) w \<longleftrightarrow> w = VUInt16 x"
| "Variant_eq (VInt32 x) w \<longleftrightarrow> w = VInt32 x"
| "Variant_eq (VUInt32 x) w \<longleftrightarrow> w = VUInt32 x"
| "Variant_eq (VInt64 x) w \<longleftrightarrow> w = VInt64 x"
| "Variant_eq (VUInt64 x) w \<longleftrightarrow> w = VUInt64 x"
| "Variant_eq (VFloat x) w \<longleftrightarrow> (case w of VFloat y \<Rightarrow> f_eq (f32_val x) (f32_val y) | _ \<Rightarrow> False)"
| "Variant_eq (VDouble x) w \<longleftrightarrow> (case w of VDouble y \<Rightarrow> f_eq (f64_val x) (f64_val y) | _ \<Rightarrow> False)"
| "Variant_eq (VString x) w \<longleftrightarrow> w = VString x"
| "Variant_eq (VDateTime x) w \<longleftrightarrow> w = VDateTime x"
| "Variant_eq (VGuid x) w \<longleftrightarrow> w = VGuid x"
| "Variant_eq (VStatusCode x) w \<longleftrightarrow> w = VStatusCode x"
| "Variant_eq (VByteString x) w \<longleftrightarrow> w = VByteString x"
| "Variant_eq (VXmlElement x) w \<longleftrightarrow> w = VXmlElement x"
| "Variant_eq (VQualifiedName x) w \<longleftrightarrow> w = VQualifiedName x"
| "Variant_eq (VLocalizedText x) w \<longleftrightarrow> w = VLocalizedText x"
| "Variant_eq (VNodeId x) w \<longleftrightarrow> w = VNodeId x"
| "Variant_eq (VExpandedNodeId x) w \<longleftrightarrow> w = VExpandedNodeId x"
| "Variant_eq (VExtensionObject x) w \<longleftrightarrow> w = VExtensionObject x"
| "Variant_eq (VVariant v) w \<longleftrightarrow> (case w of VVariant u \<Rightarrow> Variant_eq v u | _ \<Rightarrow> False)"
| "Variant_eq (VDataValue v) w \<longleftrightarrow> (case w of VDataValue u \<Rightarrow> DataValue_eq v u | _ \<Rightarrow> False)"
| "Variant_eq (VDiagnosticInfo x) w \<longleftrightarrow> w = VDiagnosticInfo x"
| "Variant_eq (VArray a) w \<longleftrightarrow> (case w of VArray b \<Rightarrow> Array_eq a b | _ \<Rightarrow> False)"
| "DataValue_eq (DataValue v st a b c d) u \<longleftrightarrow>
     (case (v, dv_value u) of (None, None) \<Rightarrow> True | (Some x, Some y) \<Rightarrow> Variant_eq x y | _ \<Rightarrow> False) \<and>
     dv_status u = st \<and> dv_source_timestamp u = a \<and> dv_source_picoseconds u = b \<and>
     dv_server_timestamp u = c \<and> dv_server_picoseconds u = d"
| "Array_eq (Array t vs ds) b \<longleftrightarrow>
     t = arr_value_type b \<and> list_all2 Variant_eq vs (arr_values b) \<and> ds = arr_dimensions b"

definition Variant_as_f64 :: "Variant \<Rightarrow> fval option" where
  "Variant_as_f64 v =
     (case v of
        VSByte x \<Rightarrow> Some (f64_round (of_int (sint x)))
      | VByte x \<Rightarrow> Some (f64_round (of_int (uint x)))
      | VInt16 x \<Rightarrow> Some (f64_round (of_int (sint x)))
      | VUInt16 x \<Rightarrow> Some (f64_round (of_int (uint x)))
      | VInt32 x \<Rightarrow> Some (f64_round (of_int (sint x)))
      | VUInt32 x \<Rightarrow> Some (f64_round (of_int (uint x)))
      | VInt64 x \<Rightarrow> Some (f64_round (of_int (sint x)))
      | VUInt64 x \<Rightarrow> Some (f64_round (of_int (uint x)))
      | VFloat x \<Rightarrow> Some (f32_val x)
      | VDouble x \<Rightarrow> Some (f64_val x)
      | _ \<Rightarrow> None)"

definition abs_compare :: "fval \<Rightarrow> fval \<Rightarrow> fval \<Rightarrow> bool" where
  "abs_compare v1 v2 threshold_diff = f_le (f_abs (f_sub v1 v2)) threshold_diff"

text \<open>The comparisons without a range of engineering units, as the server calls them; the deadband
  types are none 0, absolute 1 and percent 2.\<close>

definition compare_value :: "DataChangeFilter \<Rightarrow> Variant \<Rightarrow> Variant \<Rightarrow> bool res" where
  "compare_value f v1 v2 =
     (if dcf_deadband_type f = 0 then Inr (Variant_eq v1 v2)
      else
        (case (Variant_as_f64 v1, Variant_as_f64 v2) of
           (Some x, Some y) \<Rightarrow>
             if f_lt (f64_val (dcf_deadband_value f)) (Finite 0) then Inl (Err BadDeadbandFilterInvalid)
             else if dcf_deadband_type f = 1 then Inr (abs_compare x y (f64_val (dcf_deadband_value f)))
             else Inl (Err BadDeadbandFilterInvalid)
         | _ \<Rightarrow> Inr False))"

definition compare_value_option :: "DataChangeFilter \<Rightarrow> Variant option \<Rightarrow> Variant option \<Rightarrow> bool" where
  "compare_value_option f v1 v2 =
     (case (v1, v2) of
        (None, None) \<Rightarrow> True
      | (Some x, Some y) \<Rightarrow> (case compare_value f x y of Inr b \<Rightarrow> b | Inl _ \<Rightarrow> True)
      | _ \<Rightarrow> False)"

definition DataChangeFilter_compare :: "DataChangeFilter \<Rightarrow> DataValue \<Rightarrow> DataValue \<Rightarrow> bool" where
  "DataChangeFilter_compare f v1 v2 =
     (case dcf_trigger f of
        TriggerStatus \<Rightarrow> dv_status v1 = dv_status v2
      | TriggerStatusValue \<Rightarrow>
          dv_status v1 = dv_status v2 \<and> compare_value_option f (dv_value v1) (dv_value v2)
      | TriggerStatusValueTimestamp \<Rightarrow>
          dv_status v1 = dv_status v2 \<and> compare_value_option f (dv_value v1) (dv_value v2) \<and>
          dv_server_timestamp v1 = dv_server_timestamp v2)"

section \<open>The queue of notifications\<close>

fun with_overflow :: "DataValue \<Rightarrow> DataValue" where
  "with_overflow (DataValue v st a b c d) =
     DataValue v (Some ((case st of None \<Rightarrow> Good | Some x \<Rightarrow> x) OR OVERFLOW)) a b c d"

definition enqueue_notification_message :: "Notification \<Rightarrow> 'f MonitoredItem \<Rightarrow> 'f MonitoredItem" where
  "enqueue_notification_message notification item =
     (let queue = mi_notification_queue item;
          full = length queue = mi_queue_size item;
          queue' = (if full then if mi_discard_oldest item then drop 1 queue else butlast queue else queue);
          overflow = full \<and> mi_queue_size item > 1;
          notification' =
            (if overflow then
               (case notification of
                  NMonitoredItem n \<Rightarrow> NMonitoredItem (n \<lparr> min_value := with_overflow (min_value n) \<rparr>)
                | NEvent e \<Rightarrow> NEvent e)
             else notification)
      in item \<lparr> mi_notification_queue := queue' @ [notification'],
                mi_queue_overflow := (mi_queue_overflow item \<or> overflow) \<rparr>)"

definition all_notifications :: "'f MonitoredItem \<Rightarrow> Notification list option \<times> 'f MonitoredItem" where
  "all_notifications item =
     (if mi_notification_queue item = [] then (None, item)
      else (Some (mi_notification_queue item), item \<lparr> mi_queue_overflow := False, mi_notification_queue := [] \<rparr>))"

section \<open>Sampling\<close>

fun strip_timestamps :: "TimestampsToReturn \<Rightarrow> DataValue \<Rightarrow> DataValue" where
  "strip_timestamps ts (DataValue v st source source_ps server server_ps) =
     (case ts of
        TrNeither \<Rightarrow> DataValue v st None None None None
      | TrInvalid \<Rightarrow> DataValue v st None None None None
      | TrServer \<Rightarrow> DataValue v st None None server server_ps
      | TrSource \<Rightarrow> DataValue v st source source_ps None None
      | TrBoth \<Rightarrow> DataValue v st source source_ps server server_ps)"

definition data_changed :: "bool \<Rightarrow> 'f FilterType \<Rightarrow> DataValue option \<Rightarrow> DataValue \<Rightarrow> bool" where
  "data_changed resend_data filt last_value data_value =
     (if resend_data then True
      else
        (case last_value of
           None \<Rightarrow> True
         | Some l \<Rightarrow>
             (case filt of
                FtNone \<Rightarrow>
                  \<not> (case (dv_value data_value, dv_value l) of
                        (None, None) \<Rightarrow> True | (Some x, Some y) \<Rightarrow> Variant_eq x y | _ \<Rightarrow> False)
              | FtDataChange f \<Rightarrow> \<not> DataChangeFilter_compare f data_value l
              | FtEvent _ \<Rightarrow> False)))"

definition check_for_data_change ::
  "'f address_space \<Rightarrow> bool \<Rightarrow> u32 \<Rightarrow> 'f MonitoredItem \<Rightarrow> bool \<times> 'f MonitoredItem" where
  "check_for_data_change asp resend_data attribute item =
     (case as_get_attribute asp (rv_node_id (mi_item_to_monitor item)) attribute of
        None \<Rightarrow> (False, item)
      | Some data_value \<Rightarrow>
          if data_changed resend_data (mi_filter item) (mi_last_data_value item) data_value then
            (True, enqueue_notification_message
               (NMonitoredItem \<lparr> min_client_handle = mi_client_handle item,
                  min_value = strip_timestamps (mi_timestamps_to_return item) data_value \<rparr>)
               (item \<lparr> mi_last_data_value := Some data_value \<rparr>))
          else (False, item))"

text \<open>The attribute ids are 1 to 27; the event notifier is 12, its bit 0 allows events.\<close>

definition AttributeId_from_u32 :: "u32 \<Rightarrow> u32 option" where
  "AttributeId_from_u32 a = (if 1 \<le> a \<and> a \<le> 27 then Some a else None)"

definition get_event_notifier :: "'f address_space \<Rightarrow> NodeId \<Rightarrow> u8" where
  "get_event_notifier asp node =
     (case as_get_attribute asp node 12 of
        Some v \<Rightarrow> (case dv_value v of Some (VByte b) \<Rightarrow> b | _ \<Rightarrow> 0)
      | None \<Rightarrow> 0)"

definition check_for_events :: "'f address_space \<Rightarrow> int \<Rightarrow> 'f \<Rightarrow> 'f MonitoredItem \<Rightarrow> bool \<times> 'f MonitoredItem" where
  "check_for_events asp happened_since filt item =
     (let node = rv_node_id (mi_item_to_monitor item) in
      if bit (get_event_notifier asp node) 0 then
        (case as_evaluate_event_filter asp node filt happened_since (mi_client_handle item) of
           None \<Rightarrow> (False, item)
         | Some events \<Rightarrow> (True, fold (\<lambda>e. enqueue_notification_message (NEvent e)) events item))
      else (False, item))"

definition check_value ::
  "'f address_space \<Rightarrow> int \<Rightarrow> bool \<Rightarrow> 'f MonitoredItem \<Rightarrow> (bool \<times> 'f MonitoredItem) res" where
  "check_value asp now resend_data item =
     (if mi_monitoring_mode item = Disabled then Inl Panic
      else
        let (changed, item') =
          (if as_node_exists asp (rv_node_id (mi_item_to_monitor item)) then
             (case AttributeId_from_u32 (rv_attribute_id (mi_item_to_monitor item)) of
                None \<Rightarrow> (False, item)
              | Some attribute \<Rightarrow>
                  (case mi_filter item of
                     FtEvent filt \<Rightarrow>
                       if attribute = 12 then check_for_events asp (mi_last_sample_time item) filt item
                       else (False, item)
                   | _ \<Rightarrow> check_for_data_change asp resend_data attribute item))
           else (False, item))
        in Inr (changed, item' \<lparr> mi_last_sample_time := now \<rparr>))"

text \<open>Times are in nanoseconds. A duration that would be negative makes \<open>to_std\<close> fail and its
  \<open>unwrap\<close> panic.\<close>

definition duration_from_ms :: "64 word \<Rightarrow> int" where
  "duration_from_ms d = 1000 * int (f_as_u64 (f_scale 1000 (f64_val d)))"

definition elapsed_since :: "int \<Rightarrow> int \<Rightarrow> int res" where
  "elapsed_since now t = (if now < t then Inl Panic else Inr (now - t))"

definition sample_due :: "int \<Rightarrow> bool \<Rightarrow> bool \<Rightarrow> 'f MonitoredItem \<Rightarrow> bool res" where
  "sample_due now publishing_interval_elapsed resend_data item =
     (if resend_data then Inr True
      else if f_lt (f64_val (mi_sampling_interval item)) (Finite 0) then Inr publishing_interval_elapsed
      else if f_eq (f64_val (mi_sampling_interval item)) (Finite 0) then Inr True
      else mapR (\<lambda>elapsed. duration_from_ms (mi_sampling_interval item) \<le> elapsed)
             (elapsed_since now (mi_last_sample_time item)))"

definition is_event_filter :: "'f MonitoredItem \<Rightarrow> bool" where
  "is_event_filter item = (case mi_filter item of FtEvent _ \<Rightarrow> True | _ \<Rightarrow> False)"

definition MonitoredItem_tick ::
  "'f address_space \<Rightarrow> int \<Rightarrow> bool \<Rightarrow> bool \<Rightarrow> 'f MonitoredItem \<Rightarrow> (TickResult \<times> 'f MonitoredItem) res" where
  "MonitoredItem_tick asp now publishing_interval_elapsed resend_data item =
     (if mi_monitoring_mode item = Disabled then Inr (NoChange, item)
      else
        bindR (sample_due now publishing_interval_elapsed resend_data item) (\<lambda>due.
        if \<not> due then Inr (NoChange, item)
        else
          bindR (check_value asp now resend_data item) (\<lambda>(changed, item').
          let first_tick = (\<not> is_event_filter item \<and> mi_last_data_value item = None) in
          if first_tick \<or> changed \<or> mi_notification_queue item' \<noteq> [] then
            Inr (if mi_monitoring_mode item = Reporting then ReportValueChanged else ValueChanged, item')
          else Inr (NoChange, item'))))"

section \<open>Creating and changing an item\<close>

definition sanitize_sampling_interval :: "ServerState \<Rightarrow> 64 word \<Rightarrow> 64 word" where
  "sanitize_sampling_interval st requested =
     (if f_lt (f64_val requested) (Finite 0) then 0xBFF0000000000000
      else if f_eq (f64_val requested) (Finite 0) \<or>
          f_lt (f64_val requested) (f64_val (st_min_sampling_interval_ms st))
        then st_min_sampling_interval_ms st
      else requested)"

definition sanitize_queue_size :: "ServerState \<Rightarrow> nat \<Rightarrow> nat" where
  "sanitize_queue_size st requested =
     (if requested = 0 \<or> requested = 1 then 1
      else if requested > st_max_monitored_item_queue_size st then st_max_monitored_item_queue_size st
      else requested)"

definition MonitoredItem_new ::
  "'f address_space \<Rightarrow> int \<Rightarrow> u32 \<Rightarrow> TimestampsToReturn \<Rightarrow> ServerState \<Rightarrow> ReadValueId \<Rightarrow> MonitoringMode
    \<Rightarrow> MonitoringParameters \<Rightarrow> 'f MonitoredItem res" where
  "MonitoredItem_new asp now item_id timestamps st item_to_monitor mode params =
     mapR (\<lambda>filt.
       \<lparr> mi_monitored_item_id = item_id, mi_item_to_monitor = item_to_monitor, mi_monitoring_mode = mode,
         mi_triggered_items = {}, mi_client_handle = mp_client_handle params,
         mi_sampling_interval = sanitize_sampling_interval st (mp_sampling_interval params),
         mi_filter = filt, mi_discard_oldest = mp_discard_oldest params,
         mi_queue_size = sanitize_queue_size st (unat (mp_queue_size params)),
         mi_notification_queue = [], mi_queue_overflow = False, mi_timestamps_to_return = timestamps,
         mi_last_sample_time = now, mi_last_data_value = None \<rparr>)
       (from_filter asp (st_decoding_options st) (mp_filter params))"

definition validate_filter :: "'f address_space \<Rightarrow> 'f MonitoredItem \<Rightarrow> ExtensionObject res" where
  "validate_filter asp item =
     (case mi_filter item of FtEvent f \<Rightarrow> as_validate_event_filter asp f | _ \<Rightarrow> Inr ExtensionObject_null)"

text \<open>Shrinking the queue computes the new size less the number of notifications, in this order.\<close>

definition sub_usize :: "nat \<Rightarrow> nat \<Rightarrow> nat res" where
  "sub_usize a b = (if b \<le> a then Inr (a - b) else Inl Panic)"

definition shrink_queue :: "'f MonitoredItem \<Rightarrow> 'f MonitoredItem res" where
  "shrink_queue item =
     (let queued = length (mi_notification_queue item) in
      if mi_queue_size item < queued then
        bindR (sub_usize (mi_queue_size item) queued) (\<lambda>discard.
          if discard \<le> queued
          then Inr (item \<lparr> mi_notification_queue := drop discard (mi_notification_queue item) \<rparr>)
          else Inl Panic)
      else Inr item)"

definition MonitoredItem_modify ::
  "'f address_space \<Rightarrow> ServerState \<Rightarrow> TimestampsToReturn \<Rightarrow> MonitoringParameters \<Rightarrow> 'f MonitoredItem
    \<Rightarrow> ExtensionObject res \<times> 'f MonitoredItem" where
  "MonitoredItem_modify asp st timestamps params item =
     (let item1 = item \<lparr> mi_timestamps_to_return := timestamps \<rparr> in
      case from_filter asp (st_decoding_options st) (mp_filter params) of
        Inl e \<Rightarrow> (Inl e, item1)
      | Inr filt \<Rightarrow>
          let item2 = item1 \<lparr> mi_filter := filt,
                mi_sampling_interval := sanitize_sampling_interval st (mp_sampling_interval params),
                mi_queue_size := sanitize_queue_size st (unat (mp_queue_size params)),
                mi_client_handle := mp_client_handle params, mi_discard_oldest := mp_discard_oldest params \<rparr>
          in case shrink_queue item2 of
               Inl e \<Rightarrow> (Inl e, item2)
             | Inr item3 \<Rightarrow> (validate_filter asp item3, item3))"

definition item_set_triggering :: "u32 list \<Rightarrow> u32 list \<Rightarrow> 'f MonitoredItem \<Rightarrow> 'f MonitoredItem" where
  "item_set_triggering items_to_add items_to_remove item =
     item \<lparr> mi_triggered_items := mi_triggered_items item - set items_to_remove \<union> set items_to_add \<rparr>"

end
