(* ===== verification/Opc_Subscription.thy ===== *)
theory Opc_Subscription
  imports Opc_Monitored_Item "HOL-Library.AList"
begin

text \<open>
  One subscription (\<open>server/subscriptions/subscription.rs\<close>): the state machine of the publishing
  service, the monitored items of the subscription and its queue of notification messages. The only
  failures of these operations are panics, so the result is a fault or the new state.
\<close>

section \<open>Handles and notification messages\<close>

record Handle =
  h_next :: u32
  h_first :: u32

definition Handle_new :: "u32 \<Rightarrow> Handle" where
  "Handle_new first = \<lparr> h_next = first, h_first = first \<rparr>"

definition Handle_next :: "Handle \<Rightarrow> u32 \<times> Handle" where
  "Handle_next h = (h_next h, h \<lparr> h_next := (if h_next h = - 1 then h_first h else h_next h + 1) \<rparr>)"

definition Handle_set_next :: "u32 \<Rightarrow> Handle \<Rightarrow> Handle" where
  "Handle_set_next n h = h \<lparr> h_next := n \<rparr>"

text \<open>The parts of a notification, which the source holds encoded in extension objects.\<close>

datatype NotificationData =
    NdDataChange "MonitoredItemNotification list"
  | NdEvents "EventFieldList list"
  | NdStatusChange StatusCode

record NotificationMessage =
  nm_sequence_number :: u32
  nm_publish_time :: DateTime
  nm_notification_data :: "NotificationData list option"

definition data_change ::
  "u32 \<Rightarrow> DateTime \<Rightarrow> MonitoredItemNotification list \<Rightarrow> EventFieldList list \<Rightarrow> NotificationMessage res" where
  "data_change number time data_changes events =
     (if data_changes = [] \<and> events = [] then Inl Panic
      else Inr \<lparr> nm_sequence_number = number, nm_publish_time = time,
        nm_notification_data = Some ((if data_changes = [] then [] else [NdDataChange data_changes]) @
          (if events = [] then [] else [NdEvents events])) \<rparr>)"

definition status_change :: "u32 \<Rightarrow> DateTime \<Rightarrow> StatusCode \<Rightarrow> NotificationMessage" where
  "status_change number time code =
     \<lparr> nm_sequence_number = number, nm_publish_time = time, nm_notification_data = Some [NdStatusChange code] \<rparr>"

definition keep_alive :: "u32 \<Rightarrow> DateTime \<Rightarrow> NotificationMessage" where
  "keep_alive number time =
     \<lparr> nm_sequence_number = number, nm_publish_time = time, nm_notification_data = None \<rparr>"

section \<open>The state\<close>

datatype SubscriptionState = Closed | Creating | Normal | Late | KeepAlive

record SubscriptionStateParams =
  p_notifications_available :: bool
  p_more_notifications :: bool
  p_publishing_req_queued :: bool
  p_publishing_timer_expired :: bool

datatype UpdateStateAction =
    NoAction | ReturnKeepAlive | ReturnNotifications | SubscriptionCreated | SubscriptionExpired

datatype HandledState =
    None0 | Create3 | Normal4 | Normal5 | IntervalElapsed6 | IntervalElapsed7 | IntervalElapsed8
  | IntervalElapsed9 | Late10 | Late11 | Late12 | KeepAlive13 | KeepAlive14 | KeepAlive15 | KeepAlive16
  | KeepAlive17 | Closed27

datatype TickReason = ReceivePublishRequest | TickTimerFired

text \<open>The items are in the order in which their hash map iterates.\<close>

record 'f Subscription =
  sub_subscription_id :: u32
  sub_publishing_interval :: "64 word"
  sub_max_lifetime_counter :: u32
  sub_max_keep_alive_counter :: u32
  sub_priority :: u8
  sub_monitored_items :: "(u32 \<times> 'f MonitoredItem) list"
  sub_state :: SubscriptionState
  sub_lifetime_counter :: u32
  sub_keep_alive_counter :: u32
  sub_first_message_sent :: bool
  sub_publishing_enabled :: bool
  sub_resend_data :: bool
  sub_sequence_number :: Handle
  sub_last_sequence_number :: u32
  sub_next_monitored_item_id :: u32
  sub_last_time_publishing_interval_elapsed :: int
  sub_notifications :: "NotificationMessage list"

definition Subscription_new :: "int \<Rightarrow> u32 \<Rightarrow> bool \<Rightarrow> 64 word \<Rightarrow> u32 \<Rightarrow> u32 \<Rightarrow> u8 \<Rightarrow> 'f Subscription" where
  "Subscription_new now sub_id enabled interval lifetime keep_alive_count priority =
     \<lparr> sub_subscription_id = sub_id, sub_publishing_interval = interval,
       sub_max_lifetime_counter = lifetime, sub_max_keep_alive_counter = keep_alive_count,
       sub_priority = priority, sub_monitored_items = [], sub_state = Creating,
       sub_lifetime_counter = lifetime, sub_keep_alive_counter = keep_alive_count,
       sub_first_message_sent = False, sub_publishing_enabled = enabled, sub_resend_data = False,
       sub_sequence_number = Handle_new 1, sub_last_sequence_number = 0, sub_next_monitored_item_id = 1,
       sub_last_time_publishing_interval_elapsed = now, sub_notifications = [] \<rparr>"

definition ready_to_remove :: "'f Subscription \<Rightarrow> bool" where
  "ready_to_remove sub \<longleftrightarrow> sub_state sub = Closed \<and> sub_notifications sub = []"

definition reset_keep_alive_counter :: "'f Subscription \<Rightarrow> 'f Subscription" where
  "reset_keep_alive_counter sub = sub \<lparr> sub_keep_alive_counter := sub_max_keep_alive_counter sub \<rparr>"

definition reset_lifetime_counter :: "'f Subscription \<Rightarrow> 'f Subscription" where
  "reset_lifetime_counter sub = sub \<lparr> sub_lifetime_counter := sub_max_lifetime_counter sub \<rparr>"

definition start_publishing_timer :: "'f Subscription \<Rightarrow> 'f Subscription res" where
  "start_publishing_timer sub =
     mapR (\<lambda>n. sub \<lparr> sub_lifetime_counter := n \<rparr>) (sub_u32 (sub_lifetime_counter sub) 1)"

section \<open>The state machine\<close>

type_synonym 'f transition = "(HandledState \<times> UpdateStateAction \<times> 'f Subscription) res"

definition update_normal :: "TickReason \<Rightarrow> SubscriptionStateParams \<Rightarrow> 'f Subscription \<Rightarrow> 'f transition" where
  "update_normal reason p sub =
     (let enabled = sub_publishing_enabled sub; sent = sub_first_message_sent sub;
          expired = p_publishing_timer_expired p; queued = p_publishing_req_queued p;
          available = p_notifications_available p
      in
        if reason = ReceivePublishRequest \<and> (\<not> enabled \<or> enabled \<and> \<not> p_more_notifications p) then
          Inr (Normal4, NoAction, sub)
        else if reason = ReceivePublishRequest \<and> enabled \<and> p_more_notifications p then
          Inr (Normal5, ReturnNotifications, (reset_lifetime_counter sub) \<lparr> sub_first_message_sent := True \<rparr>)
        else if expired \<and> queued \<and> enabled \<and> available then
          mapR (\<lambda>sub'. (IntervalElapsed6, ReturnNotifications, sub' \<lparr> sub_first_message_sent := True \<rparr>))
            (start_publishing_timer (reset_lifetime_counter sub))
        else if expired \<and> queued \<and> \<not> sent \<and> (\<not> enabled \<or> enabled \<and> \<not> available) then
          mapR (\<lambda>sub'. (IntervalElapsed7, ReturnKeepAlive, sub' \<lparr> sub_first_message_sent := True \<rparr>))
            (start_publishing_timer (reset_lifetime_counter sub))
        else if expired \<and> \<not> queued \<and> (\<not> sent \<or> enabled \<and> available) then
          mapR (\<lambda>sub'. (IntervalElapsed8, NoAction, sub' \<lparr> sub_state := Late \<rparr>)) (start_publishing_timer sub)
        else if expired \<and> sent \<and> (\<not> enabled \<or> enabled \<and> \<not> available) then
          mapR (\<lambda>sub'. (IntervalElapsed9, NoAction, (reset_keep_alive_counter sub') \<lparr> sub_state := KeepAlive \<rparr>))
            (start_publishing_timer sub)
        else Inr (None0, NoAction, sub))"

definition update_late :: "TickReason \<Rightarrow> SubscriptionStateParams \<Rightarrow> 'f Subscription \<Rightarrow> 'f transition" where
  "update_late reason p sub =
     (let enabled = sub_publishing_enabled sub; available = p_notifications_available p; more = p_more_notifications p
      in
        if reason = ReceivePublishRequest \<and> enabled \<and> (available \<or> more) then
          Inr (Late10, ReturnNotifications,
            (reset_lifetime_counter sub) \<lparr> sub_state := Normal, sub_first_message_sent := True \<rparr>)
        else if reason = ReceivePublishRequest \<and> (\<not> enabled \<or> enabled \<and> \<not> available \<and> \<not> more) then
          Inr (Late11, ReturnKeepAlive,
            (reset_lifetime_counter sub) \<lparr> sub_state := KeepAlive, sub_first_message_sent := True \<rparr>)
        else if p_publishing_timer_expired p then
          mapR (\<lambda>sub'. (Late12, NoAction, sub')) (start_publishing_timer sub)
        else Inr (None0, NoAction, sub))"

definition update_keep_alive :: "TickReason \<Rightarrow> SubscriptionStateParams \<Rightarrow> 'f Subscription \<Rightarrow> 'f transition" where
  "update_keep_alive reason p sub =
     (let enabled = sub_publishing_enabled sub; count = sub_keep_alive_counter sub;
          expired = p_publishing_timer_expired p; queued = p_publishing_req_queued p;
          available = p_notifications_available p
      in
        if reason = ReceivePublishRequest then Inr (KeepAlive13, NoAction, sub)
        else if expired \<and> enabled \<and> available \<and> queued then
          Inr (KeepAlive14, ReturnNotifications, sub \<lparr> sub_first_message_sent := True, sub_state := Normal \<rparr>)
        else if expired \<and> queued \<and> count = 1 \<and> (\<not> enabled \<or> enabled \<and> available) then
          mapR (\<lambda>sub'. (KeepAlive15, ReturnKeepAlive, reset_keep_alive_counter sub')) (start_publishing_timer sub)
        else if expired \<and> count > 1 \<and> (\<not> enabled \<or> enabled \<and> \<not> available) then
          mapR (\<lambda>sub'. (KeepAlive16, NoAction, sub' \<lparr> sub_keep_alive_counter := count - 1 \<rparr>))
            (start_publishing_timer sub)
        else if expired \<and> \<not> queued \<and> (count = 1 \<or> count > 1 \<and> enabled \<and> available) then
          mapR (\<lambda>sub'. (KeepAlive17, NoAction, sub' \<lparr> sub_state := Late \<rparr>)) (start_publishing_timer sub)
        else Inr (None0, NoAction, sub))"

definition update_state :: "TickReason \<Rightarrow> SubscriptionStateParams \<Rightarrow> 'f Subscription \<Rightarrow> 'f transition" where
  "update_state reason p sub =
     (if reason = ReceivePublishRequest \<and> p_publishing_timer_expired p then Inl Panic
      else if sub_state sub \<in> {Normal, Late, KeepAlive} \<and> sub_lifetime_counter sub = 1 then
        Inr (Closed27, SubscriptionExpired, sub \<lparr> sub_state := Closed \<rparr>)
      else
        (case sub_state sub of
           Creating \<Rightarrow>
             Inr (Create3, SubscriptionCreated, sub \<lparr> sub_state := Normal, sub_first_message_sent := False \<rparr>)
         | Normal \<Rightarrow> update_normal reason p sub
         | Late \<Rightarrow> update_late reason p sub
         | KeepAlive \<Rightarrow> update_keep_alive reason p sub
         | Closed \<Rightarrow> Inr (None0, NoAction, sub)))"

section \<open>The queue of notification messages\<close>

definition enqueue_notification :: "NotificationMessage \<Rightarrow> 'f Subscription \<Rightarrow> 'f Subscription res" where
  "enqueue_notification notification sub =
     (let expected = (if sub_last_sequence_number sub = - 1 then 1 else sub_last_sequence_number sub + 1) in
      if nm_sequence_number notification \<noteq> expected then Inl Panic
      else Inr (sub \<lparr> sub_last_sequence_number := nm_sequence_number notification,
                      sub_notifications := sub_notifications sub @ [notification] \<rparr>))"

text \<open>A notification that is not wanted gives its sequence number back.\<close>

definition discard_notification :: "NotificationMessage option \<Rightarrow> 'f Subscription \<Rightarrow> 'f Subscription" where
  "discard_notification notification sub =
     (case notification of
        None \<Rightarrow> sub
      | Some n \<Rightarrow> sub \<lparr> sub_sequence_number := Handle_set_next (nm_sequence_number n) (sub_sequence_number sub) \<rparr>)"

definition handle_state_result ::
  "int \<Rightarrow> UpdateStateAction \<Rightarrow> NotificationMessage option \<Rightarrow> 'f Subscription \<Rightarrow> 'f Subscription res" where
  "handle_state_result now action notification sub =
     (case action of
        NoAction \<Rightarrow> Inr (discard_notification notification sub)
      | ReturnKeepAlive \<Rightarrow>
          let sub1 = discard_notification notification sub;
              (number, handle) = Handle_next (sub_sequence_number sub1)
          in enqueue_notification (keep_alive number (DateTime_from_utc now)) (sub1 \<lparr> sub_sequence_number := handle \<rparr>)
      | ReturnNotifications \<Rightarrow>
          (case notification of None \<Rightarrow> Inr sub | Some n \<Rightarrow> enqueue_notification n sub)
      | SubscriptionCreated \<Rightarrow> (if notification \<noteq> None then Inl Panic else Inr sub)
      | SubscriptionExpired \<Rightarrow>
          if notification \<noteq> None then Inl Panic
          else
            let (number, handle) = Handle_next (sub_sequence_number sub) in
            enqueue_notification (status_change number (DateTime_from_utc now) BadTimeout)
              (sub \<lparr> sub_monitored_items := [], sub_sequence_number := handle \<rparr>))"

definition take_notification :: "'f Subscription \<Rightarrow> NotificationMessage option \<times> 'f Subscription" where
  "take_notification sub =
     (case sub_notifications sub of
        [] \<Rightarrow> (None, sub)
      | n # ns \<Rightarrow> (Some n, sub \<lparr> sub_notifications := ns \<rparr>))"

section \<open>Ticking the monitored items\<close>

text \<open>The loop over the items. It returns the items, the ids they trigger, and the notifications they
  report.\<close>

fun tick_items ::
  "'f address_space \<Rightarrow> int \<Rightarrow> bool \<Rightarrow> bool \<Rightarrow> (u32 \<times> 'f MonitoredItem) list
    \<Rightarrow> ((u32 \<times> 'f MonitoredItem) list \<times> u32 set \<times> Notification list) res" where
  "tick_items asp now elapsed resend_data [] = Inr ([], {}, [])"
| "tick_items asp now elapsed resend_data ((i, item) # items) =
     bindR (MonitoredItem_tick asp now elapsed resend_data item) (\<lambda>(result, item1).
     bindR
       (case result of
          ReportValueChanged \<Rightarrow>
            if elapsed then
              if mi_monitoring_mode item = Reporting then
                let (ns, item2) = all_notifications item1
                in Inr (item2, mi_triggered_items item1, case ns of None \<Rightarrow> [] | Some ns \<Rightarrow> ns)
              else Inl Panic
            else Inr (item1, {}, [])
        | ValueChanged \<Rightarrow>
            if elapsed then
              if mi_monitoring_mode item = Sampling then Inr (item1, mi_triggered_items item1, []) else Inl Panic
            else Inr (item1, {}, [])
        | NoChange \<Rightarrow> Inr (item1, {}, [])) (\<lambda>(item', triggered, ns).
     mapR (\<lambda>(items', triggered', ns'). ((i, item') # items', triggered \<union> triggered', ns @ ns'))
       (tick_items asp now elapsed resend_data items)))"

text \<open>The loop over the triggered ids, in ascending order.\<close>

fun report_triggered ::
  "'f address_space \<Rightarrow> int \<Rightarrow> u32 list \<Rightarrow> (u32 \<times> 'f MonitoredItem) list
    \<Rightarrow> ((u32 \<times> 'f MonitoredItem) list \<times> Notification list) res" where
  "report_triggered asp now [] items = Inr (items, [])"
| "report_triggered asp now (i # ids) items =
     (case map_of items i of
        None \<Rightarrow> report_triggered asp now ids items
      | Some item \<Rightarrow>
          if mi_monitoring_mode item = Sampling then
            bindR (check_value asp now True item) (\<lambda>(_, item1).
            let (ns, item2) = all_notifications item1 in
            mapR (\<lambda>(items', ns'). (items', (case ns of None \<Rightarrow> [] | Some ns \<Rightarrow> ns) @ ns'))
              (report_triggered asp now ids (AList.update i item2 items)))
          else report_triggered asp now ids items)"

definition data_changes_of :: "Notification list \<Rightarrow> MonitoredItemNotification list" where
  "data_changes_of ns = List.map_filter (\<lambda>n. case n of NMonitoredItem v \<Rightarrow> Some v | _ \<Rightarrow> None) ns"

definition events_of :: "Notification list \<Rightarrow> EventFieldList list" where
  "events_of ns = List.map_filter (\<lambda>n. case n of NEvent v \<Rightarrow> Some v | _ \<Rightarrow> None) ns"

definition tick_monitored_items ::
  "'f address_space \<Rightarrow> int \<Rightarrow> bool \<Rightarrow> bool \<Rightarrow> 'f Subscription \<Rightarrow> (NotificationMessage option \<times> 'f Subscription) res" where
  "tick_monitored_items asp now elapsed resend_data sub =
     bindR (tick_items asp now elapsed resend_data (sub_monitored_items sub)) (\<lambda>(items1, triggered, ns1).
     bindR (report_triggered asp now (sorted_list_of_set triggered) items1) (\<lambda>(items2, ns2).
     let sub' = sub \<lparr> sub_monitored_items := items2 \<rparr>; ns = ns1 @ ns2 in
     if ns = [] then Inr (None, sub')
     else
       let (number, handle) = Handle_next (sub_sequence_number sub')
       in mapR (\<lambda>n. (Some n, sub' \<lparr> sub_sequence_number := handle \<rparr>))
            (data_change number (DateTime_from_utc now) (data_changes_of ns) (events_of ns))))"

section \<open>The tick\<close>

definition test_and_set_publishing_interval_elapsed :: "int \<Rightarrow> 'f Subscription \<Rightarrow> (bool \<times> 'f Subscription) res" where
  "test_and_set_publishing_interval_elapsed now sub =
     mapR (\<lambda>elapsed.
       if duration_from_ms (sub_publishing_interval sub) \<le> elapsed
       then (True, sub \<lparr> sub_last_time_publishing_interval_elapsed := now \<rparr>)
       else (False, sub))
       (elapsed_since now (sub_last_time_publishing_interval_elapsed sub))"

definition interval_elapsed :: "int \<Rightarrow> TickReason \<Rightarrow> 'f Subscription \<Rightarrow> (bool \<times> 'f Subscription) res" where
  "interval_elapsed now reason sub =
     (case reason of
        ReceivePublishRequest \<Rightarrow> Inr (False, sub)
      | TickTimerFired \<Rightarrow>
          if sub_state sub = Creating then Inr (True, sub)
          else if f_le (f64_val (sub_publishing_interval sub)) (Finite 0) then Inl Panic
          else test_and_set_publishing_interval_elapsed now sub)"

definition Subscription_tick ::
  "'f address_space \<Rightarrow> int \<Rightarrow> TickReason \<Rightarrow> bool \<Rightarrow> 'f Subscription \<Rightarrow> 'f Subscription res" where
  "Subscription_tick asp now reason publishing_req_queued sub =
     bindR (interval_elapsed now reason sub) (\<lambda>(elapsed, sub1).
     bindR (if sub_state sub1 \<in> {Closed, Creating} then Inr (None, sub1)
            else tick_monitored_items asp now elapsed (sub_resend_data sub1) sub1) (\<lambda>(notification, sub2).
     let sub3 = sub2 \<lparr> sub_resend_data := False \<rparr>;
         available = (sub_notifications sub3 \<noteq> [] \<or> notification \<noteq> None);
         more = (length (sub_notifications sub3) > 1)
     in if available \<or> elapsed \<or> publishing_req_queued then
          bindR (update_state reason
                   \<lparr> p_notifications_available = available, p_more_notifications = more,
                     p_publishing_req_queued = publishing_req_queued, p_publishing_timer_expired = elapsed \<rparr> sub3)
            (\<lambda>(_, action, sub4). handle_state_result now action notification sub4)
        else Inr sub3))"

section \<open>Managing the monitored items\<close>

record MonitoredItemCreateResult =
  mr_status_code :: StatusCode
  mr_monitored_item_id :: u32
  mr_revised_sampling_interval :: "64 word"
  mr_revised_queue_size :: u32
  mr_filter_result :: ExtensionObject

record MonitoredItemModifyResult =
  mm_status_code :: StatusCode
  mm_revised_sampling_interval :: "64 word"
  mm_revised_queue_size :: u32
  mm_filter_result :: ExtensionObject

definition monitored_item_create_error :: "StatusCode \<Rightarrow> MonitoredItemCreateResult" where
  "monitored_item_create_error code =
     \<lparr> mr_status_code = code, mr_monitored_item_id = 0, mr_revised_sampling_interval = 0,
       mr_revised_queue_size = 0, mr_filter_result = ExtensionObject_null \<rparr>"

text \<open>One item to create: what to monitor, the mode, and the parameters.\<close>

definition create_monitored_item ::
  "'f address_space \<Rightarrow> ServerState \<Rightarrow> int \<Rightarrow> TimestampsToReturn \<Rightarrow> ReadValueId \<times> MonitoringMode \<times> MonitoringParameters
    \<Rightarrow> 'f Subscription \<Rightarrow> (MonitoredItemCreateResult \<times> 'f Subscription) res" where
  "create_monitored_item asp st now timestamps request sub =
     (case request of
        (item_to_monitor, mode, params) \<Rightarrow>
          if \<not> as_node_exists asp (rv_node_id item_to_monitor) then
            Inr (monitored_item_create_error BadNodeIdUnknown, sub)
          else
            (let i = sub_next_monitored_item_id sub in
             case MonitoredItem_new asp now i timestamps st item_to_monitor mode params of
               Inl (Err e) \<Rightarrow> Inr (monitored_item_create_error e, sub)
             | Inl f \<Rightarrow> Inl f
             | Inr item \<Rightarrow>
                 if st_max_monitored_items_per_sub st = 0 \<or>
                    length (sub_monitored_items sub) \<le> st_max_monitored_items_per_sub st then
                   (case validate_filter asp item of
                      Inl (Err e) \<Rightarrow> Inr (monitored_item_create_error e, sub)
                    | Inl f \<Rightarrow> Inl f
                    | Inr filter_result \<Rightarrow>
                        mapR (\<lambda>j.
                          (\<lparr> mr_status_code = Good, mr_monitored_item_id = i,
                             mr_revised_sampling_interval = mi_sampling_interval item,
                             mr_revised_queue_size = of_nat (mi_queue_size item), mr_filter_result = filter_result \<rparr>,
                           sub \<lparr> sub_monitored_items := AList.update i item (sub_monitored_items sub),
                                 sub_next_monitored_item_id := j \<rparr>)) (add_u32 i 1))
                 else Inr (monitored_item_create_error BadTooManyMonitoredItems, sub)))"

fun map_state :: "('r \<Rightarrow> 's \<Rightarrow> ('a \<times> 's) res) \<Rightarrow> 'r list \<Rightarrow> 's \<Rightarrow> ('a list \<times> 's) res" where
  "map_state f [] s = Inr ([], s)"
| "map_state f (r # rs) s =
     bindR (f r s) (\<lambda>(x, s'). mapR (\<lambda>(xs, s''). (x # xs, s'')) (map_state f rs s'))"

definition create_monitored_items ::
  "'f address_space \<Rightarrow> ServerState \<Rightarrow> int \<Rightarrow> TimestampsToReturn
    \<Rightarrow> (ReadValueId \<times> MonitoringMode \<times> MonitoringParameters) list \<Rightarrow> 'f Subscription
    \<Rightarrow> (MonitoredItemCreateResult list \<times> 'f Subscription) res" where
  "create_monitored_items asp st now timestamps requests sub =
     map_state (create_monitored_item asp st now timestamps) requests (reset_lifetime_counter sub)"

definition monitored_item_modify_error :: "StatusCode \<Rightarrow> MonitoredItemModifyResult" where
  "monitored_item_modify_error code =
     \<lparr> mm_status_code = code, mm_revised_sampling_interval = 0, mm_revised_queue_size = 0,
       mm_filter_result = ExtensionObject_null \<rparr>"

definition modify_monitored_item ::
  "'f address_space \<Rightarrow> ServerState \<Rightarrow> TimestampsToReturn \<Rightarrow> u32 \<times> MonitoringParameters \<Rightarrow> 'f Subscription
    \<Rightarrow> (MonitoredItemModifyResult \<times> 'f Subscription) res" where
  "modify_monitored_item asp st timestamps request sub =
     (case request of
        (i, params) \<Rightarrow>
          (case map_of (sub_monitored_items sub) i of
             None \<Rightarrow> Inr (monitored_item_modify_error BadMonitoredItemIdInvalid, sub)
           | Some item \<Rightarrow>
               let (result, item') = MonitoredItem_modify asp st timestamps params item;
                   sub' = sub \<lparr> sub_monitored_items := AList.update i item' (sub_monitored_items sub) \<rparr>
               in (case result of
                     Inl (Err e) \<Rightarrow> Inr (monitored_item_modify_error e, sub')
                   | Inl f \<Rightarrow> Inl f
                   | Inr filter_result \<Rightarrow>
                       Inr (\<lparr> mm_status_code = Good,
                              mm_revised_sampling_interval = mi_sampling_interval item',
                              mm_revised_queue_size = of_nat (mi_queue_size item'), mm_filter_result = filter_result \<rparr>,
                            sub'))))"

definition modify_monitored_items ::
  "'f address_space \<Rightarrow> ServerState \<Rightarrow> TimestampsToReturn \<Rightarrow> (u32 \<times> MonitoringParameters) list \<Rightarrow> 'f Subscription
    \<Rightarrow> (MonitoredItemModifyResult list \<times> 'f Subscription) res" where
  "modify_monitored_items asp st timestamps requests sub =
     map_state (modify_monitored_item asp st timestamps) requests (reset_lifetime_counter sub)"

definition set_monitoring_mode :: "u32 \<Rightarrow> MonitoringMode \<Rightarrow> 'f Subscription \<Rightarrow> StatusCode \<times> 'f Subscription" where
  "set_monitoring_mode i mode sub =
     (case map_of (sub_monitored_items sub) i of
        None \<Rightarrow> (BadMonitoredItemIdInvalid, sub)
      | Some item \<Rightarrow>
          (Good, sub \<lparr> sub_monitored_items :=
             AList.update i (item \<lparr> mi_monitoring_mode := mode \<rparr>) (sub_monitored_items sub) \<rparr>))"

definition delete_monitored_item :: "u32 \<Rightarrow> 'f Subscription \<Rightarrow> (StatusCode \<times> 'f Subscription) res" where
  "delete_monitored_item i sub =
     Inr (if map_of (sub_monitored_items sub) i = None then (BadMonitoredItemIdInvalid, sub)
          else (Good, sub \<lparr> sub_monitored_items := AList.delete i (sub_monitored_items sub) \<rparr>))"

definition delete_monitored_items :: "u32 list \<Rightarrow> 'f Subscription \<Rightarrow> (StatusCode list \<times> 'f Subscription) res" where
  "delete_monitored_items ids sub = map_state delete_monitored_item ids (reset_lifetime_counter sub)"

definition get_handles :: "'f Subscription \<Rightarrow> u32 list \<times> u32 list" where
  "get_handles sub =
     (map (mi_monitored_item_id \<circ> snd) (sub_monitored_items sub), map (mi_client_handle \<circ> snd) (sub_monitored_items sub))"

definition set_resend_data :: "'f Subscription \<Rightarrow> 'f Subscription" where
  "set_resend_data sub = sub \<lparr> sub_resend_data := True \<rparr>"

definition validate_triggered_items :: "'f Subscription \<Rightarrow> u32 \<Rightarrow> u32 list \<Rightarrow> StatusCode list \<times> u32 list" where
  "validate_triggered_items sub item_id items =
     (let good = (\<lambda>i. map_of (sub_monitored_items sub) i \<noteq> None \<and> i \<noteq> item_id)
      in (map (\<lambda>i. if good i then Good else BadMonitoredItemIdInvalid) items, filter good items))"

definition set_triggering ::
  "u32 \<Rightarrow> u32 list \<Rightarrow> u32 list \<Rightarrow> 'f Subscription \<Rightarrow> (StatusCode list \<times> StatusCode list) res \<times> 'f Subscription" where
  "set_triggering item_id items_to_add items_to_remove sub =
     (let (add_results, adds) = validate_triggered_items sub item_id items_to_add;
          (remove_results, removes) = validate_triggered_items sub item_id items_to_remove
      in case map_of (sub_monitored_items sub) item_id of
           None \<Rightarrow> (Inl (Err BadMonitoredItemIdInvalid), sub)
         | Some item \<Rightarrow>
             (Inr (add_results, remove_results),
              sub \<lparr> sub_monitored_items :=
                AList.update item_id (item_set_triggering adds removes item) (sub_monitored_items sub) \<rparr>))"

end
