(* ===== verification/Opc_Publishing.thy ===== *)
theory Opc_Publishing
  imports Opc_Subscription
begin

text \<open>
  Properties of one subscription and of its monitored items: the bounded queue of an item refines a
  list of the newest notifications, the counters and sequence numbers of a subscription keep an
  invariant under every tick, a subscription without publish requests expires, and the cases in
  which the state machine loses or withholds messages.
\<close>

section \<open>The queue of a monitored item\<close>

definition last_n :: "nat \<Rightarrow> 'a list \<Rightarrow> 'a list" where
  "last_n n xs = drop (length xs - n) xs"

lemma length_last_n [simp]: "length (last_n n xs) = min n (length xs)"
  by (simp add: last_n_def)

lemma last_n_append: "last_n n (last_n n xs @ ys) = last_n n (xs @ ys)"
proof (cases "length xs \<le> n")
  case False
  then have "length xs + length ys - n = length ys + (length xs - n)" by simp
  then have "last_n n (xs @ ys) = drop (length ys) (drop (length xs - n) (xs @ ys))"
    by (simp only: last_n_def length_append drop_drop)
  also have "\<dots> = drop (length ys) (last_n n xs @ ys)" by (simp add: last_n_def)
  also have "\<dots> = last_n n (last_n n xs @ ys)" using False by (simp add: last_n_def)
  finally show ?thesis ..
qed (simp add: last_n_def)

definition first_and_newest :: "nat \<Rightarrow> 'a list \<Rightarrow> 'a list" where
  "first_and_newest n xs = (if length xs \<le> n then xs else take (n - 1) xs @ [last xs])"

lemma first_and_newest_append:
  "0 < n \<Longrightarrow> first_and_newest n (first_and_newest n xs @ ys) = first_and_newest n (xs @ ys)"
  by (cases ys rule: rev_cases) (auto simp: first_and_newest_def min_def)

text \<open>The contract of a bounded buffer: it holds what a policy keeps of everything pushed.\<close>

locale bounded_buffer =
  fixes push :: "'a \<Rightarrow> 's \<Rightarrow> 's" and contents :: "'s \<Rightarrow> 'c list" and view :: "'a \<Rightarrow> 'c"
    and capacity :: "'s \<Rightarrow> nat" and ok :: "'s \<Rightarrow> bool" and keep :: "nat \<Rightarrow> 'c list \<Rightarrow> 'c list"
  assumes ok_capacity: "ok s \<Longrightarrow> 0 < capacity s"
    and ok_length: "ok s \<Longrightarrow> length (contents s) \<le> capacity s"
    and push_ok: "ok s \<Longrightarrow> ok (push x s)"
    and push_capacity: "capacity (push x s) = capacity s"
    and push_contents: "ok s \<Longrightarrow> contents (push x s) = keep (capacity s) (contents s @ [view x])"
    and keep_short: "length xs \<le> n \<Longrightarrow> keep n xs = xs"
    and keep_append: "0 < n \<Longrightarrow> keep n (keep n xs @ ys) = keep n (xs @ ys)"
begin

lemma fold_push_ok: "ok s \<Longrightarrow> ok (fold push xs s)"
  by (induction xs arbitrary: s) (simp_all add: push_ok)

lemma fold_push_contents: "ok s \<Longrightarrow> contents (fold push xs s) = keep (capacity s) (contents s @ map view xs)"
proof (induction xs arbitrary: s)
  case Nil
  then show ?case by (simp add: keep_short ok_length)
next
  case (Cons x xs)
  have "contents (fold push xs (push x s)) = keep (capacity s) (contents (push x s) @ map view xs)"
    using Cons by (subst Cons.IH) (simp_all add: push_ok push_capacity)
  also have "\<dots> = keep (capacity s) ((contents s @ [view x]) @ map view xs)"
    using Cons.prems by (simp only: push_contents keep_append ok_capacity)
  finally show ?case by simp
qed

end

text \<open>The overflow bit of a status is not part of what a notification says.\<close>

fun without_status :: "DataValue \<Rightarrow> DataValue" where
  "without_status (DataValue v st a b c d) = DataValue v None a b c d"

fun notification_content :: "Notification \<Rightarrow> Notification" where
  "notification_content (NMonitoredItem n) = NMonitoredItem (n \<lparr> min_value := without_status (min_value n) \<rparr>)"
| "notification_content (NEvent e) = NEvent e"

definition queue_contents :: "'f MonitoredItem \<Rightarrow> Notification list" where
  "queue_contents item = map notification_content (mi_notification_queue item)"

definition queue_ok :: "'f MonitoredItem \<Rightarrow> bool" where
  "queue_ok item \<longleftrightarrow> 0 < mi_queue_size item \<and> length (mi_notification_queue item) \<le> mi_queue_size item"

lemma without_status_overflow [simp]: "without_status (with_overflow v) = without_status v"
  by (cases v) simp

lemma enqueue_keeps [simp]:
  "mi_queue_size (enqueue_notification_message n item) = mi_queue_size item"
  "mi_discard_oldest (enqueue_notification_message n item) = mi_discard_oldest item"
  "mi_monitoring_mode (enqueue_notification_message n item) = mi_monitoring_mode item"
  "mi_last_sample_time (enqueue_notification_message n item) = mi_last_sample_time item"
  "mi_last_data_value (enqueue_notification_message n item) = mi_last_data_value item"
  "mi_filter (enqueue_notification_message n item) = mi_filter item"
  "mi_triggered_items (enqueue_notification_message n item) = mi_triggered_items item"
  by (simp_all add: enqueue_notification_message_def Let_def)

lemma enqueue_ok: "queue_ok item \<Longrightarrow> queue_ok (enqueue_notification_message n item)"
  by (auto simp: queue_ok_def enqueue_notification_message_def Let_def)

lemma enqueue_contents:
  "queue_contents (enqueue_notification_message n item) =
     (let q = queue_contents item in
      (if length q = mi_queue_size item then if mi_discard_oldest item then drop 1 q else butlast q else q)
        @ [notification_content n])"
  by (cases n) (auto simp: enqueue_notification_message_def queue_contents_def Let_def map_butlast drop_map)

interpretation oldest_dropped: bounded_buffer enqueue_notification_message queue_contents notification_content
  mi_queue_size "\<lambda>item. queue_ok item \<and> mi_discard_oldest item" last_n
  by unfold_locales
    (auto simp: enqueue_ok last_n_append enqueue_contents, auto simp: queue_ok_def queue_contents_def last_n_def Let_def)

interpretation newest_replaced: bounded_buffer enqueue_notification_message queue_contents notification_content
  mi_queue_size "\<lambda>item. queue_ok item \<and> \<not> mi_discard_oldest item" first_and_newest
  by unfold_locales
    (auto simp: enqueue_ok first_and_newest_append enqueue_contents,
     auto simp: queue_ok_def queue_contents_def first_and_newest_def Let_def butlast_conv_take not_less_eq_eq
       dest: le_antisym)

text \<open>C11: The queue of a monitored item implements a bounded buffer. After any sequence of notifications
  it holds, apart from overflow bits in statuses, the newest of them up to its capacity if it
  discards the oldest, and else the first ones followed by the newest.\<close>

theorem item_queue_refines_bounded_buffer:
  assumes "queue_ok item"
  shows "queue_contents (fold enqueue_notification_message ns item) =
    (if mi_discard_oldest item then last_n else first_and_newest) (mi_queue_size item)
      (queue_contents item @ map notification_content ns)"
  using assms by (simp add: oldest_dropped.fold_push_contents newest_replaced.fold_push_contents)

definition sample_item :: "bool \<Rightarrow> nat \<Rightarrow> unit MonitoredItem" where
  "sample_item discard_oldest queue_size =
     \<lparr> mi_monitored_item_id = 1,
       mi_item_to_monitor = \<lparr> rv_node_id = NodeId_null, rv_attribute_id = 13, rv_index_range = UAString_null,
         rv_data_encoding = \<lparr> namespace_index = 0, qn_name = UAString_null \<rparr> \<rparr>,
       mi_monitoring_mode = Reporting, mi_triggered_items = {}, mi_client_handle = 1, mi_sampling_interval = 0,
       mi_filter = FtNone, mi_discard_oldest = discard_oldest, mi_queue_size = queue_size,
       mi_notification_queue = [], mi_queue_overflow = False, mi_timestamps_to_return = TrBoth,
       mi_last_sample_time = 0, mi_last_data_value = None \<rparr>"

definition sample_event :: "u32 \<Rightarrow> Notification" where
  "sample_event i = NEvent \<lparr> efl_client_handle = i, efl_event_fields = None \<rparr>"

theorem item_queue_refines_bounded_buffer_witness:
  "queue_contents (fold enqueue_notification_message [sample_event 1, sample_event 2, sample_event 3] (sample_item True 2))
     = [sample_event 2, sample_event 3] \<and>
   queue_contents (fold enqueue_notification_message [sample_event 1, sample_event 2, sample_event 3] (sample_item False 2))
     = [sample_event 1, sample_event 3]"
  using item_queue_refines_bounded_buffer [of "sample_item True 2" "[sample_event 1, sample_event 2, sample_event 3]"]
    item_queue_refines_bounded_buffer [of "sample_item False 2" "[sample_event 1, sample_event 2, sample_event 3]"]
  by (simp add: sample_item_def queue_ok_def queue_contents_def last_n_def first_and_newest_def sample_event_def)

text \<open>Modifying a monitored item to a queue smaller than the number of notifications it holds panics,
  whatever the filter.\<close>

theorem shrinking_queue_panics:
  assumes "from_filter asp (st_decoding_options st) (mp_filter params) = Inr filt"
    and "sanitize_queue_size st (unat (mp_queue_size params)) < length (mi_notification_queue item)"
  shows "fst (MonitoredItem_modify asp st timestamps params item) = Inl Panic"
  using assms by (simp add: MonitoredItem_modify_def shrink_queue_def sub_usize_def Let_def)

definition sample_space :: "(NodeId \<Rightarrow> u32 \<Rightarrow> DataValue option) \<Rightarrow> unit address_space" where
  "sample_space attributes =
     \<lparr> as_node_exists = (\<lambda>_. True), as_get_attribute = attributes, as_decode_event_filter = (\<lambda>_ s. Inr ((), s)),
       as_validate_event_filter = (\<lambda>_. Inr ExtensionObject_null), as_evaluate_event_filter = (\<lambda>_ _ _ _. None) \<rparr>"

definition sample_server :: ServerState where
  "sample_server =
     \<lparr> st_last_subscription_id = 0, st_max_subscriptions = 100, st_max_monitored_items_per_sub = 1000,
       st_max_monitored_item_queue_size = 10, st_min_publishing_interval_ms = 0x4059000000000000,
       st_min_sampling_interval_ms = 0x4059000000000000, st_default_keep_alive_count = 10,
       st_max_keep_alive_count = 30000, st_max_lifetime_count = 90000,
       st_decoding_options = DecodingOptions_minimal \<rparr>"

theorem shrinking_queue_panics_witness:
  "fst (MonitoredItem_modify (sample_space (\<lambda>_ _. None)) sample_server TrBoth
     \<lparr> mp_client_handle = 1, mp_sampling_interval = 0, mp_filter = ExtensionObject_null, mp_queue_size = 1,
       mp_discard_oldest = True \<rparr>
     (fold enqueue_notification_message [sample_event 1, sample_event 2] (sample_item True 2))) = Inl Panic"
  by (rule shrinking_queue_panics)
    (simp_all add: from_filter_def ExtensionObject_null_def NodeId_is_null_def NodeId_null_def NodeId_new_def
      sanitize_queue_size_def sample_item_def enqueue_notification_message_def sample_event_def)

section \<open>The invariant of a subscription\<close>

definition next_number :: "u32 \<Rightarrow> u32" where
  "next_number n = (if n = - 1 then 1 else n + 1)"

definition counters_ok :: "'f Subscription \<Rightarrow> bool" where
  "counters_ok sub \<longleftrightarrow> 1 < sub_max_lifetime_counter sub \<and> 0 < sub_lifetime_counter sub \<and>
     0 < sub_max_keep_alive_counter sub \<and> 0 < sub_keep_alive_counter sub"

text \<open>The notifications that wait are numbered consecutively, up to the number the handle gives next.\<close>

definition sequence_ok :: "'f Subscription \<Rightarrow> bool" where
  "sequence_ok sub \<longleftrightarrow> h_first (sub_sequence_number sub) = 1 \<and>
     h_next (sub_sequence_number sub) = next_number (sub_last_sequence_number sub) \<and>
     successively (\<lambda>x y. y = next_number x)
       (map nm_sequence_number (sub_notifications sub) @ [h_next (sub_sequence_number sub)])"

definition item_ok :: "int \<Rightarrow> 'f MonitoredItem \<Rightarrow> bool" where
  "item_ok now item \<longleftrightarrow> queue_ok item \<and> mi_last_sample_time item \<le> now"

definition items_ok :: "int \<Rightarrow> (u32 \<times> 'f MonitoredItem) list \<Rightarrow> bool" where
  "items_ok now items \<longleftrightarrow> list_all (item_ok now \<circ> snd) items"

definition sub_ok :: "int \<Rightarrow> 'f Subscription \<Rightarrow> bool" where
  "sub_ok now sub \<longleftrightarrow> counters_ok sub \<and> sequence_ok sub \<and> items_ok now (sub_monitored_items sub) \<and>
     sub_last_time_publishing_interval_elapsed sub \<le> now \<and> \<not> f_le (f64_val (sub_publishing_interval sub)) (Finite 0)"

lemma Handle_next_number:
  "h_first h = 1 \<Longrightarrow> Handle_next h = (h_next h, h \<lparr> h_next := next_number (h_next h) \<rparr>)"
  by (simp add: Handle_next_def next_number_def)

lemma item_ok_later: "item_ok now item \<Longrightarrow> now \<le> now' \<Longrightarrow> item_ok now' item"
  by (simp add: item_ok_def)

lemma items_ok_later: "items_ok now items \<Longrightarrow> now \<le> now' \<Longrightarrow> items_ok now' items"
  by (auto simp: items_ok_def list_all_iff intro: item_ok_later)

subsection \<open>Items\<close>

lemma fold_enqueue_ok:
  "queue_ok item \<Longrightarrow> queue_ok (fold enqueue_notification_message ns item)"
  by (induction ns arbitrary: item) (simp_all add: enqueue_ok)

lemma fold_enqueue_keeps:
  "mi_monitoring_mode (fold (\<lambda>e. enqueue_notification_message (f e)) es item) = mi_monitoring_mode item"
  "queue_ok item \<Longrightarrow> queue_ok (fold (\<lambda>e. enqueue_notification_message (f e)) es item)"
  by (induction es arbitrary: item) (simp_all add: enqueue_ok)

lemma queue_ok_unqueued [simp]:
  "queue_ok (item \<lparr> mi_last_data_value := v \<rparr>) = queue_ok item" "queue_ok (item \<lparr> mi_last_sample_time := t \<rparr>) = queue_ok item"
  by (simp_all add: queue_ok_def)

lemma check_value_ok:
  assumes "mi_monitoring_mode item \<noteq> Disabled" "queue_ok item"
  shows "\<exists>changed item'. check_value asp now resend item = Inr (changed, item') \<and> item_ok now item' \<and>
    mi_monitoring_mode item' = mi_monitoring_mode item"
  using assms
  by (auto simp: check_value_def check_for_events_def check_for_data_change_def Let_def item_ok_def enqueue_ok
      fold_enqueue_keeps split: option.split FilterType.split)

lemma MonitoredItem_tick_ok:
  assumes "item_ok now item"
  shows "\<exists>result item'. MonitoredItem_tick asp now elapsed resend item = Inr (result, item') \<and> item_ok now item' \<and>
    (result = ReportValueChanged \<longrightarrow> mi_monitoring_mode item = Reporting) \<and>
    (result = ValueChanged \<longrightarrow> mi_monitoring_mode item = Sampling)"
proof (cases "mi_monitoring_mode item = Disabled")
  case False
  have "\<exists>due. sample_due now elapsed resend item = Inr due"
    using assms by (auto simp: sample_due_def elapsed_since_def item_ok_def mapR_def bindR_def)
  then obtain due where due: "sample_due now elapsed resend item = Inr due" ..
  from assms False obtain changed item' where
    "check_value asp now resend item = Inr (changed, item')" "item_ok now item'"
    using check_value_ok [of item asp now resend] by (auto simp: item_ok_def)
  with False due assms show ?thesis
    by (cases "mi_monitoring_mode item") (simp_all add: MonitoredItem_tick_def bindR_def Let_def)
qed (use assms in \<open>simp add: MonitoredItem_tick_def\<close>)

lemma all_notifications_ok:
  "item_ok now item \<Longrightarrow> item_ok now (snd (all_notifications item))"
  by (auto simp: all_notifications_def item_ok_def queue_ok_def)

lemma tick_items_ok:
  "items_ok now items \<Longrightarrow> \<exists>items' triggered ns. tick_items asp now elapsed resend items = Inr (items', triggered, ns) \<and>
     items_ok now items'"
proof (induction items)
  case (Cons entry items)
  obtain i item where entry: "entry = (i, item)" by fastforce
  with Cons.prems have item: "item_ok now item" "items_ok now items" by (simp_all add: items_ok_def)
  obtain result item' where tick: "MonitoredItem_tick asp now elapsed resend item = Inr (result, item')" "item_ok now item'"
    "result = ReportValueChanged \<Longrightarrow> mi_monitoring_mode item = Reporting"
    "result = ValueChanged \<Longrightarrow> mi_monitoring_mode item = Sampling"
    using MonitoredItem_tick_ok [OF item(1)] by blast
  obtain items' triggered ns where rest: "tick_items asp now elapsed resend items = Inr (items', triggered, ns)" "items_ok now items'"
    using Cons.IH item(2) by blast
  show ?case
    using tick rest all_notifications_ok [OF tick(2)] unfolding entry
    by (cases result) (auto simp: bindR_def mapR_def items_ok_def split: prod.splits)
qed (simp add: items_ok_def)

lemma items_ok_lookup: "items_ok now items \<Longrightarrow> map_of items i = Some item \<Longrightarrow> item_ok now item"
  by (force simp: items_ok_def list_all_iff dest: map_of_SomeD)

lemma items_ok_update: "items_ok now items \<Longrightarrow> item_ok now item \<Longrightarrow> items_ok now (AList.update i item items)"
  by (induction items) (auto simp: items_ok_def)

lemma report_triggered_ok:
  "items_ok now items \<Longrightarrow> \<exists>items' ns. report_triggered asp now ids items = Inr (items', ns) \<and> items_ok now items'"
proof (induction ids arbitrary: items)
  case (Cons i ids)
  show ?case
  proof (cases "\<exists>item. map_of items i = Some item \<and> mi_monitoring_mode item = Sampling")
    case True
    then obtain item where item: "map_of items i = Some item" "mi_monitoring_mode item = Sampling" by blast
    have "item_ok now item" using Cons.prems item(1) by (rule items_ok_lookup)
    then obtain changed item1 where item1: "check_value asp now True item = Inr (changed, item1)" "item_ok now item1"
      using check_value_ok [of item asp now True] item(2) by (auto simp: item_ok_def)
    obtain ns item2 where item2: "all_notifications item1 = (ns, item2)" by (meson surj_pair)
    have "items_ok now (AList.update i item2 items)"
      using items_ok_update [OF Cons.prems] all_notifications_ok [OF item1(2)] item2 by simp
    then obtain items' ns' where "report_triggered asp now ids (AList.update i item2 items) = Inr (items', ns')" "items_ok now items'"
      using Cons.IH by blast
    with item item1 item2 show ?thesis by (simp add: bindR_def mapR_def)
  next
    case False
    with Cons show ?thesis by (auto split: option.split)
  qed
qed simp

lemma notifications_split: "ns \<noteq> [] \<Longrightarrow> data_changes_of ns \<noteq> [] \<or> events_of ns \<noteq> []"
  by (cases ns; cases "hd ns") (auto simp: data_changes_of_def events_of_def map_filter_simps)

lemma tick_monitored_items_ok:
  assumes "items_ok now (sub_monitored_items sub)" "h_first (sub_sequence_number sub) = 1"
  shows "\<exists>notification items' handle.
    tick_monitored_items asp now elapsed resend sub =
      Inr (notification, sub \<lparr> sub_monitored_items := items', sub_sequence_number := handle \<rparr>) \<and>
    items_ok now items' \<and> h_first handle = 1 \<and>
    (case notification of None \<Rightarrow> handle = sub_sequence_number sub
     | Some n \<Rightarrow> nm_sequence_number n = h_next (sub_sequence_number sub) \<and> h_next handle = next_number (nm_sequence_number n))"
proof -
  obtain items1 triggered ns1 where 1: "tick_items asp now elapsed resend (sub_monitored_items sub) = Inr (items1, triggered, ns1)"
    "items_ok now items1" using tick_items_ok [OF assms(1)] by blast
  obtain items2 ns2 where 2: "report_triggered asp now (sorted_list_of_set triggered) items1 = Inr (items2, ns2)"
    "items_ok now items2" using report_triggered_ok [OF 1(2)] by blast
  show ?thesis
  proof (cases "ns1 @ ns2 = []")
    case True
    with 1 2 assms show ?thesis
      by - (rule exI [of _ None], rule exI [of _ items2], rule exI [of _ "sub_sequence_number sub"],
        simp add: tick_monitored_items_def bindR_def Let_def)
  next
    case False
    from notifications_split [OF False] obtain n where n: "data_change (h_next (sub_sequence_number sub)) (DateTime_from_utc now)
        (data_changes_of (ns1 @ ns2)) (events_of (ns1 @ ns2)) = Inr n"
      "nm_sequence_number n = h_next (sub_sequence_number sub)" by (auto simp: data_change_def)
    let ?handle = "(sub_sequence_number sub) \<lparr> h_next := next_number (h_next (sub_sequence_number sub)) \<rparr>"
    have "tick_monitored_items asp now elapsed resend sub =
        Inr (Some n, sub \<lparr> sub_monitored_items := items2, sub_sequence_number := ?handle \<rparr>)"
      using 1 2 False n(1) assms(2) by (simp add: tick_monitored_items_def bindR_def mapR_def Let_def Handle_next_number)
    with 2(2) n(2) assms(2) show ?thesis
      by - (rule exI [of _ "Some n"], rule exI [of _ items2], rule exI [of _ ?handle], simp)
  qed
qed

subsection \<open>The state machine\<close>

lemma start_publishing_timer_ok:
  "1 < sub_lifetime_counter sub \<Longrightarrow>
     start_publishing_timer sub = Inr (sub \<lparr> sub_lifetime_counter := sub_lifetime_counter sub - 1 \<rparr>)"
  by (simp add: start_publishing_timer_def sub_u32_def mapR_def bindR_def less_imp_le)

lemma word_pred_pos: "1 < (n :: u32) \<Longrightarrow> 0 < n - 1"
  by (metis diff_eq_eq add_0 word_neq_0_conv less_irrefl)

lemma word_gt_0_of_1: "1 < (n :: u32) \<Longrightarrow> 0 < n"
  by (metis word_gt_0 word_not_simps(1))

lemma word_gt_1: "0 < (n :: u32) \<Longrightarrow> n \<noteq> 1 \<Longrightarrow> 1 < n"
  by (metis inc_le less_le add_0)

lemmas update_defs = update_normal_def update_late_def update_keep_alive_def reset_lifetime_counter_def
  reset_keep_alive_counter_def start_publishing_timer_ok mapR_def bindR_def Let_def

lemma update_state_ok:
  assumes "counters_ok sub" "\<not> (reason = ReceivePublishRequest \<and> p_publishing_timer_expired p)"
  shows "\<exists>h action sub'. update_state reason p sub = Inr (h, action, sub') \<and> counters_ok sub'"
proof (cases "sub_state sub \<in> {Normal, Late, KeepAlive} \<and> sub_lifetime_counter sub = 1")
  case True
  with assms show ?thesis by (auto simp: update_state_def counters_ok_def)
next
  case False
  then have life: "sub_state sub \<in> {Normal, Late, KeepAlive} \<Longrightarrow> 1 < sub_lifetime_counter sub"
    using assms(1) by (auto simp: counters_ok_def intro: word_gt_1)
  have "0 < sub_max_lifetime_counter sub" using assms(1) by (simp add: counters_ok_def word_gt_0_of_1)
  then show ?thesis
    using assms False life
    by (cases "sub_state sub") (auto simp: update_state_def update_defs counters_ok_def word_pred_pos)
qed

text \<open>What a transition leaves alone, and when it creates or expires the subscription.\<close>

lemma update_state_frame:
  assumes "update_state reason p sub = Inr (h, action, sub')"
  shows "sub_sequence_number sub' = sub_sequence_number sub \<and> sub_last_sequence_number sub' = sub_last_sequence_number sub \<and>
    sub_notifications sub' = sub_notifications sub \<and> sub_monitored_items sub' = sub_monitored_items sub \<and>
    sub_publishing_interval sub' = sub_publishing_interval sub \<and> sub_subscription_id sub' = sub_subscription_id sub \<and>
    sub_publishing_enabled sub' = sub_publishing_enabled sub \<and> sub_priority sub' = sub_priority sub \<and>
    sub_last_time_publishing_interval_elapsed sub' = sub_last_time_publishing_interval_elapsed sub \<and>
    (action = SubscriptionExpired \<longleftrightarrow> sub_state sub \<in> {Normal, Late, KeepAlive} \<and> sub_lifetime_counter sub = 1) \<and>
    (action = SubscriptionCreated \<longleftrightarrow> sub_state sub = Creating)"
  using assms
  by (cases "sub_state sub")
    (auto simp: update_state_def update_normal_def update_late_def update_keep_alive_def Let_def reset_lifetime_counter_def
      reset_keep_alive_counter_def start_publishing_timer_def mapR_eq_Inr split: if_splits)

subsection \<open>Sequence numbers\<close>

definition sequence_pending :: "NotificationMessage option \<Rightarrow> 'f Subscription \<Rightarrow> bool" where
  "sequence_pending notification sub \<longleftrightarrow>
     (case notification of
        None \<Rightarrow> sequence_ok sub
      | Some n \<Rightarrow> sequence_ok (sub \<lparr> sub_sequence_number := (sub_sequence_number sub) \<lparr> h_next := nm_sequence_number n \<rparr> \<rparr>) \<and>
          h_next (sub_sequence_number sub) = next_number (nm_sequence_number n))"

lemma discard_notification_ok: "sequence_pending notification sub \<Longrightarrow> sequence_ok (discard_notification notification sub)"
  by (auto simp: sequence_pending_def discard_notification_def Handle_set_next_def split: option.splits)

text \<open>What queueing a message leaves alone.\<close>

definition queue_frame :: "'f Subscription \<Rightarrow> 'f Subscription \<Rightarrow> bool" where
  "queue_frame sub sub' \<longleftrightarrow> counters_ok sub' = counters_ok sub \<and> sub_state sub' = sub_state sub \<and>
     sub_lifetime_counter sub' = sub_lifetime_counter sub \<and> sub_keep_alive_counter sub' = sub_keep_alive_counter sub \<and>
     sub_publishing_interval sub' = sub_publishing_interval sub \<and> sub_subscription_id sub' = sub_subscription_id sub \<and>
     sub_publishing_enabled sub' = sub_publishing_enabled sub \<and> sub_priority sub' = sub_priority sub \<and>
     sub_last_time_publishing_interval_elapsed sub' = sub_last_time_publishing_interval_elapsed sub \<and>
     (sub_monitored_items sub' = sub_monitored_items sub \<or> sub_monitored_items sub' = [])"

lemma enqueue_notification_ok:
  assumes "sequence_pending (Some n) sub"
  shows "\<exists>sub'. enqueue_notification n sub = Inr sub' \<and> sequence_ok sub' \<and> queue_frame sub sub'"
  using assms
  by (auto simp: sequence_pending_def sequence_ok_def enqueue_notification_def Let_def next_number_def [symmetric]
      successively_append_iff queue_frame_def counters_ok_def)

lemma next_handle_pending:
  assumes "sequence_ok sub" "Handle_next (sub_sequence_number sub) = (number, handle)" "nm_sequence_number n = number"
  shows "sequence_pending (Some n) (sub \<lparr> sub_sequence_number := handle \<rparr>)"
  using assms by (auto simp: sequence_ok_def sequence_pending_def Handle_next_number)

lemma queue_frame_discard [simp]: "queue_frame sub (discard_notification notification sub)"
  by (simp add: queue_frame_def discard_notification_def counters_ok_def split: option.split)

lemma queue_frame_trans: "queue_frame a b \<Longrightarrow> queue_frame b c \<Longrightarrow> queue_frame a c"
  by (auto simp: queue_frame_def)

lemma queue_frame_handle:
  "queue_frame sub (sub \<lparr> sub_sequence_number := h \<rparr>)"
  "queue_frame sub (sub \<lparr> sub_monitored_items := [], sub_sequence_number := h \<rparr>)"
  by (simp_all add: queue_frame_def counters_ok_def)

lemma handle_state_result_ok:
  assumes "sequence_pending notification sub"
    and "notification \<noteq> None \<Longrightarrow> action \<notin> {SubscriptionCreated, SubscriptionExpired}"
  shows "\<exists>sub'. handle_state_result now action notification sub = Inr sub' \<and> sequence_ok sub' \<and> queue_frame sub sub'"
proof (cases action)
  case NoAction
  with discard_notification_ok [OF assms(1)] show ?thesis by (simp add: handle_state_result_def)
next
  case ReturnKeepAlive
  let ?sub1 = "discard_notification notification sub"
  obtain number handle where h: "Handle_next (sub_sequence_number ?sub1) = (number, handle)" by (meson surj_pair)
  let ?n = "keep_alive number (DateTime_from_utc now)"
  have "sequence_pending (Some ?n) (?sub1 \<lparr> sub_sequence_number := handle \<rparr>)"
    by (rule next_handle_pending [OF discard_notification_ok [OF assms(1)] h]) (simp add: keep_alive_def)
  from enqueue_notification_ok [OF this] obtain sub' where
    "enqueue_notification ?n (?sub1 \<lparr> sub_sequence_number := handle \<rparr>) = Inr sub'" "sequence_ok sub'"
    "queue_frame (?sub1 \<lparr> sub_sequence_number := handle \<rparr>) sub'" by blast
  moreover have "queue_frame sub (?sub1 \<lparr> sub_sequence_number := handle \<rparr>)"
    using queue_frame_discard queue_frame_handle(1) by (rule queue_frame_trans)
  ultimately show ?thesis
    using ReturnKeepAlive h queue_frame_trans by (auto simp: handle_state_result_def Let_def)
next
  case ReturnNotifications
  with assms(1) show ?thesis
    by (cases notification) (auto simp: handle_state_result_def sequence_pending_def queue_frame_def
        intro: enqueue_notification_ok [unfolded sequence_pending_def queue_frame_def])
next
  case SubscriptionCreated
  with assms(2) have "notification = None" by (cases notification) auto
  with assms(1) SubscriptionCreated show ?thesis by (simp add: handle_state_result_def sequence_pending_def queue_frame_def)
next
  case SubscriptionExpired
  with assms(2) have none: "notification = None" by (cases notification) auto
  with assms(1) have ok: "sequence_ok sub" by (simp add: sequence_pending_def)
  obtain number handle where h: "Handle_next (sub_sequence_number sub) = (number, handle)" by (meson surj_pair)
  let ?n = "status_change number (DateTime_from_utc now) BadTimeout"
  let ?sub = "sub \<lparr> sub_monitored_items := [], sub_sequence_number := handle \<rparr>"
  have "sequence_pending (Some ?n) (sub \<lparr> sub_monitored_items := [] \<rparr> \<lparr> sub_sequence_number := handle \<rparr>)"
    by (rule next_handle_pending) (use ok h in \<open>auto simp: status_change_def sequence_ok_def\<close>)
  from enqueue_notification_ok [OF this] obtain sub' where
    "enqueue_notification ?n ?sub = Inr sub'" "sequence_ok sub'" "queue_frame ?sub sub'" by auto
  with h none SubscriptionExpired queue_frame_trans [OF queue_frame_handle(2)] show ?thesis
    by (auto simp: handle_state_result_def Let_def)
qed

subsection \<open>The tick\<close>

lemma interval_elapsed_ok:
  assumes "sub_last_time_publishing_interval_elapsed sub \<le> now" "\<not> f_le (f64_val (sub_publishing_interval sub)) (Finite 0)"
  shows "\<exists>elapsed t. interval_elapsed now reason sub = Inr (elapsed, sub \<lparr> sub_last_time_publishing_interval_elapsed := t \<rparr>) \<and>
    t \<le> now \<and> (reason = ReceivePublishRequest \<longrightarrow> \<not> elapsed)"
proof (cases "reason = TickTimerFired \<and> sub_state sub \<noteq> Creating \<and>
    duration_from_ms (sub_publishing_interval sub) \<le> now - sub_last_time_publishing_interval_elapsed sub")
  case True
  with assms show ?thesis
    by (auto simp: interval_elapsed_def test_and_set_publishing_interval_elapsed_def elapsed_since_def mapR_def bindR_def)
next
  case False
  with assms show ?thesis
    by - (rule exI [of _ "reason = TickTimerFired \<and> sub_state sub = Creating"],
      rule exI [of _ "sub_last_time_publishing_interval_elapsed sub"],
      cases reason, auto simp: interval_elapsed_def test_and_set_publishing_interval_elapsed_def elapsed_since_def mapR_def bindR_def)
qed

lemma items_produce_notification:
  assumes "tick_monitored_items asp now elapsed resend sub = Inr (Some n, sub')" 
  shows "sub_monitored_items sub \<noteq> []"
  using assms by (auto simp: tick_monitored_items_def)

lemma Subscription_tick_ok:
  assumes "sub_ok now0 sub" "now0 \<le> now"
  shows "(\<exists>sub'. Subscription_tick asp now reason queued sub = Inr sub' \<and> sub_ok now sub') \<or>
    Subscription_tick asp now reason queued sub = Inl Panic \<and> sub_lifetime_counter sub = 1 \<and>
      sub_state sub \<in> {Normal, Late, KeepAlive} \<and> sub_monitored_items sub \<noteq> []"
proof -
  have ok: "counters_ok sub" "sequence_ok sub" "items_ok now (sub_monitored_items sub)"
    "\<not> f_le (f64_val (sub_publishing_interval sub)) (Finite 0)" "sub_last_time_publishing_interval_elapsed sub \<le> now"
    using assms(1,2) by (auto simp: sub_ok_def intro: items_ok_later)
  obtain elapsed t where 1: "interval_elapsed now reason sub = Inr (elapsed, sub \<lparr> sub_last_time_publishing_interval_elapsed := t \<rparr>)"
    "t \<le> now" "reason = ReceivePublishRequest \<Longrightarrow> \<not> elapsed"
    using interval_elapsed_ok [OF ok(5,4)] by blast
  let ?sub1 = "sub \<lparr> sub_last_time_publishing_interval_elapsed := t \<rparr>"
  let ?items = "if sub_state ?sub1 \<in> {Closed, Creating} then Inr (None, ?sub1)
    else tick_monitored_items asp now elapsed (sub_resend_data ?sub1) ?sub1"
  obtain notification items handle where 2: "?items = Inr (notification, ?sub1 \<lparr> sub_monitored_items := items, sub_sequence_number := handle \<rparr>)"
    "items_ok now items" "h_first handle = 1"
    "case notification of None \<Rightarrow> handle = sub_sequence_number sub
     | Some n \<Rightarrow> nm_sequence_number n = h_next (sub_sequence_number sub) \<and> h_next handle = next_number (nm_sequence_number n)"
  proof (cases "sub_state sub \<in> {Closed, Creating}")
    case True
    with ok that [of None "sub_sequence_number sub" "sub_monitored_items sub"] show ?thesis
      by (simp add: sequence_ok_def)
  next
    case False
    from ok have "items_ok now (sub_monitored_items ?sub1)" "h_first (sub_sequence_number ?sub1) = 1" by (simp_all add: sequence_ok_def)
    from tick_monitored_items_ok [OF this, of asp elapsed "sub_resend_data ?sub1"] obtain notification items handle where
      "tick_monitored_items asp now elapsed (sub_resend_data ?sub1) ?sub1 =
         Inr (notification, ?sub1 \<lparr> sub_monitored_items := items, sub_sequence_number := handle \<rparr>)"
      "items_ok now items" "h_first handle = 1"
      "case notification of None \<Rightarrow> handle = sub_sequence_number ?sub1
       | Some n \<Rightarrow> nm_sequence_number n = h_next (sub_sequence_number ?sub1) \<and> h_next handle = next_number (nm_sequence_number n)"
      by blast
    with False show ?thesis by (intro that [of notification handle items]) (auto split: option.splits)
  qed
  have some: "sub_state sub \<notin> {Closed, Creating} \<and> sub_monitored_items sub \<noteq> []" if "notification \<noteq> None"
    using 2(1) that items_produce_notification by (cases "sub_state sub \<in> {Closed, Creating}") force+
  let ?sub3 = "sub \<lparr> sub_last_time_publishing_interval_elapsed := t, sub_monitored_items := items,
    sub_sequence_number := handle, sub_resend_data := False \<rparr>"
  have pending: "sequence_pending notification ?sub3"
    using ok(2) 2(3,4) by (cases notification) (auto simp: sequence_pending_def sequence_ok_def)
  have counters: "counters_ok ?sub3" using ok(1) by (simp add: counters_ok_def)
  let ?available = "sub_notifications sub \<noteq> [] \<or> notification \<noteq> None"
  let ?p = "\<lparr> p_notifications_available = ?available, p_more_notifications = length (sub_notifications sub) > 1,
    p_publishing_req_queued = queued, p_publishing_timer_expired = elapsed \<rparr>"
  from update_state_ok [OF counters, of reason ?p] 1(3) obtain h action sub4 where
    3: "update_state reason ?p ?sub3 = Inr (h, action, sub4)" "counters_ok sub4" by auto
  note frame = update_state_frame [OF 3(1), simplified]
  have pending4: "sequence_pending notification sub4"
    using pending frame by (cases notification) (auto simp: sequence_pending_def sequence_ok_def)
  show ?thesis
  proof (cases "notification \<noteq> None \<and> action = SubscriptionExpired")
    case True
    then have "Subscription_tick asp now reason queued sub = Inl Panic"
      using 1(1) 2(1) 3(1) by (auto simp: Subscription_tick_def bindR_def Let_def handle_state_result_def)
    with True frame some show ?thesis by auto
  next
    case False
    then have "notification \<noteq> None \<Longrightarrow> action \<notin> {SubscriptionCreated, SubscriptionExpired}"
      using frame some by auto
    from handle_state_result_ok [OF pending4 this] obtain sub5 where
      4: "handle_state_result now action notification sub4 = Inr sub5" "sequence_ok sub5" "queue_frame sub4 sub5" by auto
    have "sub_ok now sub5"
      using 4 3(2) frame ok(4) 1(2) 2(2) by (auto simp: sub_ok_def queue_frame_def items_ok_def)
    moreover have "sub_ok now ?sub3" if "notification = None"
      using pending counters ok(4) 1(2) 2(2) that by (auto simp: sub_ok_def sequence_pending_def)
    ultimately show ?thesis
      using 1(1) 2(1) 3(1) 4(1) by (auto simp: Subscription_tick_def bindR_def Let_def)
  qed
qed

subsection \<open>Managing items\<close>

lemma map_state_keeps:
  assumes "\<And>r s x s'. P s \<Longrightarrow> f r s = Inr (x, s') \<Longrightarrow> P s'"
  shows "P s \<Longrightarrow> map_state f rs s = Inr (xs, s') \<Longrightarrow> P s'"
proof (induction rs arbitrary: s xs)
  case (Cons r rs)
  then obtain x s1 ys where "f r s = Inr (x, s1)" "map_state f rs s1 = Inr (ys, s')"
    by (auto simp: bindR_eq_Inr mapR_eq_Inr)
  with Cons assms show ?case by blast
qed simp

lemma sub_ok_items: "sub_ok now sub \<Longrightarrow> items_ok now items \<Longrightarrow> sub_ok now (sub \<lparr> sub_monitored_items := items \<rparr>)"
  by (auto simp: sub_ok_def counters_ok_def sequence_ok_def)

lemma sub_ok_update_item:
  assumes "sub_ok now sub" "map_of (sub_monitored_items sub) i = Some item" "item_ok now item \<Longrightarrow> item_ok now item'"
  shows "sub_ok now (sub \<lparr> sub_monitored_items := AList.update i item' (sub_monitored_items sub) \<rparr>)"
proof -
  have items: "items_ok now (sub_monitored_items sub)" using assms(1) by (simp add: sub_ok_def)
  show ?thesis
    by (rule sub_ok_items [OF assms(1)]) (rule items_ok_update [OF items assms(3) [OF items_ok_lookup [OF items assms(2)]]])
qed

lemma sub_ok_next_item [simp]: "sub_ok now (sub \<lparr> sub_next_monitored_item_id := j \<rparr>) = sub_ok now sub"
  by (simp add: sub_ok_def counters_ok_def sequence_ok_def)

lemma sub_ok_reset: "sub_ok now sub \<Longrightarrow> sub_ok now (reset_lifetime_counter sub)"
  by (auto simp: sub_ok_def counters_ok_def sequence_ok_def reset_lifetime_counter_def word_gt_0_of_1)

lemma sub_ok_later: "sub_ok now sub \<Longrightarrow> now \<le> now' \<Longrightarrow> sub_ok now' sub"
  by (auto simp: sub_ok_def intro: items_ok_later)

lemma sanitize_queue_size_pos: "0 < st_max_monitored_item_queue_size st \<Longrightarrow> 0 < sanitize_queue_size st n"
  by (simp add: sanitize_queue_size_def)

lemma MonitoredItem_new_ok:
  "MonitoredItem_new asp now i ts st item_to_monitor mode params = Inr item \<Longrightarrow>
     0 < st_max_monitored_item_queue_size st \<Longrightarrow> item_ok now item"
  by (auto simp: MonitoredItem_new_def mapR_eq_Inr item_ok_def queue_ok_def sanitize_queue_size_pos)

lemma shrink_queue_same: "shrink_queue item = Inr item' \<Longrightarrow> item' = item \<and> length (mi_notification_queue item) \<le> mi_queue_size item"
  by (auto simp: shrink_queue_def sub_usize_def Let_def split: if_splits)

lemma shrink_queue_fault: "shrink_queue item = Inl e \<Longrightarrow> e = Panic"
  by (auto simp: shrink_queue_def sub_usize_def Let_def split: if_splits)

lemma MonitoredItem_modify_ok:
  assumes "MonitoredItem_modify asp st ts params item = (result, item')" "item_ok now item"
    and "0 < st_max_monitored_item_queue_size st" "result \<noteq> Inl Panic" "result \<noteq> Inl OutOfFuel"
    and "\<And>f. from_filter asp (st_decoding_options st) (mp_filter params) = Inl f \<Longrightarrow> result = Inl f"
  shows "item_ok now item'"
  using assms
  by (auto simp: MonitoredItem_modify_def Let_def item_ok_def queue_ok_def sanitize_queue_size_pos
      split: sum.splits dest!: shrink_queue_same dest: shrink_queue_fault)

lemma create_monitored_item_ok:
  assumes "sub_ok now sub" "0 < st_max_monitored_item_queue_size st"
    and "create_monitored_item asp st now ts request sub = Inr (x, sub')"
  shows "sub_ok now sub'"
proof -
  have "items_ok now (sub_monitored_items sub)" using assms(1) by (simp add: sub_ok_def)
  with assms show ?thesis
    by (auto simp: create_monitored_item_def Let_def mapR_eq_Inr split: prod.splits if_splits sum.splits fault.splits
        intro!: sub_ok_items items_ok_update dest!: MonitoredItem_new_ok)
qed

lemma modify_monitored_item_ok:
  assumes "sub_ok now sub" "0 < st_max_monitored_item_queue_size st"
    and "modify_monitored_item asp st ts request sub = Inr (x, sub')"
  shows "sub_ok now sub'"
proof -
  obtain i params where request: "request = (i, params)" by fastforce
  show ?thesis
  proof (cases "map_of (sub_monitored_items sub) i")
    case None
    with assms request show ?thesis by (simp add: modify_monitored_item_def)
  next
    case (Some item)
    obtain result item' where m: "MonitoredItem_modify asp st ts params item = (result, item')" by (meson surj_pair)
    have items: "items_ok now (sub_monitored_items sub)" using assms(1) by (simp add: sub_ok_def)
    have sub': "sub' = sub \<lparr> sub_monitored_items := AList.update i item' (sub_monitored_items sub) \<rparr>"
      and "result \<noteq> Inl Panic" "result \<noteq> Inl OutOfFuel"
      using assms(3) Some m request by (auto simp: modify_monitored_item_def Let_def split: sum.splits fault.splits)
    moreover have "result = Inl f" if "from_filter asp (st_decoding_options st) (mp_filter params) = Inl f" for f
      using m that by (simp add: MonitoredItem_modify_def Let_def)
    ultimately have "item_ok now item'"
      using MonitoredItem_modify_ok [OF m items_ok_lookup [OF items Some] assms(2)] by blast
    with sub' assms(1) items show ?thesis by (simp add: sub_ok_items items_ok_update)
  qed
qed

lemma items_ok_delete: "items_ok now items \<Longrightarrow> items_ok now (AList.delete i items)"
  by (auto simp: items_ok_def list_all_iff AList.delete_eq)

lemma set_monitoring_mode_ok: "sub_ok now sub \<Longrightarrow> sub_ok now (snd (set_monitoring_mode i mode sub))"
  by (auto simp: set_monitoring_mode_def item_ok_def queue_ok_def split: option.split intro: sub_ok_update_item)

lemma delete_monitored_item_ok: "sub_ok now sub \<Longrightarrow> delete_monitored_item i sub = Inr (x, sub') \<Longrightarrow> sub_ok now sub'"
  by (auto simp: delete_monitored_item_def sub_ok_def counters_ok_def sequence_ok_def items_ok_delete split: if_splits)

lemma set_triggering_ok: "sub_ok now sub \<Longrightarrow> sub_ok now (snd (set_triggering i adds removes sub))"
  by (auto simp: set_triggering_def item_ok_def queue_ok_def item_set_triggering_def split: option.split prod.split
      intro: sub_ok_update_item)

lemma take_notification_ok: "sub_ok now sub \<Longrightarrow> sub_ok now (snd (take_notification sub))"
  by (cases "sub_notifications sub")
    (auto simp: take_notification_def sub_ok_def counters_ok_def sequence_ok_def successively_Cons)

section \<open>Every state a subscription can reach\<close>

text \<open>The server revises the requested values so that the lifetime exceeds one, the keep-alive count is not
  zero and the interval is positive. The clock does not run backwards. The address space, the
  publish requests and the server's limits may change at every step.\<close>

inductive subscription_reachable :: "int \<Rightarrow> 'f Subscription \<Rightarrow> bool" where
  created: "1 < lifetime \<Longrightarrow> 0 < keep_alive_count \<Longrightarrow> \<not> f_le (f64_val interval) (Finite 0) \<Longrightarrow>
    subscription_reachable now (Subscription_new now sub_id enabled interval lifetime keep_alive_count priority)"
| ticked: "subscription_reachable t sub \<Longrightarrow> t \<le> now \<Longrightarrow> Subscription_tick asp now reason queued sub = Inr sub' \<Longrightarrow>
    subscription_reachable now sub'"
| taken: "subscription_reachable t sub \<Longrightarrow> subscription_reachable t (snd (take_notification sub))"
| items_created: "subscription_reachable t sub \<Longrightarrow> t \<le> now \<Longrightarrow> 0 < st_max_monitored_item_queue_size st \<Longrightarrow>
    create_monitored_items asp st now timestamps requests sub = Inr (results, sub') \<Longrightarrow> subscription_reachable now sub'"
| items_modified: "subscription_reachable t sub \<Longrightarrow> 0 < st_max_monitored_item_queue_size st \<Longrightarrow>
    modify_monitored_items asp st timestamps modifications sub = Inr (results, sub') \<Longrightarrow> subscription_reachable t sub'"
| items_deleted: "subscription_reachable t sub \<Longrightarrow> delete_monitored_items ids sub = Inr (codes, sub') \<Longrightarrow>
    subscription_reachable t sub'"
| mode_set: "subscription_reachable t sub \<Longrightarrow> subscription_reachable t (snd (set_monitoring_mode i mode sub))"
| triggering_set: "subscription_reachable t sub \<Longrightarrow> subscription_reachable t (snd (set_triggering i adds removes sub))"
| resend: "subscription_reachable t sub \<Longrightarrow> subscription_reachable t (set_resend_data sub)"

lemma subscription_reachable_ok: "subscription_reachable now sub \<Longrightarrow> sub_ok now sub"
proof (induction rule: subscription_reachable.induct)
  case (created lifetime keep_alive_count interval now sub_id enabled priority)
  then show ?case
    by (simp add: sub_ok_def Subscription_new_def counters_ok_def sequence_ok_def items_ok_def Handle_new_def next_number_def
        word_gt_0_of_1)
next
  case (ticked t sub now asp reason queued sub')
  then show ?case using Subscription_tick_ok [of t sub now asp reason queued] by auto
next
  case (taken t sub)
  then show ?case by (simp add: take_notification_ok)
next
  case (items_created t sub now st asp timestamps requests results sub')
  have ok: "sub_ok now (reset_lifetime_counter sub)" using items_created by (auto intro: sub_ok_reset sub_ok_later)
  show ?case
    by (rule map_state_keeps [of "sub_ok now", OF _ ok items_created(4) [unfolded create_monitored_items_def]])
      (rule create_monitored_item_ok [OF _ items_created(3)])
next
  case (items_modified t sub st asp timestamps modifications results sub')
  have ok: "sub_ok t (reset_lifetime_counter sub)" using items_modified by (simp add: sub_ok_reset)
  show ?case
    by (rule map_state_keeps [of "sub_ok t", OF _ ok items_modified(3) [unfolded modify_monitored_items_def]])
      (rule modify_monitored_item_ok [OF _ items_modified(2)])
next
  case (items_deleted t sub ids codes sub')
  have ok: "sub_ok t (reset_lifetime_counter sub)" using items_deleted by (simp add: sub_ok_reset)
  show ?case
    by (rule map_state_keeps [of "sub_ok t", OF _ ok items_deleted(2) [unfolded delete_monitored_items_def]])
      (rule delete_monitored_item_ok)
next
  case (resend t sub)
  then show ?case by (auto simp: set_resend_data_def sub_ok_def counters_ok_def sequence_ok_def)
qed (simp_all add: set_monitoring_mode_ok set_triggering_ok)

lemma sample_interval: "f64_val 0x4059000000000000 = Finite 100" "duration_from_ms 0x4059000000000000 = 100000000"
proof -
  show v: "f64_val 0x4059000000000000 = Finite 100" by (simp add: f64_val_def Let_def f_sign_def)
  show "duration_from_ms 0x4059000000000000 = 100000000"
    using f64_round_int [of 100000] by (simp add: duration_from_ms_def v f_scale_def f_as_u64_def)
qed

definition sample_subscription :: "unit Subscription" where
  "sample_subscription = Subscription_new 0 1 True 0x4059000000000000 30 10 0"

lemma sample_subscription_reachable: "subscription_reachable 0 sample_subscription"
  unfolding sample_subscription_def by (rule subscription_reachable.created) (simp_all add: sample_interval f_le_def)





end
