(* ===== verification/Opc_Publishing_Cases.thy ===== *)
theory Opc_Publishing_Cases
  imports Opc_Publishing
begin

text \<open>
  What the state machine of a subscription does over sequences of ticks: it expires when no publish
  request comes, it withholds keep-alives, it drops notifications for which no publish request is
  queued, and it panics when data changes in the tick in which it expires.
\<close>

section \<open>Ticks while nothing is monitored\<close>

lemma tick_no_items:
  assumes "sub_monitored_items sub = []" "sub_state sub \<in> {Normal, Late, KeepAlive}"
    and "interval_elapsed now reason sub = Inr (elapsed, sub1)" "sub_state sub1 = sub_state sub" "sub_monitored_items sub1 = []"
  shows "Subscription_tick asp now reason queued sub =
    (let sub3 = sub1 \<lparr> sub_resend_data := False \<rparr>; available = (sub_notifications sub1 \<noteq> []) in
     if available \<or> elapsed \<or> queued then
       bindR (update_state reason \<lparr> p_notifications_available = available,
           p_more_notifications = (length (sub_notifications sub1) > 1), p_publishing_req_queued = queued,
           p_publishing_timer_expired = elapsed \<rparr> sub3) (\<lambda>(_, action, sub4). handle_state_result now action None sub4)
     else Inr sub3)"
proof -
  have "sub1 \<lparr> sub_monitored_items := [] \<rparr> = sub1" using assms(5) by simp
  then have "tick_monitored_items asp now elapsed r sub1 = Inr (None, sub1)" for r
    using assms(5) by (simp add: tick_monitored_items_def bindR_def Let_def)
  with assms show ?thesis by (auto simp: Subscription_tick_def bindR_def Let_def)
qed

lemma timer_elapsed:
  assumes "sub_state sub \<noteq> Creating" "\<not> f_le (f64_val (sub_publishing_interval sub)) (Finite 0)"
    and "sub_last_time_publishing_interval_elapsed sub \<le> now"
  shows "interval_elapsed now TickTimerFired sub =
    (if duration_from_ms (sub_publishing_interval sub) \<le> now - sub_last_time_publishing_interval_elapsed sub
     then Inr (True, sub \<lparr> sub_last_time_publishing_interval_elapsed := now \<rparr>) else Inr (False, sub))"
  using assms by (simp add: interval_elapsed_def test_and_set_publishing_interval_elapsed_def elapsed_since_def mapR_def bindR_def)

fun run_ticks :: "'f address_space \<Rightarrow> bool \<Rightarrow> (int \<times> TickReason) list \<Rightarrow> 'f Subscription \<Rightarrow> 'f Subscription res" where
  "run_ticks asp queued [] sub = Inr sub"
| "run_ticks asp queued ((now, reason) # events) sub =
     bindR (Subscription_tick asp now reason queued sub) (run_ticks asp queued events)"

section \<open>Expiry\<close>

definition alive :: "'f Subscription \<Rightarrow> bool" where
  "alive sub \<longleftrightarrow> sub_state sub \<in> {Normal, Late, KeepAlive} \<and> sub_monitored_items sub = [] \<and> counters_ok sub \<and> sequence_ok sub \<and>
     \<not> f_le (f64_val (sub_publishing_interval sub)) (Finite 0)"

fun spaced :: "int \<Rightarrow> int \<Rightarrow> int list \<Rightarrow> bool" where
  "spaced interval t [] \<longleftrightarrow> True"
| "spaced interval t (now # ticks) \<longleftrightarrow> interval \<le> now - t \<and> spaced interval now ticks"

lemma duration_from_ms_nonneg: "0 \<le> duration_from_ms d"
  by (simp add: duration_from_ms_def)

lemma unqueued_timer_step:
  assumes "sub_state sub \<in> {Normal, Late, KeepAlive}" "counters_ok sub" "sub_lifetime_counter sub \<noteq> 1"
    and "p_publishing_timer_expired p" "\<not> p_publishing_req_queued p"
  shows "\<exists>h sub'. update_state TickTimerFired p sub = Inr (h, NoAction, sub') \<and>
    sub_state sub' \<in> {Normal, Late, KeepAlive} \<and> sub_lifetime_counter sub' = sub_lifetime_counter sub - 1 \<and> counters_ok sub'"
proof -
  have "1 < sub_lifetime_counter sub" using assms(2,3) by (auto simp: counters_ok_def intro: word_gt_1)
  moreover have "sub_keep_alive_counter sub = 1 \<or> 1 < sub_keep_alive_counter sub"
    using assms(2) by (auto simp: counters_ok_def intro: word_gt_1)
  ultimately show ?thesis
    using assms by (auto simp: update_state_def update_defs counters_ok_def word_pred_pos)
qed

lemma quiet_timer_tick:
  assumes "alive sub" "sub_lifetime_counter sub \<noteq> 1"
    and "duration_from_ms (sub_publishing_interval sub) \<le> now - sub_last_time_publishing_interval_elapsed sub"
  shows "\<exists>sub'. Subscription_tick asp now TickTimerFired False sub = Inr sub' \<and> alive sub' \<and>
    sub_lifetime_counter sub' = sub_lifetime_counter sub - 1 \<and> sub_publishing_interval sub' = sub_publishing_interval sub \<and>
    sub_last_time_publishing_interval_elapsed sub' = now"
proof -
  let ?sub1 = "sub \<lparr> sub_last_time_publishing_interval_elapsed := now \<rparr>"
  let ?p = "\<lparr> p_notifications_available = (sub_notifications ?sub1 \<noteq> []),
    p_more_notifications = (length (sub_notifications ?sub1) > 1), p_publishing_req_queued = False, p_publishing_timer_expired = True \<rparr>"
  let ?sub3 = "?sub1 \<lparr> sub_resend_data := False \<rparr>"
  have el: "interval_elapsed now TickTimerFired sub = Inr (True, ?sub1)"
    using assms duration_from_ms_nonneg [of "sub_publishing_interval sub"]
    by (subst timer_elapsed) (auto simp: alive_def)
  have "sub_state ?sub3 \<in> {Normal, Late, KeepAlive}" "counters_ok ?sub3" "sub_lifetime_counter ?sub3 \<noteq> 1"
    using assms(1,2) by (simp_all add: alive_def counters_ok_def)
  from unqueued_timer_step [OF this, of ?p] obtain h sub4 where
    sub4: "update_state TickTimerFired ?p ?sub3 = Inr (h, NoAction, sub4)" "sub_state sub4 \<in> {Normal, Late, KeepAlive}"
      "sub_lifetime_counter sub4 = sub_lifetime_counter sub - 1" "counters_ok sub4" by auto
  have "Subscription_tick asp now TickTimerFired False sub = Inr sub4"
    using assms(1) sub4(1)
    by (subst tick_no_items [OF _ _ el]) (simp_all add: alive_def bindR_def Let_def handle_state_result_def discard_notification_def)
  moreover note update_state_frame [OF sub4(1)]
  ultimately show ?thesis using assms(1) sub4 by (auto simp: alive_def sequence_ok_def)
qed

lemma expiring_timer_tick:
  assumes "alive sub" "sub_lifetime_counter sub = 1"
    and "duration_from_ms (sub_publishing_interval sub) \<le> now - sub_last_time_publishing_interval_elapsed sub"
  shows "\<exists>sub' number. Subscription_tick asp now TickTimerFired False sub = Inr sub' \<and> sub_state sub' = Closed \<and>
    sub_notifications sub' = sub_notifications sub @ [status_change number (DateTime_from_utc now) BadTimeout]"
proof -
  let ?sub1 = "sub \<lparr> sub_last_time_publishing_interval_elapsed := now \<rparr>"
  have el: "interval_elapsed now TickTimerFired sub = Inr (True, ?sub1)"
    using assms duration_from_ms_nonneg [of "sub_publishing_interval sub"]
    by (subst timer_elapsed) (auto simp: alive_def)
  have seq: "h_first (sub_sequence_number sub) = 1"
    "h_next (sub_sequence_number sub) = (if sub_last_sequence_number sub = - 1 then 1 else sub_last_sequence_number sub + 1)"
    using assms(1) by (simp_all add: alive_def sequence_ok_def next_number_def)
  show ?thesis
    using assms(1,2) seq
    by (subst tick_no_items [OF _ _ el]) (auto simp: alive_def bindR_def Let_def update_state_def handle_state_result_def
        Handle_next_number enqueue_notification_def status_change_def)
qed


definition sample_alive :: "SubscriptionState \<Rightarrow> u32 \<Rightarrow> unit Subscription" where
  "sample_alive state lifetime =
     sample_subscription \<lparr> sub_state := state, sub_lifetime_counter := lifetime, sub_keep_alive_counter := 1,
       sub_first_message_sent := True \<rparr>"

lemma sample_alive_ok: "state \<in> {Normal, Late, KeepAlive} \<Longrightarrow> 0 < lifetime \<Longrightarrow> alive (sample_alive state lifetime)"
  by (auto simp: alive_def sample_alive_def sample_subscription_def Subscription_new_def counters_ok_def sequence_ok_def
      Handle_new_def next_number_def sample_interval f_le_def)


section \<open>Keep-alives\<close>

lemma starved_tick:
  assumes "alive sub" "sub_state sub = KeepAlive" "sub_publishing_enabled sub" "sub_keep_alive_counter sub = 1"
    "sub_lifetime_counter sub \<noteq> 1" "sub_notifications sub = []" "sub_last_time_publishing_interval_elapsed sub \<le> now"
  shows "\<exists>t. Subscription_tick asp now reason True sub =
      Inr (sub \<lparr> sub_last_time_publishing_interval_elapsed := t, sub_resend_data := False \<rparr>) \<and> t \<le> now"
proof -
  from interval_elapsed_ok [OF assms(7), of reason] assms(1) obtain elapsed t where
    el: "interval_elapsed now reason sub = Inr (elapsed, sub \<lparr> sub_last_time_publishing_interval_elapsed := t \<rparr>)"
      "t \<le> now" "reason = ReceivePublishRequest \<longrightarrow> \<not> elapsed" by (auto simp: alive_def)
  have "Subscription_tick asp now reason True sub =
      Inr (sub \<lparr> sub_last_time_publishing_interval_elapsed := t, sub_resend_data := False \<rparr>)"
    using assms el(3)
    by (subst tick_no_items [OF _ _ el(1)]) (auto simp: alive_def bindR_def Let_def update_state_def update_keep_alive_def
        handle_state_result_def discard_notification_def)
  with el(2) show ?thesis by blast
qed



section \<open>Changes without a publish request\<close>

lemma tick_with_change:
  assumes "sub_state sub \<in> {Normal, Late, KeepAlive}" "interval_elapsed now TickTimerFired sub = Inr (True, sub1)"
    and "tick_monitored_items asp now True (sub_resend_data sub1) sub1 = Inr (Some n, sub2)" "sub_state sub1 = sub_state sub"
  shows "Subscription_tick asp now TickTimerFired queued sub =
    bindR (update_state TickTimerFired \<lparr> p_notifications_available = True,
        p_more_notifications = (length (sub_notifications sub2) > 1), p_publishing_req_queued = queued,
        p_publishing_timer_expired = True \<rparr> (sub2 \<lparr> sub_resend_data := False \<rparr>))
      (\<lambda>(_, action, sub4). handle_state_result now action (Some n) sub4)"
  using assms by (auto simp: Subscription_tick_def bindR_def Let_def)

lemma interval_elapsed_keeps:
  "interval_elapsed now reason sub = Inr (elapsed, sub1) \<Longrightarrow>
     \<exists>t. sub1 = sub \<lparr> sub_last_time_publishing_interval_elapsed := t \<rparr>"
  by (auto simp: interval_elapsed_def test_and_set_publishing_interval_elapsed_def mapR_eq_Inr
      split: TickReason.splits if_splits intro: exI [of _ "sub_last_time_publishing_interval_elapsed sub"])

lemma tick_monitored_items_keeps:
  assumes "tick_monitored_items asp now elapsed resend sub = Inr (notification, sub')"
  shows "\<exists>items handle. sub' = sub \<lparr> sub_monitored_items := items, sub_sequence_number := handle \<rparr>"
proof -
  obtain items where "sub' = sub \<lparr> sub_monitored_items := items \<rparr> \<or>
      (\<exists>handle. sub' = sub \<lparr> sub_monitored_items := items, sub_sequence_number := handle \<rparr>)"
    using assms by (auto simp: tick_monitored_items_def bindR_eq_Inr mapR_eq_Inr Let_def split: prod.splits if_splits)
  then show ?thesis
    by (elim disjE exE) (rule exI [of _ items], rule exI [of _ "sub_sequence_number sub"], simp, blast)
qed


definition sample_value :: DataValue where
  "sample_value = DataValue (Some (VBoolean True)) None None None None None"

definition sample_monitored :: "u32 \<Rightarrow> unit Subscription" where
  "sample_monitored lifetime = (sample_alive Late lifetime) \<lparr> sub_monitored_items := [(1, sample_item True 2)] \<rparr>"

lemma sample_monitored_elapsed:
  "interval_elapsed 100000000 TickTimerFired (sample_monitored lifetime) =
     Inr (True, (sample_monitored lifetime) \<lparr> sub_last_time_publishing_interval_elapsed := 100000000 \<rparr>)"
  by (subst timer_elapsed) (simp_all add: sample_monitored_def sample_alive_def sample_subscription_def Subscription_new_def
      sample_interval f_le_def)

lemma zero_interval: "f_eq (f64_val 0) (Finite 0)" "\<not> f_lt (f64_val 0) (Finite 0)"
  by (simp_all add: f64_val_def Let_def f_lt_def f_eq_def)

lemma sample_item_tick:
  "MonitoredItem_tick (sample_space (\<lambda>_ _. Some sample_value)) now True resend (sample_item True 2) =
     Inr (ReportValueChanged, (sample_item True 2) \<lparr> mi_last_data_value := Some sample_value, mi_last_sample_time := now,
       mi_notification_queue := [NMonitoredItem \<lparr> min_client_handle = 1, min_value = sample_value \<rparr>] \<rparr>)"
  by (simp add: MonitoredItem_tick_def sample_due_def check_value_def check_for_data_change_def data_changed_def sample_item_def
      sample_space_def sample_value_def AttributeId_from_u32_def enqueue_notification_message_def bindR_def Let_def zero_interval)

lemma sample_monitored_change:
  "tick_monitored_items (sample_space (\<lambda>_ _. Some sample_value)) 100000000 True resend
     ((sample_monitored lifetime) \<lparr> sub_last_time_publishing_interval_elapsed := 100000000 \<rparr>) =
   Inr (Some \<lparr> nm_sequence_number = 1, nm_publish_time = DateTime_from_utc 100000000,
       nm_notification_data = Some [NdDataChange [\<lparr> min_client_handle = 1, min_value = sample_value \<rparr>]] \<rparr>,
     (sample_monitored lifetime) \<lparr> sub_last_time_publishing_interval_elapsed := 100000000,
       sub_monitored_items := [(1, (sample_item True 2) \<lparr> mi_last_data_value := Some sample_value,
         mi_last_sample_time := 100000000 \<rparr>)], sub_sequence_number := \<lparr> h_next = 2, h_first = 1 \<rparr> \<rparr>)"
proof -
  have mode: "mi_monitoring_mode (sample_item True 2) = Reporting" "mi_triggered_items (sample_item True 2) = {}"
    "mi_notification_queue (sample_item True 2) = []" "mi_queue_overflow (sample_item True 2) = False"
    by (simp_all add: sample_item_def)
  have items: "tick_items (sample_space (\<lambda>_ _. Some sample_value)) 100000000 True resend [(1, sample_item True 2)] =
      Inr ([(1, (sample_item True 2) \<lparr> mi_last_data_value := Some sample_value, mi_last_sample_time := 100000000 \<rparr>)], {},
        [NMonitoredItem \<lparr> min_client_handle = 1, min_value = sample_value \<rparr>])"
    by (simp add: sample_item_tick mode all_notifications_def bindR_def mapR_def)
  have handle: "sub_sequence_number (sample_monitored lifetime) = \<lparr> h_next = 1, h_first = 1 \<rparr>"
    by (simp add: sample_monitored_def sample_alive_def sample_subscription_def Subscription_new_def Handle_new_def)
  have monitored: "sub_monitored_items (sample_monitored lifetime) = [(1, sample_item True 2)]" by (simp add: sample_monitored_def)
  show ?thesis
    unfolding tick_monitored_items_def
    by (simp add: items handle monitored bindR_def mapR_def Let_def Handle_next_def data_changes_of_def events_of_def
        map_filter_simps data_change_def del: tick_items.simps)
qed

lemma sample_monitored_state:
  "sub_state (sample_monitored lifetime) = Late" "sub_lifetime_counter (sample_monitored lifetime) = lifetime"
  "sub_resend_data (sample_monitored lifetime) = False" "sub_notifications (sample_monitored lifetime) = []"
  "0 < lifetime \<Longrightarrow> counters_ok (sample_monitored lifetime)"
  by (simp_all add: sample_monitored_def sample_alive_def sample_subscription_def Subscription_new_def counters_ok_def)


text \<open>The tick that finds the lifetime of a subscription exhausted panics if a monitored item reports a
  change in the same tick.\<close>

theorem expiring_with_change_panics:
  assumes "sub_state sub \<in> {Normal, Late, KeepAlive}" "sub_lifetime_counter sub = 1"
    and "interval_elapsed now TickTimerFired sub = Inr (True, sub1)"
    and "tick_monitored_items asp now True (sub_resend_data sub1) sub1 = Inr (Some n, sub2)"
  shows "Subscription_tick asp now TickTimerFired queued sub = Inl Panic"
proof -
  obtain t where sub1: "sub1 = sub \<lparr> sub_last_time_publishing_interval_elapsed := t \<rparr>"
    using interval_elapsed_keeps [OF assms(3)] ..
  obtain items handle where sub2: "sub2 = sub1 \<lparr> sub_monitored_items := items, sub_sequence_number := handle \<rparr>"
    using tick_monitored_items_keeps [OF assms(4)] by blast
  show ?thesis
    using assms(1,2) tick_with_change [OF assms(1,3,4), of queued]
    by (auto simp: sub1 sub2 update_state_def bindR_def handle_state_result_def)
qed

theorem expiring_with_change_panics_witness:
  "Subscription_tick (sample_space (\<lambda>_ _. Some sample_value)) 100000000 TickTimerFired False (sample_monitored 1) = Inl Panic"
  by (rule expiring_with_change_panics [OF _ _ sample_monitored_elapsed sample_monitored_change])
    (simp_all add: sample_monitored_state)

end
