(* ===== verification/Opc_Subscriptions.thy ===== *)
theory Opc_Subscriptions
  imports Opc_Subscription "HOL-Library.Product_Lexorder"
begin

text \<open>
  The subscriptions of a session (\<open>server/subscriptions/subscriptions.rs\<close>) and the subscription
  service (\<open>server/services/subscription.rs\<close>): publish requests wait in a queue, ticks of the
  subscriptions turn them into publish responses, and notifications that were sent are kept until
  they are acknowledged or purged. A \<open>BTreeMap\<close> is the list of its entries by increasing key, a
  \<open>VecDeque\<close> the list of its elements from front to back. The times of responses that the source
  reads off the clock are arguments named \<open>clock\<close>.
\<close>

section \<open>Ordered maps\<close>

fun btree_insert :: "'k :: linorder \<Rightarrow> 'v \<Rightarrow> ('k \<times> 'v) list \<Rightarrow> ('k \<times> 'v) list" where
  "btree_insert k v [] = [(k, v)]"
| "btree_insert k v ((k', v') # m) =
     (if k < k' then (k, v) # (k', v') # m
      else if k = k' then (k, v) # m
      else (k', v') # btree_insert k v m)"

definition btree_remove :: "'k \<Rightarrow> ('k \<times> 'v) list \<Rightarrow> ('k \<times> 'v) list" where
  "btree_remove k m = filter (\<lambda>e. fst e \<noteq> k) m"

section \<open>The state\<close>

record PublishRequestEntry =
  pre_request_id :: u32
  pre_request :: PublishRequest
  pre_results :: "StatusCode list option"

record PublishResponse =
  pr_response_header :: ResponseHeader
  pr_subscription_id :: u32
  pr_available_sequence_numbers :: "u32 list option"
  pr_more_notifications :: bool
  pr_notification_message :: NotificationMessage
  pr_results :: "StatusCode list option"
  pr_diagnostic_infos :: "DiagnosticInfo list option"

record CreateSubscriptionResponse =
  cr_response_header :: ResponseHeader
  cr_subscription_id :: u32
  cr_revised_publishing_interval :: "64 word"
  cr_revised_lifetime_count :: u32
  cr_revised_max_keep_alive_count :: u32

record ModifySubscriptionResponse =
  mo_response_header :: ResponseHeader
  mo_revised_publishing_interval :: "64 word"
  mo_revised_lifetime_count :: u32
  mo_revised_max_keep_alive_count :: u32

record SetPublishingModeResponse =
  sp_response_header :: ResponseHeader
  sp_results :: "StatusCode list option"
  sp_diagnostic_infos :: "DiagnosticInfo list option"

record DeleteSubscriptionsResponse =
  ds_response_header :: ResponseHeader
  ds_results :: "StatusCode list option"
  ds_diagnostic_infos :: "DiagnosticInfo list option"

record RepublishResponse =
  rp_response_header :: ResponseHeader
  rp_notification_message :: NotificationMessage

text \<open>The responses of the service, the service messages of its \<open>SupportedMessage\<close>.\<close>

datatype subscription_response =
    CreateSubscription CreateSubscriptionResponse
  | ModifySubscription ModifySubscriptionResponse
  | SetPublishingMode SetPublishingModeResponse
  | DeleteSubscriptions DeleteSubscriptionsResponse
  | Publish PublishResponse
  | Republish RepublishResponse

record PublishResponseEntry =
  pse_request_id :: u32
  pse_response :: "subscription_response SupportedMessage"

record 'f Subscriptions =
  ss_publish_request_queue :: "PublishRequestEntry list"
  ss_publish_response_queue :: "PublishResponseEntry list"
  ss_publish_request_timeout :: "64 word"
  ss_subscriptions :: "(u32 \<times> 'f Subscription) list"
  ss_transmission_queue :: "(u32 \<times> PublishRequestEntry \<times> NotificationMessage) list"
  ss_retransmission_queue :: "((u32 \<times> u32) \<times> NotificationMessage) list"

definition Subscriptions_new :: "64 word \<Rightarrow> 'f Subscriptions" where
  "Subscriptions_new publish_request_timeout =
     \<lparr> ss_publish_request_queue = [], ss_publish_response_queue = [],
       ss_publish_request_timeout = publish_request_timeout, ss_subscriptions = [],
       ss_transmission_queue = [], ss_retransmission_queue = [] \<rparr>"

definition take_publish_responses :: "'f Subscriptions \<Rightarrow> PublishResponseEntry list option \<times> 'f Subscriptions" where
  "take_publish_responses ss =
     (if ss_publish_response_queue ss = [] then (None, ss)
      else (Some (ss_publish_response_queue ss), ss \<lparr> ss_publish_response_queue := [] \<rparr>))"

definition max_publish_requests :: "'f Subscriptions \<Rightarrow> nat" where
  "max_publish_requests ss = length (ss_subscriptions ss) * 2"

definition ServiceFault_new :: "DateTime \<Rightarrow> RequestHeader \<Rightarrow> StatusCode \<Rightarrow> 'm SupportedMessage" where
  "ServiceFault_new clock request_header service_result =
     SmServiceFault \<lparr> sf_response_header = new_timestamped_service_result clock request_header service_result \<rparr>"

section \<open>Ticking the subscriptions\<close>

text \<open>The order in which the subscriptions are ticked; the sort is stable.\<close>

definition subscription_ids_by_priority :: "'f Subscriptions \<Rightarrow> u32 list" where
  "subscription_ids_by_priority ss =
     map fst (sort_key snd (map (\<lambda>(_, sub). (sub_subscription_id sub, sub_priority sub)) (ss_subscriptions ss)))"

text \<open>Each notification of a subscription takes the oldest publish request, at the back of the queue.\<close>

function process_notifications ::
  "u32 \<Rightarrow> 'f Subscription \<Rightarrow> PublishRequestEntry list \<Rightarrow> (u32 \<times> PublishRequestEntry \<times> NotificationMessage) list
    \<Rightarrow> 'f Subscription \<times> PublishRequestEntry list \<times> (u32 \<times> PublishRequestEntry \<times> NotificationMessage) list" where
  "process_notifications i sub requests transmissions =
     (if requests = [] then (sub, requests, transmissions)
      else case take_notification sub of
             (None, sub') \<Rightarrow> (sub', requests, transmissions)
           | (Some n, sub') \<Rightarrow>
               process_notifications i sub' (butlast requests) ((i, last requests, n) # transmissions))"
  by pat_completeness auto
termination by (relation "measure (\<lambda>(_, _, requests, _). length requests)") auto

definition tick_subscription ::
  "'f address_space \<Rightarrow> int \<Rightarrow> TickReason \<Rightarrow> u32 \<Rightarrow> 'f Subscriptions \<Rightarrow> 'f Subscriptions res" where
  "tick_subscription asp now reason i ss =
     (case map_of (ss_subscriptions ss) i of
        None \<Rightarrow> Inl Panic
      | Some sub \<Rightarrow>
          bindR (Subscription_tick asp now reason (ss_publish_request_queue ss \<noteq> []) sub) (\<lambda>sub1.
            let (sub2, requests, transmissions) =
                  process_notifications i sub1 (ss_publish_request_queue ss) (ss_transmission_queue ss)
            in Inr (ss \<lparr> ss_publish_request_queue := requests, ss_transmission_queue := transmissions,
                 ss_subscriptions := (if ready_to_remove sub2 then btree_remove i (ss_subscriptions ss)
                   else btree_insert i sub2 (ss_subscriptions ss)) \<rparr>)))"

fun tick_subscriptions ::
  "'f address_space \<Rightarrow> int \<Rightarrow> TickReason \<Rightarrow> u32 list \<Rightarrow> 'f Subscriptions \<Rightarrow> 'f Subscriptions res" where
  "tick_subscriptions asp now reason [] ss = Inr ss"
| "tick_subscriptions asp now reason (i # ids) ss =
     bindR (tick_subscription asp now reason i ss) (tick_subscriptions asp now reason ids)"

section \<open>Publish responses\<close>

definition more_notifications :: "u32 \<Rightarrow> 'f Subscriptions \<Rightarrow> bool" where
  "more_notifications i ss \<longleftrightarrow> list_ex (\<lambda>t. fst t = i) (ss_transmission_queue ss)"

definition available_sequence_numbers :: "u32 \<Rightarrow> 'f Subscriptions \<Rightarrow> u32 list option" where
  "available_sequence_numbers i ss =
     (if ss_retransmission_queue ss = [] then None
      else let numbers = map (snd \<circ> fst) (filter (\<lambda>(k, _). fst k = i) (ss_retransmission_queue ss))
           in if numbers = [] then None else Some numbers)"

definition make_publish_response ::
  "PublishRequestEntry \<Rightarrow> u32 \<Rightarrow> int \<Rightarrow> NotificationMessage \<Rightarrow> bool \<Rightarrow> u32 list option \<Rightarrow> PublishResponseEntry" where
  "make_publish_response entry i now notification has_more available =
     \<lparr> pse_request_id = pre_request_id entry,
       pse_response = SmService (Publish
         \<lparr> pr_response_header =
             new_timestamped_service_result (DateTime_from_utc now) (pq_request_header (pre_request entry)) Good,
           pr_subscription_id = i, pr_available_sequence_numbers = available, pr_more_notifications = has_more,
           pr_notification_message = notification, pr_results = pre_results entry, pr_diagnostic_infos = None \<rparr>) \<rparr>"

function make_publish_responses :: "int \<Rightarrow> 'f Subscriptions \<Rightarrow> 'f Subscriptions" where
  "make_publish_responses now ss =
     (if ss_transmission_queue ss = [] then ss
      else case last (ss_transmission_queue ss) of
             (i, entry, n) \<Rightarrow>
               let ss1 = ss \<lparr> ss_transmission_queue := butlast (ss_transmission_queue ss) \<rparr>;
                   has_more = more_notifications i ss1;
                   available = available_sequence_numbers i ss1;
                   ss2 = ss1 \<lparr> ss_retransmission_queue :=
                     btree_insert (i, nm_sequence_number n) n (ss_retransmission_queue ss1) \<rparr>
               in make_publish_responses now (ss2 \<lparr> ss_publish_response_queue :=
                    ss_publish_response_queue ss2 @ [make_publish_response entry i now n has_more available] \<rparr>))"
  by pat_completeness auto
termination by (relation "measure (\<lambda>(_, ss). length (ss_transmission_queue ss))") (auto simp: Let_def)

definition remove_notifications :: "(u32 \<times> u32) list \<Rightarrow> 'f Subscriptions \<Rightarrow> 'f Subscriptions" where
  "remove_notifications keys ss =
     ss \<lparr> ss_retransmission_queue := fold btree_remove keys (ss_retransmission_queue ss) \<rparr>"

definition remove_old_unacknowledged_notifications :: "'f Subscriptions \<Rightarrow> 'f Subscriptions" where
  "remove_old_unacknowledged_notifications ss =
     (let keys = filter (\<lambda>k. map_of (ss_subscriptions ss) (fst k) = None) (map fst (ss_retransmission_queue ss));
          ss1 = remove_notifications keys ss;
          max_retransmission_queue = max_publish_requests ss1 * 2
      in if length (ss_retransmission_queue ss1) > max_retransmission_queue then
           let remove_count = length (ss_retransmission_queue ss1) - max_retransmission_queue
           in remove_notifications (map fst (take remove_count (ss_retransmission_queue ss1))) ss1
         else ss1)"

definition Subscriptions_tick :: "'f address_space \<Rightarrow> int \<Rightarrow> TickReason \<Rightarrow> 'f Subscriptions \<Rightarrow> 'f Subscriptions res" where
  "Subscriptions_tick asp now reason ss =
     bindR (tick_subscriptions asp now reason (subscription_ids_by_priority ss) ss) (\<lambda>ss1.
       Inr (remove_old_unacknowledged_notifications (make_publish_responses now ss1)))"

section \<open>Publish requests\<close>

fun acknowledge ::
  "(u32 \<times> 'f Subscription) list \<Rightarrow> SubscriptionAcknowledgement list \<Rightarrow> ((u32 \<times> u32) \<times> NotificationMessage) list
    \<Rightarrow> StatusCode list \<times> ((u32 \<times> u32) \<times> NotificationMessage) list" where
  "acknowledge subscriptions [] queue = ([], queue)"
| "acknowledge subscriptions (a # as) queue =
     (let key = (sa_subscription_id a, sa_sequence_number a);
          (code, queue1) =
            (if map_of subscriptions (sa_subscription_id a) = None then (BadSubscriptionIdInvalid, queue)
             else if map_of queue key = None then (BadSequenceNumberUnknown, queue)
             else (Good, btree_remove key queue));
          (codes, queue2) = acknowledge subscriptions as queue1
      in (code # codes, queue2))"

definition process_subscription_acknowledgements ::
  "PublishRequest \<Rightarrow> 'f Subscriptions \<Rightarrow> StatusCode list option \<times> 'f Subscriptions" where
  "process_subscription_acknowledgements request ss =
     (case pq_subscription_acknowledgements request of
        None \<Rightarrow> (None, ss)
      | Some acks \<Rightarrow>
          let (codes, queue) = acknowledge (ss_subscriptions ss) acks (ss_retransmission_queue ss)
          in (Some codes, ss \<lparr> ss_retransmission_queue := queue \<rparr>))"

definition enqueue_publish_request ::
  "'f address_space \<Rightarrow> int \<Rightarrow> u32 \<Rightarrow> PublishRequest \<Rightarrow> 'f Subscriptions \<Rightarrow> ((StatusCode + unit) \<times> 'f Subscriptions) res" where
  "enqueue_publish_request asp now rid request ss =
     (let capacity = max_publish_requests ss in
      bindR (if length (ss_publish_request_queue ss) \<ge> capacity then Subscriptions_tick asp now ReceivePublishRequest ss
             else Inr ss) (\<lambda>ss1.
        if length (ss_publish_request_queue ss1) \<ge> capacity then Inr (Inl BadTooManyPublishRequests, ss1)
        else
          let (results, ss2) = process_subscription_acknowledgements request ss1;
              entry = \<lparr> pre_request_id = rid, pre_request = request, pre_results = results \<rparr>
          in mapR (\<lambda>ss3. (Inr (), ss3)) (Subscriptions_tick asp now ReceivePublishRequest
               (ss2 \<lparr> ss_publish_request_queue := entry # ss_publish_request_queue ss2 \<rparr>))))"

text \<open>A request has expired if more time has passed since its timestamp than its hint or the timeout
  of the session; a timestamp in the future panics.\<close>

definition publish_request_timeout_of :: "64 word \<Rightarrow> RequestHeader \<Rightarrow> int" where
  "publish_request_timeout_of timeout header =
     (if rqh_timeout_hint header > 0 \<and> uint (rqh_timeout_hint header) < sint timeout then uint (rqh_timeout_hint header)
      else uint timeout) * 1000000"

definition publish_request_expired :: "int \<Rightarrow> 64 word \<Rightarrow> PublishRequestEntry \<Rightarrow> bool res" where
  "publish_request_expired now timeout entry =
     (let header = pq_request_header (pre_request entry) in
      mapR (\<lambda>elapsed. elapsed > publish_request_timeout_of timeout header)
        (elapsed_since now (date_time (rqh_timestamp header))))"

fun retain_publish_requests ::
  "int \<Rightarrow> DateTime \<Rightarrow> 64 word \<Rightarrow> PublishRequestEntry list \<Rightarrow> PublishResponseEntry list
    \<Rightarrow> (PublishRequestEntry list \<times> PublishResponseEntry list) res" where
  "retain_publish_requests now clock timeout [] expired = Inr ([], expired)"
| "retain_publish_requests now clock timeout (entry # entries) expired =
     bindR (publish_request_expired now timeout entry) (\<lambda>stale.
       if stale then
         retain_publish_requests now clock timeout entries
           (\<lparr> pse_request_id = pre_request_id entry,
              pse_response = ServiceFault_new clock (pq_request_header (pre_request entry)) BadTimeout \<rparr> # expired)
       else mapR (\<lambda>(retained, expired'). (entry # retained, expired'))
              (retain_publish_requests now clock timeout entries expired))"

definition expire_stale_publish_requests :: "int \<Rightarrow> DateTime \<Rightarrow> 'f Subscriptions \<Rightarrow> 'f Subscriptions res" where
  "expire_stale_publish_requests now clock ss =
     mapR (\<lambda>(retained, expired).
         ss \<lparr> ss_publish_request_queue := retained,
              ss_publish_response_queue := ss_publish_response_queue ss @ expired \<rparr>)
       (retain_publish_requests now clock (ss_publish_request_timeout ss) (ss_publish_request_queue ss) [])"

definition find_notification_message :: "u32 \<Rightarrow> u32 \<Rightarrow> 'f Subscriptions \<Rightarrow> StatusCode + NotificationMessage" where
  "find_notification_message i number ss =
     (if map_of (ss_subscriptions ss) i = None then Inl BadSubscriptionIdInvalid
      else case map_of (ss_retransmission_queue ss) (i, number) of
             None \<Rightarrow> Inl BadMessageNotAvailable
           | Some n \<Rightarrow> Inr n)"

section \<open>The subscription service\<close>

record CreateSubscriptionRequest =
  cq_request_header :: RequestHeader
  cq_requested_publishing_interval :: "64 word"
  cq_requested_lifetime_count :: u32
  cq_requested_max_keep_alive_count :: u32
  cq_max_notifications_per_publish :: u32
  cq_publishing_enabled :: bool
  cq_priority :: u8

record ModifySubscriptionRequest =
  mq_request_header :: RequestHeader
  mq_subscription_id :: u32
  mq_requested_publishing_interval :: "64 word"
  mq_requested_lifetime_count :: u32
  mq_requested_max_keep_alive_count :: u32
  mq_max_notifications_per_publish :: u32
  mq_priority :: u8

definition create_subscription_id :: "ServerState \<Rightarrow> (u32 \<times> ServerState) res" where
  "create_subscription_id st =
     mapR (\<lambda>i. (i, st \<lparr> st_last_subscription_id := i \<rparr>)) (add_u32 (st_last_subscription_id st) 1)"

definition mul_u32 :: "u32 \<Rightarrow> u32 \<Rightarrow> u32 res" where
  "mul_u32 a b = (if unat a * unat b < 2 ^ 32 then Inr (a * b) else Inl Panic)"

definition revise_subscription_values :: "ServerState \<Rightarrow> 64 word \<Rightarrow> u32 \<Rightarrow> u32 \<Rightarrow> (64 word \<times> u32 \<times> u32) res" where
  "revise_subscription_values st interval keep_alive_count lifetime_count =
     (let revised_interval = f64_max interval (st_min_publishing_interval_ms st);
          revised_keep_alive =
            (if keep_alive_count > st_max_keep_alive_count st then st_max_keep_alive_count st
             else if keep_alive_count = 0 then st_default_keep_alive_count st
             else keep_alive_count)
      in mapR (\<lambda>min_lifetime.
           (revised_interval, revised_keep_alive,
            if lifetime_count < min_lifetime then min_lifetime
            else if lifetime_count > st_max_lifetime_count st then st_max_lifetime_count st
            else lifetime_count)) (mul_u32 revised_keep_alive 3))"

definition create_subscription ::
  "int \<Rightarrow> DateTime \<Rightarrow> CreateSubscriptionRequest \<Rightarrow> ServerState \<Rightarrow> 'f Subscriptions
    \<Rightarrow> (subscription_response SupportedMessage \<times> ServerState \<times> 'f Subscriptions) res" where
  "create_subscription now clock request st ss =
     (if st_max_subscriptions st > 0 \<and> length (ss_subscriptions ss) \<ge> st_max_subscriptions st then
        Inr (ServiceFault_new clock (cq_request_header request) BadTooManySubscriptions, st, ss)
      else
        bindR (create_subscription_id st) (\<lambda>(i, st1).
        bindR (revise_subscription_values st1 (cq_requested_publishing_interval request)
                 (cq_requested_max_keep_alive_count request) (cq_requested_lifetime_count request))
          (\<lambda>(interval, keep_alive_count, lifetime_count).
             Inr (SmService (CreateSubscription
                    \<lparr> cr_response_header = new_timestamped_service_result clock (cq_request_header request) Good,
                      cr_subscription_id = i, cr_revised_publishing_interval = interval,
                      cr_revised_lifetime_count = lifetime_count,
                      cr_revised_max_keep_alive_count = keep_alive_count \<rparr>),
                  st1,
                  ss \<lparr> ss_subscriptions := btree_insert i
                    (Subscription_new now i (cq_publishing_enabled request) interval lifetime_count keep_alive_count
                      (cq_priority request)) (ss_subscriptions ss) \<rparr>))))"

definition modify_subscription ::
  "DateTime \<Rightarrow> ModifySubscriptionRequest \<Rightarrow> ServerState \<Rightarrow> 'f Subscriptions
    \<Rightarrow> (subscription_response SupportedMessage \<times> 'f Subscriptions) res" where
  "modify_subscription clock request st ss =
     (case map_of (ss_subscriptions ss) (mq_subscription_id request) of
        None \<Rightarrow> Inr (ServiceFault_new clock (mq_request_header request) BadSubscriptionIdInvalid, ss)
      | Some sub \<Rightarrow>
          bindR (revise_subscription_values st (mq_requested_publishing_interval request)
                   (mq_requested_max_keep_alive_count request) (mq_requested_lifetime_count request))
            (\<lambda>(interval, keep_alive_count, lifetime_count).
               let sub' = reset_keep_alive_counter (reset_lifetime_counter
                     (sub \<lparr> sub_publishing_interval := interval, sub_max_keep_alive_counter := keep_alive_count,
                            sub_max_lifetime_counter := lifetime_count, sub_priority := mq_priority request \<rparr>))
               in Inr (SmService (ModifySubscription
                      \<lparr> mo_response_header = new_timestamped_service_result clock (mq_request_header request) Good,
                        mo_revised_publishing_interval = interval, mo_revised_lifetime_count = lifetime_count,
                        mo_revised_max_keep_alive_count = keep_alive_count \<rparr>),
                    ss \<lparr> ss_subscriptions := btree_insert (mq_subscription_id request) sub' (ss_subscriptions ss) \<rparr>)))"

fun publishing_modes :: "bool \<Rightarrow> u32 list \<Rightarrow> (u32 \<times> 'f Subscription) list \<Rightarrow> StatusCode list \<times> (u32 \<times> 'f Subscription) list" where
  "publishing_modes enabled [] subscriptions = ([], subscriptions)"
| "publishing_modes enabled (i # ids) subscriptions =
     (let (code, subscriptions1) =
            (case map_of subscriptions i of
               None \<Rightarrow> (BadSubscriptionIdInvalid, subscriptions)
             | Some sub \<Rightarrow>
                 (Good, btree_insert i (reset_lifetime_counter (sub \<lparr> sub_publishing_enabled := enabled \<rparr>)) subscriptions));
          (codes, subscriptions2) = publishing_modes enabled ids subscriptions1
      in (code # codes, subscriptions2))"

text \<open>The requests hold their header and the ids, which may be absent or empty.\<close>

definition set_publishing_mode ::
  "DateTime \<Rightarrow> RequestHeader \<Rightarrow> bool \<Rightarrow> u32 list option \<Rightarrow> 'f Subscriptions
    \<Rightarrow> subscription_response SupportedMessage \<times> 'f Subscriptions" where
  "set_publishing_mode clock header enabled subscription_ids ss =
     (case subscription_ids of
        None \<Rightarrow> (ServiceFault_new clock header BadNothingToDo, ss)
      | Some ids \<Rightarrow>
          if ids = [] then (ServiceFault_new clock header BadNothingToDo, ss)
          else
            let (codes, subscriptions) = publishing_modes enabled ids (ss_subscriptions ss)
            in (SmService (SetPublishingMode
                  \<lparr> sp_response_header = new_timestamped_service_result clock header Good, sp_results = Some codes,
                    sp_diagnostic_infos = None \<rparr>),
                ss \<lparr> ss_subscriptions := subscriptions \<rparr>))"

fun remove_subscriptions :: "u32 list \<Rightarrow> (u32 \<times> 'f Subscription) list \<Rightarrow> StatusCode list \<times> (u32 \<times> 'f Subscription) list" where
  "remove_subscriptions [] subscriptions = ([], subscriptions)"
| "remove_subscriptions (i # ids) subscriptions =
     (let code = (if map_of subscriptions i = None then BadSubscriptionIdInvalid else Good);
          (codes, subscriptions') = remove_subscriptions ids (btree_remove i subscriptions)
      in (code # codes, subscriptions'))"

definition delete_subscriptions ::
  "DateTime \<Rightarrow> RequestHeader \<Rightarrow> u32 list option \<Rightarrow> 'f Subscriptions
    \<Rightarrow> subscription_response SupportedMessage \<times> 'f Subscriptions" where
  "delete_subscriptions clock header subscription_ids ss =
     (case subscription_ids of
        None \<Rightarrow> (ServiceFault_new clock header BadNothingToDo, ss)
      | Some ids \<Rightarrow>
          if ids = [] then (ServiceFault_new clock header BadNothingToDo, ss)
          else
            let (codes, subscriptions) = remove_subscriptions ids (ss_subscriptions ss)
            in (SmService (DeleteSubscriptions
                  \<lparr> ds_response_header = new_timestamped_service_result clock header Good, ds_results = Some codes,
                    ds_diagnostic_infos = None \<rparr>),
                ss \<lparr> ss_subscriptions := subscriptions \<rparr>))"

text \<open>A publish request is answered at once only by a fault.\<close>

definition async_publish ::
  "'f address_space \<Rightarrow> int \<Rightarrow> DateTime \<Rightarrow> u32 \<Rightarrow> PublishRequest \<Rightarrow> 'f Subscriptions
    \<Rightarrow> (subscription_response SupportedMessage option \<times> 'f Subscriptions) res" where
  "async_publish asp now clock rid request ss =
     (if ss_subscriptions ss = [] then
        Inr (Some (ServiceFault_new clock (pq_request_header request) BadNoSubscription), ss)
      else
        mapR (\<lambda>(result, ss').
            (case result of
               Inl code \<Rightarrow> Some (ServiceFault_new clock (pq_request_header request) code)
             | Inr _ \<Rightarrow> None, ss'))
          (enqueue_publish_request asp now rid request ss))"

definition reset_subscription_lifetime_counter :: "u32 \<Rightarrow> 'f Subscriptions \<Rightarrow> 'f Subscriptions" where
  "reset_subscription_lifetime_counter i ss =
     (case map_of (ss_subscriptions ss) i of
        None \<Rightarrow> ss
      | Some sub \<Rightarrow> ss \<lparr> ss_subscriptions := btree_insert i (reset_lifetime_counter sub) (ss_subscriptions ss) \<rparr>)"

definition republish ::
  "DateTime \<Rightarrow> RequestHeader \<Rightarrow> u32 \<Rightarrow> u32 \<Rightarrow> 'f Subscriptions \<Rightarrow> subscription_response SupportedMessage \<times> 'f Subscriptions" where
  "republish clock header i retransmit_sequence_number ss =
     (case find_notification_message i retransmit_sequence_number ss of
        Inr n \<Rightarrow>
          (SmService (Republish
             \<lparr> rp_response_header = new_timestamped_service_result clock header Good, rp_notification_message = n \<rparr>),
           reset_subscription_lifetime_counter i ss)
      | Inl code \<Rightarrow> (ServiceFault_new clock header code, ss))"

end
