(* ===== verification/Opc_Item_Service.thy ===== *)
theory Opc_Item_Service
  imports Opc_Subscriptions
begin

text \<open>
  The monitored item service (\<open>server/services/monitored_item.rs\<close>): each handler looks up the
  subscription of the request, applies the operation of the subscription and answers with its results. The
  requests are given by their header, the subscription id and their lists, which may be absent.
\<close>

text \<open>The responses, with their header and results; their diagnostic infos are always absent.\<close>

datatype item_response =
    CreateMonitoredItems ResponseHeader "MonitoredItemCreateResult list option"
  | ModifyMonitoredItems ResponseHeader "MonitoredItemModifyResult list option"
  | SetMonitoringMode ResponseHeader "StatusCode list option"
  | SetTriggering ResponseHeader "StatusCode list option" "StatusCode list option"
  | DeleteMonitoredItems ResponseHeader "StatusCode list option"

type_synonym 'f item_service = "'f Subscriptions \<Rightarrow> (item_response SupportedMessage \<times> 'f Subscriptions) res"

definition is_empty_option_vec :: "'a list option \<Rightarrow> bool" where
  "is_empty_option_vec v \<longleftrightarrow> (case v of None \<Rightarrow> True | Some xs \<Rightarrow> xs = [])"

definition vec_of :: "'a list option \<Rightarrow> 'a list" where
  "vec_of v = (case v of None \<Rightarrow> [] | Some xs \<Rightarrow> xs)"

text \<open>The operation runs on the entry of the map, in place.\<close>

definition with_subscription ::
  "DateTime \<Rightarrow> RequestHeader \<Rightarrow> u32 \<Rightarrow> ('f Subscription \<Rightarrow> (item_response SupportedMessage \<times> 'f Subscription) res)
    \<Rightarrow> 'f item_service" where
  "with_subscription clock header i operation ss =
     (case map_of (ss_subscriptions ss) i of
        None \<Rightarrow> Inr (ServiceFault_new clock header BadSubscriptionIdInvalid, ss)
      | Some sub \<Rightarrow>
          mapR (\<lambda>(reply, sub'). (reply, ss \<lparr> ss_subscriptions := btree_insert i sub' (ss_subscriptions ss) \<rparr>))
            (operation sub))"

definition service_create_monitored_items ::
  "'f address_space \<Rightarrow> ServerState \<Rightarrow> int \<Rightarrow> DateTime \<Rightarrow> RequestHeader \<Rightarrow> u32 \<Rightarrow> TimestampsToReturn
    \<Rightarrow> (ReadValueId \<times> MonitoringMode \<times> MonitoringParameters) list option \<Rightarrow> 'f item_service" where
  "service_create_monitored_items asp st now clock header i timestamps items_to_create ss =
     (if is_empty_option_vec items_to_create then Inr (ServiceFault_new clock header BadNothingToDo, ss)
      else with_subscription clock header i (\<lambda>sub.
        mapR (\<lambda>(results, sub'). (SmService (CreateMonitoredItems (new_timestamped_service_result clock header Good) (Some results)), sub'))
          (create_monitored_items asp st now timestamps (vec_of items_to_create) sub)) ss)"

definition service_modify_monitored_items ::
  "'f address_space \<Rightarrow> ServerState \<Rightarrow> DateTime \<Rightarrow> RequestHeader \<Rightarrow> u32 \<Rightarrow> TimestampsToReturn
    \<Rightarrow> (u32 \<times> MonitoringParameters) list option \<Rightarrow> 'f item_service" where
  "service_modify_monitored_items asp st clock header i timestamps items_to_modify ss =
     (if is_empty_option_vec items_to_modify then Inr (ServiceFault_new clock header BadNothingToDo, ss)
      else with_subscription clock header i (\<lambda>sub.
        mapR (\<lambda>(results, sub'). (SmService (ModifyMonitoredItems (new_timestamped_service_result clock header Good) (Some results)), sub'))
          (modify_monitored_items asp st timestamps (vec_of items_to_modify) sub)) ss)"

definition service_set_monitoring_mode ::
  "DateTime \<Rightarrow> RequestHeader \<Rightarrow> u32 \<Rightarrow> MonitoringMode \<Rightarrow> u32 list option \<Rightarrow> 'f item_service" where
  "service_set_monitoring_mode clock header i mode monitored_item_ids ss =
     (if is_empty_option_vec monitored_item_ids then Inr (ServiceFault_new clock header BadNothingToDo, ss)
      else with_subscription clock header i (\<lambda>sub.
        mapR (\<lambda>(results, sub'). (SmService (SetMonitoringMode (new_timestamped_service_result clock header Good) (Some results)), sub'))
          (map_state (\<lambda>j sub. Inr (set_monitoring_mode j mode sub)) (vec_of monitored_item_ids) sub)) ss)"

definition service_set_triggering ::
  "DateTime \<Rightarrow> RequestHeader \<Rightarrow> u32 \<Rightarrow> u32 \<Rightarrow> u32 list option \<Rightarrow> u32 list option \<Rightarrow> 'f item_service" where
  "service_set_triggering clock header i triggering_item_id links_to_add links_to_remove ss =
     (if is_empty_option_vec links_to_add \<and> is_empty_option_vec links_to_remove then
        Inr (ServiceFault_new clock header BadNothingToDo, ss)
      else with_subscription clock header i (\<lambda>sub.
        case set_triggering triggering_item_id (vec_of links_to_add) (vec_of links_to_remove) sub of
          (Inr (add_results, remove_results), sub') \<Rightarrow>
            Inr (SmService (SetTriggering (new_timestamped_service_result clock header Good)
                   (if links_to_add \<noteq> None then Some add_results else None)
                   (if links_to_remove \<noteq> None then Some remove_results else None)), sub')
        | (Inl (Err code), sub') \<Rightarrow> Inr (ServiceFault_new clock header code, sub')
        | (Inl f, sub') \<Rightarrow> Inl f) ss)"

definition service_delete_monitored_items ::
  "DateTime \<Rightarrow> RequestHeader \<Rightarrow> u32 \<Rightarrow> u32 list option \<Rightarrow> 'f item_service" where
  "service_delete_monitored_items clock header i monitored_item_ids ss =
     (if is_empty_option_vec monitored_item_ids then Inr (ServiceFault_new clock header BadNothingToDo, ss)
      else with_subscription clock header i (\<lambda>sub.
        mapR (\<lambda>(results, sub'). (SmService (DeleteMonitoredItems (new_timestamped_service_result clock header Good) (Some results)), sub'))
          (delete_monitored_items (vec_of monitored_item_ids) sub)) ss)"

end
