(* ===== verification/Opc_Session_Publishing.thy ===== *)
theory Opc_Session_Publishing
  imports Opc_Publishing_Cases Opc_Item_Service "HOL-Library.Multiset"
begin

text \<open>
  Properties of the subscriptions of a session: every publish request is answered once and in order,
  notifications that were sent can be fetched again until they are acknowledged, and a session stays
  in a state in which its ticks return.
\<close>

section \<open>Ordered maps as finite maps\<close>

text \<open>The contract of a map: what is looked up after an insertion and a removal.\<close>

locale finite_map =
  fixes get :: "'m \<Rightarrow> 'k \<Rightarrow> 'v option"
    and put :: "'k \<Rightarrow> 'v \<Rightarrow> 'm \<Rightarrow> 'm"
    and del :: "'k \<Rightarrow> 'm \<Rightarrow> 'm"
    and ok :: "'m \<Rightarrow> bool"
  assumes get_put: "ok m \<Longrightarrow> get (put k v m) = (get m)(k \<mapsto> v)"
    and get_del: "ok m \<Longrightarrow> get (del k m) = (get m)(k := None)"
    and put_ok: "ok m \<Longrightarrow> ok (put k v m)"
    and del_ok: "ok m \<Longrightarrow> ok (del k m)"
begin

lemma fold_del: "ok m \<Longrightarrow> ok (fold del ks m) \<and> get (fold del ks m) = (\<lambda>k. if k \<in> set ks then None else get m k)"
  by (induction ks arbitrary: m) (auto simp: del_ok get_del fun_eq_iff)

lemma fold_put:
  "ok m \<Longrightarrow> ok (fold (\<lambda>(k, v). put k v) kvs m) \<and> get (fold (\<lambda>(k, v). put k v) kvs m) = get m ++ map_of (rev kvs)"
  by (induction kvs arbitrary: m) (auto simp: put_ok get_put map_add_def fun_eq_iff split: option.split)

lemma put_kept: "ok m \<Longrightarrow> get m k = Some v \<Longrightarrow> k' \<noteq> k \<Longrightarrow> get (put k' v' m) k = Some v"
  by (simp add: get_put)

end

definition btree_ok :: "('k :: linorder \<times> 'v) list \<Rightarrow> bool" where
  "btree_ok m \<longleftrightarrow> sorted_wrt (<) (map fst m)"

lemma btree_ok_distinct: "btree_ok m \<Longrightarrow> distinct (map fst m)"
  by (simp add: btree_ok_def strict_sorted_iff)

lemma set_btree_insert_keys: "fst ` set (btree_insert k v m) = insert k (fst ` set m)"
  by (induction k v m rule: btree_insert.induct) auto

lemma btree_insert_ok: "btree_ok m \<Longrightarrow> btree_ok (btree_insert k v m)"
proof (induction k v m rule: btree_insert.induct)
  case (2 k v k' v' m)
  have "\<forall>x \<in> fst ` set (btree_insert k v m). k' < x" if "\<not> k < k'" "k \<noteq> k'"
    using 2(2) that unfolding set_btree_insert_keys by (auto simp: btree_ok_def)
  then show ?case using 2 by (fastforce simp: btree_ok_def)
qed (simp add: btree_ok_def)

lemma map_of_btree_insert: "btree_ok m \<Longrightarrow> map_of (btree_insert k v m) = (map_of m)(k \<mapsto> v)"
  by (induction k v m rule: btree_insert.induct) (auto simp: btree_ok_def fun_eq_iff)

lemma map_of_btree_remove: "map_of (btree_remove k m) = (map_of m)(k := None)"
  by (induction m) (auto simp: btree_remove_def fun_eq_iff)

lemma btree_remove_ok: "btree_ok m \<Longrightarrow> btree_ok (btree_remove k m)"
  by (auto simp: btree_ok_def btree_remove_def sorted_wrt_map intro: sorted_wrt_filter)

interpretation btree: finite_map map_of btree_insert btree_remove btree_ok
  by unfold_locales (simp_all add: map_of_btree_insert map_of_btree_remove btree_insert_ok btree_remove_ok)

lemma fold_btree_remove: "fold btree_remove ks m = filter (\<lambda>e. fst e \<notin> set ks) m"
  by (induction ks arbitrary: m) (auto simp: btree_remove_def intro: filter_cong)

lemma in_set_btree_insert: "e \<in> set (btree_insert k v m) \<Longrightarrow> e = (k, v) \<or> e \<in> set m"
  by (induction k v m rule: btree_insert.induct) (auto split: if_splits)

lemma length_btree_insert: "map_of m k \<noteq> None \<Longrightarrow> btree_ok m \<Longrightarrow> length (btree_insert k v m) = length m"
proof (induction k v m rule: btree_insert.induct)
  case (2 k v k' v' m)
  have "\<not> k < k'"
  proof
    assume "k < k'"
    then have "k \<notin> fst ` set ((k', v') # m)" using 2(3) by (auto simp: btree_ok_def)
    then show False using 2(2) by (auto simp: map_of_eq_None_iff simp del: map_of.simps)
  qed
  then show ?case using 2 by (auto simp: btree_ok_def)
qed simp

section \<open>Requests become responses\<close>

declare process_notifications.simps [simp del] make_publish_responses.simps [simp del]

lemma take_notification_keeps:
  "take_notification sub = (n, sub') \<Longrightarrow> sub_subscription_id sub' = sub_subscription_id sub \<and> (sub_ok now sub \<longrightarrow> sub_ok now sub')"
  using take_notification_ok [of now sub] by (auto simp: take_notification_def split: list.splits)

lemma process_notifications_conserves:
  "process_notifications i sub requests tr = (sub', requests', tr') \<Longrightarrow>
     requests' @ map (fst \<circ> snd) tr' = requests @ map (fst \<circ> snd) tr"
proof (induction i sub requests tr rule: process_notifications.induct)
  case (1 i sub requests tr)
  show ?case
  proof (cases "requests = [] \<or> fst (take_notification sub) = None")
    case True
    then show ?thesis using 1(2) by (subst (asm) process_notifications.simps) (auto split: if_splits prod.splits)
  next
    case False
    then obtain n sub1 where taken: "requests \<noteq> []" "take_notification sub = (Some n, sub1)"
      by (cases "take_notification sub") auto
    then have "process_notifications i sub1 (butlast requests) ((i, last requests, n) # tr) = (sub', requests', tr')"
      using 1(2) by (subst (asm) process_notifications.simps) simp
    from 1(1) [OF taken(1) taken(2) [symmetric] refl this] show ?thesis using taken(1) by simp
  qed
qed

lemma process_notifications_keeps:
  "process_notifications i sub requests tr = (sub', requests', tr') \<Longrightarrow>
     sub_subscription_id sub' = sub_subscription_id sub \<and> (sub_ok now sub \<longrightarrow> sub_ok now sub')"
proof (induction i sub requests tr rule: process_notifications.induct)
  case (1 i sub requests tr)
  show ?case
  proof (cases "requests = [] \<or> fst (take_notification sub) = None")
    case True
    then show ?thesis using 1(2) take_notification_keeps [of sub]
      by (subst (asm) process_notifications.simps) (fastforce split: if_splits prod.splits)
  next
    case False
    then obtain n sub1 where taken: "requests \<noteq> []" "take_notification sub = (Some n, sub1)"
      by (cases "take_notification sub") auto
    then have "process_notifications i sub1 (butlast requests) ((i, last requests, n) # tr) = (sub', requests', tr')"
      using 1(2) by (subst (asm) process_notifications.simps) simp
    from 1(1) [OF taken(1) taken(2) [symmetric] refl this] show ?thesis using take_notification_keeps [OF taken(2)] by auto
  qed
qed

text \<open>What a tick of one or of all subscriptions leaves alone.\<close>

definition tick_frame :: "'f Subscriptions \<Rightarrow> 'f Subscriptions \<Rightarrow> bool" where
  "tick_frame ss ss' \<longleftrightarrow> ss_publish_response_queue ss' = ss_publish_response_queue ss \<and>
     ss_retransmission_queue ss' = ss_retransmission_queue ss \<and> ss_publish_request_timeout ss' = ss_publish_request_timeout ss \<and>
     ss_publish_request_queue ss' @ map (fst \<circ> snd) (ss_transmission_queue ss') =
       ss_publish_request_queue ss @ map (fst \<circ> snd) (ss_transmission_queue ss)"

lemma tick_subscription_cases:
  assumes "tick_subscription asp now reason i ss = Inr ss'"
  obtains sub sub1 sub2 requests tr where "map_of (ss_subscriptions ss) i = Some sub"
    "Subscription_tick asp now reason (ss_publish_request_queue ss \<noteq> []) sub = Inr sub1"
    "process_notifications i sub1 (ss_publish_request_queue ss) (ss_transmission_queue ss) = (sub2, requests, tr)"
    "ss' = ss \<lparr> ss_publish_request_queue := requests, ss_transmission_queue := tr,
       ss_subscriptions := (if ready_to_remove sub2 then btree_remove i (ss_subscriptions ss)
         else btree_insert i sub2 (ss_subscriptions ss)) \<rparr>"
proof -
  obtain sub where sub: "map_of (ss_subscriptions ss) i = Some sub"
    using assms by (auto simp: tick_subscription_def split: option.splits)
  obtain sub1 where sub1: "Subscription_tick asp now reason (ss_publish_request_queue ss \<noteq> []) sub = Inr sub1"
    using assms sub by (auto simp: tick_subscription_def bindR_eq_Inr)
  obtain sub2 requests tr where
    sub2: "process_notifications i sub1 (ss_publish_request_queue ss) (ss_transmission_queue ss) = (sub2, requests, tr)"
    by (metis prod.exhaust)
  show ?thesis using assms by (intro that [OF sub sub1 sub2]) (simp add: tick_subscription_def sub sub1 sub2)
qed

lemma tick_subscription_frame: "tick_subscription asp now reason i ss = Inr ss' \<Longrightarrow> tick_frame ss ss'"
  by (elim tick_subscription_cases) (auto simp: tick_frame_def dest: process_notifications_conserves)

lemma tick_subscriptions_frame: "tick_subscriptions asp now reason ids ss = Inr ss' \<Longrightarrow> tick_frame ss ss'"
proof (induction ids arbitrary: ss)
  case (Cons i ids)
  then obtain ss1 where "tick_subscription asp now reason i ss = Inr ss1" "tick_subscriptions asp now reason ids ss1 = Inr ss'"
    by (auto simp: bindR_eq_Inr)
  then show ?case using tick_subscription_frame Cons.IH by (fastforce simp: tick_frame_def)
qed (simp add: tick_frame_def)

text \<open>The loop that answers: each entry of the transmission queue, oldest first, gives one response and
  one entry of the retransmission queue.\<close>

lemma make_publish_responses_empty: "ss_transmission_queue ss = [] \<Longrightarrow> make_publish_responses now ss = ss"
  by (subst make_publish_responses.simps) simp

lemma make_publish_responses_step:
  assumes "ss_transmission_queue ss = tr @ [(i, entry, n)]"
  obtains response ss1 where "make_publish_responses now ss = make_publish_responses now ss1"
    "pse_request_id response = pre_request_id entry" "\<exists>r. pse_response response = SmService (Publish r) \<and> pr_notification_message r = n \<and>
      pr_subscription_id r = i"
    "ss1 = ss \<lparr> ss_transmission_queue := tr,
       ss_retransmission_queue := btree_insert (i, nm_sequence_number n) n (ss_retransmission_queue ss),
       ss_publish_response_queue := ss_publish_response_queue ss @ [response] \<rparr>"
proof -
  let ?ss = "ss \<lparr> ss_transmission_queue := tr \<rparr>"
  let ?response = "make_publish_response entry i now n (more_notifications i ?ss) (available_sequence_numbers i ?ss)"
  have "make_publish_responses now ss = make_publish_responses now (ss \<lparr> ss_transmission_queue := tr,
       ss_retransmission_queue := btree_insert (i, nm_sequence_number n) n (ss_retransmission_queue ss),
       ss_publish_response_queue := ss_publish_response_queue ss @ [?response] \<rparr>)"
    by (subst make_publish_responses.simps) (simp add: assms Let_def)
  then show ?thesis by (rule that [of _ ?response]) (simp_all add: make_publish_response_def)
qed

lemma make_publish_responses_frame:
  "\<exists>new. ss_publish_response_queue (make_publish_responses now ss) = ss_publish_response_queue ss @ new \<and>
     map pse_request_id new = rev (map (pre_request_id \<circ> fst \<circ> snd) (ss_transmission_queue ss)) \<and>
     ss_transmission_queue (make_publish_responses now ss) = [] \<and>
     ss_publish_request_queue (make_publish_responses now ss) = ss_publish_request_queue ss \<and>
     ss_subscriptions (make_publish_responses now ss) = ss_subscriptions ss \<and>
     ss_publish_request_timeout (make_publish_responses now ss) = ss_publish_request_timeout ss \<and>
     ss_retransmission_queue (make_publish_responses now ss) =
       fold (\<lambda>(k, n). btree_insert k n) (map (\<lambda>(i, _, n). ((i, nm_sequence_number n), n)) (rev (ss_transmission_queue ss)))
         (ss_retransmission_queue ss)"
proof (induction "ss_transmission_queue ss" arbitrary: ss rule: rev_induct)
  case Nil
  then show ?case by (simp add: make_publish_responses_empty)
next
  case (snoc t tr)
  obtain i entry n where t: "t = (i, entry, n)" by (cases t) auto
  obtain response ss1 where step: "make_publish_responses now ss = make_publish_responses now ss1"
      "pse_request_id response = pre_request_id entry"
      "ss1 = ss \<lparr> ss_transmission_queue := tr,
       ss_retransmission_queue := btree_insert (i, nm_sequence_number n) n (ss_retransmission_queue ss),
       ss_publish_response_queue := ss_publish_response_queue ss @ [response] \<rparr>"
    using make_publish_responses_step [of ss tr i entry n] snoc(2) t by metis
  have "tr = ss_transmission_queue ss1" by (simp add: step(3))
  from snoc(1) [OF this] show ?case
    by (elim exE conjE, intro exI [of _ "response # _"]) (simp add: step t snoc(2) [symmetric])
qed

lemma remove_notifications_frame:
  "ss_publish_response_queue (remove_old_unacknowledged_notifications ss) = ss_publish_response_queue ss"
  "ss_publish_request_queue (remove_old_unacknowledged_notifications ss) = ss_publish_request_queue ss"
  "ss_transmission_queue (remove_old_unacknowledged_notifications ss) = ss_transmission_queue ss"
  "ss_subscriptions (remove_old_unacknowledged_notifications ss) = ss_subscriptions ss"
  "ss_publish_request_timeout (remove_old_unacknowledged_notifications ss) = ss_publish_request_timeout ss"
  by (simp_all add: remove_old_unacknowledged_notifications_def remove_notifications_def Let_def)

lemma Subscriptions_tick_answers:
  assumes "Subscriptions_tick asp now reason ss = Inr ss'" "ss_transmission_queue ss = []"
  shows "\<exists>new. ss_publish_response_queue ss' = ss_publish_response_queue ss @ new \<and>
    map pse_request_id new @ rev (map pre_request_id (ss_publish_request_queue ss')) =
      rev (map pre_request_id (ss_publish_request_queue ss)) \<and> ss_transmission_queue ss' = []"
proof -
  obtain ss1 where ticks: "tick_subscriptions asp now reason (subscription_ids_by_priority ss) ss = Inr ss1"
    and ss': "ss' = remove_old_unacknowledged_notifications (make_publish_responses now ss1)"
    using assms(1) by (auto simp: Subscriptions_tick_def bindR_eq_Inr)
  have "map pre_request_id (ss_publish_request_queue ss1 @ map (fst \<circ> snd) (ss_transmission_queue ss1)) =
      map pre_request_id (ss_publish_request_queue ss)"
    using tick_subscriptions_frame [OF ticks] assms(2) by (simp add: tick_frame_def)
  then have conserved: "map pre_request_id (ss_publish_request_queue ss) =
      map pre_request_id (ss_publish_request_queue ss1) @ map (pre_request_id \<circ> fst \<circ> snd) (ss_transmission_queue ss1)"
    by (simp add: comp_assoc)
  show ?thesis
    using make_publish_responses_frame [of now ss1] tick_subscriptions_frame [OF ticks]
    by (auto simp: ss' remove_notifications_frame conserved tick_frame_def)
qed

section \<open>The retransmission queue\<close>

lemma filter_not_in_take:
  "distinct (map fst m) \<Longrightarrow> filter (\<lambda>e. fst e \<notin> fst ` set (take c m)) m = drop c m"
proof (induction m arbitrary: c)
  case (Cons e m)
  show ?case
  proof (cases c)
    case (Suc d)
    have "filter (\<lambda>e'. fst e' \<notin> fst ` set (take c (e # m))) (e # m) = filter (\<lambda>e'. fst e' \<notin> fst ` set (take d m)) m"
      using Cons.prems Suc by (auto intro!: filter_cong) (metis fst_conv image_eqI)
    then show ?thesis using Cons Suc by simp
  qed simp
qed simp

definition live_notifications :: "'f Subscriptions \<Rightarrow> ((u32 \<times> u32) \<times> NotificationMessage) list" where
  "live_notifications ss =
     filter (\<lambda>(k, _). map_of (ss_subscriptions ss) (fst k) \<noteq> None) (ss_retransmission_queue ss)"

text \<open>The clean-up keeps, of the notifications of the subscriptions that exist, those with the largest
  keys, four for each subscription.\<close>

lemma retransmission_kept:
  assumes "btree_ok (ss_retransmission_queue ss)"
  shows "ss_retransmission_queue (remove_old_unacknowledged_notifications ss) =
    drop (length (live_notifications ss) - 4 * length (ss_subscriptions ss)) (live_notifications ss)"
proof -
  let ?keys = "filter (\<lambda>k. map_of (ss_subscriptions ss) (fst k) = None) (map fst (ss_retransmission_queue ss))"
  have live: "fold btree_remove ?keys (ss_retransmission_queue ss) = live_notifications ss"
    unfolding fold_btree_remove live_notifications_def by (rule filter_cong) auto
  have "distinct (map fst (live_notifications ss))"
    using btree_ok_distinct [OF assms] unfolding live_notifications_def by (rule distinct_map_filter)
  then show ?thesis
    by (simp add: remove_old_unacknowledged_notifications_def remove_notifications_def Let_def live max_publish_requests_def
        fold_btree_remove [of "map fst (take _ _)"] filter_not_in_take)
qed

section \<open>The invariant of a session\<close>

definition subs_ok :: "int \<Rightarrow> (u32 \<times> 'f Subscription) list \<Rightarrow> bool" where
  "subs_ok now m \<longleftrightarrow> btree_ok m \<and> (\<forall>i sub. map_of m i = Some sub \<longrightarrow> sub_subscription_id sub = i \<and> sub_ok now sub)"

definition retransmission_ok :: "((u32 \<times> u32) \<times> NotificationMessage) list \<Rightarrow> bool" where
  "retransmission_ok q \<longleftrightarrow> btree_ok q \<and> (\<forall>k n. map_of q k = Some n \<longrightarrow> nm_sequence_number n = snd k)"

definition session_ok :: "int \<Rightarrow> 'f Subscriptions \<Rightarrow> bool" where
  "session_ok now ss \<longleftrightarrow> subs_ok now (ss_subscriptions ss) \<and> retransmission_ok (ss_retransmission_queue ss) \<and>
     ss_transmission_queue ss = []"

text \<open>A subscription whose next tick may panic.\<close>

definition expiring :: "'f Subscription \<Rightarrow> bool" where
  "expiring sub \<longleftrightarrow> sub_lifetime_counter sub = 1 \<and> sub_monitored_items sub \<noteq> []"

lemma subs_ok_later: "subs_ok now m \<Longrightarrow> now \<le> now' \<Longrightarrow> subs_ok now' m"
  by (auto simp: subs_ok_def intro: sub_ok_later)

lemma session_ok_later: "session_ok now ss \<Longrightarrow> now \<le> now' \<Longrightarrow> session_ok now' ss"
  by (auto simp: session_ok_def intro: subs_ok_later)

lemma subs_ok_insert: "subs_ok now m \<Longrightarrow> sub_ok now sub \<Longrightarrow> sub_subscription_id sub = i \<Longrightarrow> subs_ok now (btree_insert i sub m)"
  by (auto simp: subs_ok_def btree_insert_ok map_of_btree_insert)

lemma subs_ok_remove: "subs_ok now m \<Longrightarrow> subs_ok now (btree_remove i m)"
  by (auto simp: subs_ok_def btree_remove_ok map_of_btree_remove split: if_splits)

lemma retransmission_ok_insert:
  "retransmission_ok q \<Longrightarrow> retransmission_ok (btree_insert (i, nm_sequence_number n) n q)"
  by (auto simp: retransmission_ok_def btree_insert_ok map_of_btree_insert)

lemma retransmission_ok_remove: "retransmission_ok q \<Longrightarrow> retransmission_ok (btree_remove k q)"
  by (auto simp: retransmission_ok_def btree_remove_ok map_of_btree_remove split: if_splits)

lemma retransmission_ok_fold_remove: "retransmission_ok q \<Longrightarrow> retransmission_ok (fold btree_remove ks q)"
  by (induction ks arbitrary: q) (simp_all add: retransmission_ok_remove)

lemma retransmission_ok_responses:
  "retransmission_ok q \<Longrightarrow>
     retransmission_ok (fold (\<lambda>(k, n). btree_insert k n) (map (\<lambda>(i, _, n). ((i, nm_sequence_number n), n)) tr) q)"
  by (induction tr arbitrary: q) (auto simp: retransmission_ok_insert)

lemma remove_old_retransmission_ok:
  "retransmission_ok (ss_retransmission_queue ss) \<Longrightarrow>
     retransmission_ok (ss_retransmission_queue (remove_old_unacknowledged_notifications ss))"
  by (simp add: remove_old_unacknowledged_notifications_def remove_notifications_def Let_def retransmission_ok_fold_remove)

lemma handle_state_result_id:
  "handle_state_result now action notification sub = Inr sub' \<Longrightarrow> sub_subscription_id sub' = sub_subscription_id sub"
  by (auto simp: handle_state_result_def enqueue_notification_def discard_notification_def Let_def
      split: UpdateStateAction.splits option.splits if_splits prod.splits)

lemma Subscription_tick_id:
  assumes "Subscription_tick asp now reason queued sub = Inr sub'"
  shows "sub_subscription_id sub' = sub_subscription_id sub"
proof -
  obtain elapsed sub1 notification sub2 where sub1: "interval_elapsed now reason sub = Inr (elapsed, sub1)"
    and sub2: "(if sub_state sub1 \<in> {Closed, Creating} then Inr (None, sub1)
      else tick_monitored_items asp now elapsed (sub_resend_data sub1) sub1) = Inr (notification, sub2)"
    using assms by (auto simp: Subscription_tick_def bindR_eq_Inr)
  have id1: "sub_subscription_id sub1 = sub_subscription_id sub" using interval_elapsed_keeps [OF sub1] by auto
  have id2: "sub_subscription_id sub2 = sub_subscription_id sub1"
    using sub2 tick_monitored_items_keeps [of asp now elapsed "sub_resend_data sub1" sub1] by (auto split: if_splits)
  define available where "available = (sub_notifications (sub2 \<lparr> sub_resend_data := False \<rparr>) \<noteq> [] \<or> notification \<noteq> None)"
  define p where "p = \<lparr> p_notifications_available = available,
    p_more_notifications = length (sub_notifications (sub2 \<lparr> sub_resend_data := False \<rparr>)) > 1, p_publishing_req_queued = queued,
    p_publishing_timer_expired = elapsed \<rparr>"
  have "(if available \<or> elapsed \<or> queued then
      bindR (update_state reason p (sub2 \<lparr> sub_resend_data := False \<rparr>))
        (\<lambda>(_, action, sub4). handle_state_result now action notification sub4)
      else Inr (sub2 \<lparr> sub_resend_data := False \<rparr>)) = Inr sub'"
    using assms unfolding Subscription_tick_def sub1 bindR_simps prod.case sub2 Let_def p_def available_def .
  then show ?thesis using id1 id2
    by (auto simp: bindR_eq_Inr split: if_splits dest!: update_state_frame handle_state_result_id)
qed

section \<open>Ticking a session\<close>

lemma tick_subscription_ok:
  assumes "tick_subscription asp now reason i ss = Inr ss'" "subs_ok now (ss_subscriptions ss)"
  shows "subs_ok now (ss_subscriptions ss') \<and> (\<forall>j. j \<noteq> i \<longrightarrow> map_of (ss_subscriptions ss') j = map_of (ss_subscriptions ss) j)"
proof -
  obtain sub sub1 sub2 requests tr where sub: "map_of (ss_subscriptions ss) i = Some sub"
    and sub1: "Subscription_tick asp now reason (ss_publish_request_queue ss \<noteq> []) sub = Inr sub1"
    and sub2: "process_notifications i sub1 (ss_publish_request_queue ss) (ss_transmission_queue ss) = (sub2, requests, tr)"
    and ss': "ss' = ss \<lparr> ss_publish_request_queue := requests, ss_transmission_queue := tr,
       ss_subscriptions := (if ready_to_remove sub2 then btree_remove i (ss_subscriptions ss)
         else btree_insert i sub2 (ss_subscriptions ss)) \<rparr>"
    using assms(1) by (rule tick_subscription_cases)
  have ok: "sub_ok now sub" "sub_subscription_id sub = i" "btree_ok (ss_subscriptions ss)"
    using assms(2) sub by (auto simp: subs_ok_def)
  have "sub_ok now sub1" using sub1 Subscription_tick_ok [OF ok(1) order_refl, of asp reason "ss_publish_request_queue ss \<noteq> []"] by auto
  then have "sub_ok now sub2" "sub_subscription_id sub2 = i"
    using process_notifications_keeps [OF sub2] Subscription_tick_id [OF sub1] ok(2) by auto
  then show ?thesis using assms(2) ok(3)
    by (simp add: ss' subs_ok_insert subs_ok_remove map_of_btree_insert map_of_btree_remove)
qed

lemma tick_subscriptions_ok:
  "tick_subscriptions asp now reason ids ss = Inr ss' \<Longrightarrow> subs_ok now (ss_subscriptions ss) \<Longrightarrow> subs_ok now (ss_subscriptions ss')"
  by (induction ids arbitrary: ss) (auto simp: bindR_eq_Inr dest: tick_subscription_ok)

lemma tick_subscription_returns:
  assumes "subs_ok now (ss_subscriptions ss)" "map_of (ss_subscriptions ss) i = Some sub" "\<not> expiring sub"
  shows "\<exists>ss'. tick_subscription asp now reason i ss = Inr ss'"
proof -
  have "sub_ok now sub" using assms(1,2) by (auto simp: subs_ok_def)
  from Subscription_tick_ok [OF this order_refl, of asp reason "ss_publish_request_queue ss \<noteq> []"] obtain sub1 where
    "Subscription_tick asp now reason (ss_publish_request_queue ss \<noteq> []) sub = Inr sub1"
    using assms(3) by (auto simp: expiring_def)
  then show ?thesis by (simp add: tick_subscription_def assms(2) split: prod.split)
qed

lemma tick_subscriptions_return:
  assumes "subs_ok now (ss_subscriptions ss)" "distinct ids"
    and "\<forall>i \<in> set ids. \<exists>sub. map_of (ss_subscriptions ss) i = Some sub \<and> \<not> expiring sub"
  shows "\<exists>ss'. tick_subscriptions asp now reason ids ss = Inr ss'"
  using assms
proof (induction ids arbitrary: ss)
  case (Cons i ids)
  then obtain ss1 where ss1: "tick_subscription asp now reason i ss = Inr ss1"
    using tick_subscription_returns [of now ss i] by fastforce
  note ok = tick_subscription_ok [OF ss1 Cons.prems(1)]
  have "\<exists>ss'. tick_subscriptions asp now reason ids ss1 = Inr ss'"
    using ok Cons.prems(2,3) by (intro Cons.IH) fastforce+
  then show ?case by (simp add: ss1)
qed simp

lemma subscription_ids_sorted:
  assumes "subs_ok now (ss_subscriptions ss)"
  shows "distinct (subscription_ids_by_priority ss)"
    and "set (subscription_ids_by_priority ss) = dom (map_of (ss_subscriptions ss))"
proof -
  let ?m = "ss_subscriptions ss"
  have ids: "sub_subscription_id sub = i" if "(i, sub) \<in> set ?m" for i sub
    using assms btree_ok_distinct [of ?m] that map_of_is_SomeI [of ?m i sub] by (auto simp: subs_ok_def)
  have "mset (subscription_ids_by_priority ss) = mset (map fst ?m)"
  proof -
    have "map (sub_subscription_id \<circ> snd) ?m = map fst ?m" using ids by auto
    then have "mset (map fst ?m) = mset (map (sub_subscription_id \<circ> snd) ?m)" by (rule arg_cong [OF sym])
    also have "\<dots> = mset (subscription_ids_by_priority ss)"
      by (simp add: subscription_ids_by_priority_def image_mset.compositionality comp_def case_prod_beta)
    finally show ?thesis by simp
  qed
  moreover have "distinct (map fst ?m)" using assms btree_ok_distinct by (auto simp: subs_ok_def)
  ultimately show "distinct (subscription_ids_by_priority ss)" "set (subscription_ids_by_priority ss) = dom (map_of ?m)"
    by (metis mset_eq_imp_distinct_iff, metis dom_map_of_conv_image_fst list.set_map mset_eq_setD)
qed

lemma Subscriptions_tick_ok:
  assumes "Subscriptions_tick asp now reason ss = Inr ss'" "session_ok now ss"
  shows "session_ok now ss' \<and> length (ss_retransmission_queue ss') \<le> 4 * length (ss_subscriptions ss') \<and>
    (\<forall>k n. map_of (ss_retransmission_queue ss') k = Some n \<longrightarrow> map_of (ss_subscriptions ss') (fst k) \<noteq> None)"
proof -
  obtain ss1 where ticks: "tick_subscriptions asp now reason (subscription_ids_by_priority ss) ss = Inr ss1"
    and ss': "ss' = remove_old_unacknowledged_notifications (make_publish_responses now ss1)"
    using assms(1) by (auto simp: Subscriptions_tick_def bindR_eq_Inr)
  let ?ss2 = "make_publish_responses now ss1"
  note frame = make_publish_responses_frame [of now ss1]
  have ok1: "subs_ok now (ss_subscriptions ?ss2)" "ss_transmission_queue ?ss2 = []"
    using tick_subscriptions_ok [OF ticks] assms(2) frame by (auto simp: session_ok_def)
  have ok2: "retransmission_ok (ss_retransmission_queue ?ss2)"
    using frame tick_subscriptions_frame [OF ticks] assms(2)
      retransmission_ok_responses [of "ss_retransmission_queue ss1" "rev (ss_transmission_queue ss1)"]
    by (auto simp: session_ok_def tick_frame_def)
  have kept: "ss_retransmission_queue ss' =
      drop (length (live_notifications ?ss2) - 4 * length (ss_subscriptions ?ss2)) (live_notifications ?ss2)"
    unfolding ss' using retransmission_kept ok2 by (auto simp: retransmission_ok_def)
  have "map_of (ss_subscriptions ?ss2) (fst k) \<noteq> None" if "map_of (ss_retransmission_queue ss') k = Some n" for k n
    using map_of_SomeD [OF that] by (auto simp: kept live_notifications_def dest!: in_set_dropD)
  then show ?thesis
    using ok1 remove_old_retransmission_ok [OF ok2] kept by (auto simp: session_ok_def ss' remove_notifications_frame)
qed

lemma Subscriptions_tick_returns:
  assumes "session_ok now ss" "\<forall>i sub. map_of (ss_subscriptions ss) i = Some sub \<longrightarrow> \<not> expiring sub"
  shows "\<exists>ss'. Subscriptions_tick asp now reason ss = Inr ss'"
proof -
  have ok: "subs_ok now (ss_subscriptions ss)" using assms(1) by (simp add: session_ok_def)
  have "\<exists>ss1. tick_subscriptions asp now reason (subscription_ids_by_priority ss) ss = Inr ss1"
    using subscription_ids_sorted [OF ok] assms(2) by (intro tick_subscriptions_return [OF ok]) auto
  then show ?thesis by (auto simp: Subscriptions_tick_def)
qed

end
