(* ===== verification/Opc_Session_Services.thy ===== *)
theory Opc_Session_Services
  imports Opc_Session_Publishing
begin

text \<open>
  Runs of a session: any sequence of the requests of the subscription service and of the monitored
  item service, of ticks of the timer, of expiring requests and of responses sent to the client. The
  properties of the publishing protocol are proved for every state such a run can reach.
\<close>

section \<open>The limits of the server\<close>

text \<open>The configuration of the limits is consistent: the defaults of the server are.\<close>

definition server_ok :: "ServerState \<Rightarrow> bool" where
  "server_ok st \<longleftrightarrow> f_lt (Finite 0) (f64_val (st_min_publishing_interval_ms st)) \<and>
     0 < st_default_keep_alive_count st \<and> st_default_keep_alive_count st \<le> st_max_keep_alive_count st \<and>
     3 * unat (st_max_keep_alive_count st) \<le> unat (st_max_lifetime_count st) \<and> 0 < st_max_monitored_item_queue_size st"

lemma f_pos_le: "f_lt (Finite 0) x \<Longrightarrow> f_le x y \<Longrightarrow> \<not> f_le y (Finite 0)"
  by (cases x; cases y) (auto simp: f_lt_def f_le_def f_eq_def)

lemma mul_u32_3: "3 * unat k \<le> unat (l :: u32) \<Longrightarrow> mul_u32 k 3 = Inr (3 * k) \<and> unat (3 * k) = 3 * unat k"
proof -
  assume "3 * unat k \<le> unat l"
  moreover have "unat l < 2 ^ 32" by (rule order_less_le_trans [OF unsigned_less]) simp
  ultimately have small: "3 * unat k < 2 ^ 32" by simp
  then have "unat (3 * k) = 3 * unat k" using unat_mult_lem [of 3 k] by simp
  then show ?thesis using small by (simp add: mul_u32_def mult.commute)
qed

lemma revise_subscription_values_ok:
  assumes "server_ok st"
  shows "\<exists>interval k l. revise_subscription_values st requested_interval requested_k requested_l = Inr (interval, k, l) \<and>
    f_le (f64_val (st_min_publishing_interval_ms st)) (f64_val interval) \<and>
    0 < k \<and> k \<le> st_max_keep_alive_count st \<and> 3 * unat k \<le> unat l \<and> l \<le> st_max_lifetime_count st \<and>
    (f_le (f64_val (st_min_publishing_interval_ms st)) (f64_val requested_interval) \<and> 0 < requested_k \<and>
      requested_k \<le> st_max_keep_alive_count st \<and> 3 * unat requested_k \<le> unat requested_l \<and>
      requested_l \<le> st_max_lifetime_count st \<longrightarrow> interval = requested_interval \<and> k = requested_k \<and> l = requested_l)"
proof -
  define k where "k = (if requested_k > st_max_keep_alive_count st then st_max_keep_alive_count st
    else if requested_k = 0 then st_default_keep_alive_count st else requested_k)"
  have k: "0 < k" "k \<le> st_max_keep_alive_count st"
    using assms by (auto simp: k_def server_ok_def word_neq_0_conv intro: less_le_trans)
  then have le: "3 * unat k \<le> unat (st_max_lifetime_count st)"
    using assms by (auto simp: server_ok_def word_le_nat_alt)
  note m = mul_u32_3 [OF le]
  have min: "f64_val (st_min_publishing_interval_ms st) \<noteq> NotANumber"
    using assms by (auto simp: server_ok_def f_lt_def)
  have interval: "f_le (f64_val (st_min_publishing_interval_ms st)) (f64_val requested_interval) \<longrightarrow>
      f64_max requested_interval (st_min_publishing_interval_ms st) = requested_interval"
    using min by (auto simp: f64_max_def)
  have unchanged: "k = requested_k" if "0 < requested_k" "requested_k \<le> st_max_keep_alive_count st"
    using that by (auto simp: k_def)
  show ?thesis
    unfolding revise_subscription_values_def k_def [symmetric] Let_def
    using m k le interval f64_max_ge [OF min] unchanged by (auto simp: word_less_nat_alt word_le_nat_alt)
qed

section \<open>Accounting for publish requests\<close>

text \<open>The ids of the requests that wait and of the responses that are not yet sent.\<close>

definition in_hand :: "'f Subscriptions \<Rightarrow> u32 multiset" where
  "in_hand ss = mset (map pse_request_id (ss_publish_response_queue ss)) + mset (map pre_request_id (ss_publish_request_queue ss))"

lemma in_hand_subscriptions [simp]: "in_hand (ss \<lparr> ss_subscriptions := m \<rparr>) = in_hand ss"
  by (simp add: in_hand_def)

lemma in_hand_retransmission [simp]: "in_hand (ss \<lparr> ss_retransmission_queue := q \<rparr>) = in_hand ss"
  by (simp add: in_hand_def)

lemma Subscriptions_tick_in_hand:
  assumes "Subscriptions_tick asp now reason ss = Inr ss'" "session_ok now ss"
  shows "in_hand ss' = in_hand ss"
proof -
  obtain new where new: "ss_publish_response_queue ss' = ss_publish_response_queue ss @ new"
    "map pse_request_id new @ rev (map pre_request_id (ss_publish_request_queue ss')) =
      rev (map pre_request_id (ss_publish_request_queue ss))"
    using Subscriptions_tick_answers [OF assms(1)] assms(2) by (auto simp: session_ok_def)
  from arg_cong [OF new(2), of mset] show ?thesis by (simp add: in_hand_def new(1) add.assoc)
qed

lemma retain_publish_requests_ids:
  "retain_publish_requests now clock timeout entries expired = Inr (retained, expired') \<Longrightarrow>
     mset (map pse_request_id expired') + mset (map pre_request_id retained) =
       mset (map pse_request_id expired) + mset (map pre_request_id entries)"
proof (induction entries arbitrary: expired retained expired')
  case (Cons entry entries)
  then obtain stale where "publish_request_expired now timeout entry = Inr stale" by (auto simp: bindR_eq_Inr)
  then show ?case using Cons by (cases stale) (fastforce simp: mapR_eq_Inr)+
qed simp

lemma expire_stale_publish_requests_ok:
  assumes "expire_stale_publish_requests now clock ss = Inr ss'"
  shows "in_hand ss' = in_hand ss" "session_ok t ss \<Longrightarrow> session_ok t ss'"
  using assms
  by (auto simp: expire_stale_publish_requests_def mapR_eq_Inr in_hand_def session_ok_def add.assoc
      dest!: retain_publish_requests_ids)

lemma acknowledge_ok: "retransmission_ok q \<Longrightarrow> retransmission_ok (snd (acknowledge m acks q))"
  by (induction m acks q rule: acknowledge.induct) (auto simp: Let_def retransmission_ok_remove split: prod.splits)

lemma process_subscription_acknowledgements_ok:
  assumes "process_subscription_acknowledgements request ss = (results, ss')"
  shows "in_hand ss' = in_hand ss" "session_ok now ss \<Longrightarrow> session_ok now ss'"
    "ss_publish_request_queue ss' = ss_publish_request_queue ss" "ss_publish_response_queue ss' = ss_publish_response_queue ss"
  using assms acknowledge_ok [of "ss_retransmission_queue ss" "ss_subscriptions ss"]
  by (auto simp: process_subscription_acknowledgements_def session_ok_def split: option.splits prod.splits) (metis snd_conv)+

lemma enqueue_publish_request_ok:
  assumes "enqueue_publish_request asp now rid request ss = Inr (result, ss')" "session_ok now ss"
  shows "session_ok now ss' \<and> in_hand ss' = in_hand ss + (if isl result then {#} else {#rid#})"
proof -
  let ?capacity = "max_publish_requests ss"
  obtain ss1 where ss1: "(if length (ss_publish_request_queue ss) \<ge> ?capacity then Subscriptions_tick asp now ReceivePublishRequest ss
      else Inr ss) = Inr ss1"
    using assms(1) by (auto simp: enqueue_publish_request_def Let_def bindR_eq_Inr)
  have ok1: "session_ok now ss1" "in_hand ss1 = in_hand ss"
    using ss1 assms(2) by (auto split: if_splits dest: Subscriptions_tick_ok Subscriptions_tick_in_hand)
  show ?thesis
  proof (cases "length (ss_publish_request_queue ss1) \<ge> ?capacity")
    case True
    then show ?thesis using assms(1) ss1 ok1 by (auto simp: enqueue_publish_request_def Let_def)
  next
    case False
    obtain results ss2 where ss2: "process_subscription_acknowledgements request ss1 = (results, ss2)" by fastforce
    let ?entry = "\<lparr> pre_request_id = rid, pre_request = request, pre_results = results \<rparr>"
    let ?ss3 = "ss2 \<lparr> ss_publish_request_queue := ?entry # ss_publish_request_queue ss2 \<rparr>"
    note ok2 = process_subscription_acknowledgements_ok [OF ss2]
    have tick: "Subscriptions_tick asp now ReceivePublishRequest ?ss3 = Inr ss'" "result = Inr ()"
      using assms(1) ss1 ss2 False by (auto simp: enqueue_publish_request_def Let_def mapR_eq_Inr)
    have ok3: "session_ok now ?ss3" using ok2(2) [OF ok1(1)] by (simp add: session_ok_def)
    have "in_hand ?ss3 = in_hand ss + {#rid#}" using ok1(2) ok2(1) by (simp add: in_hand_def)
    then show ?thesis
      using Subscriptions_tick_ok [OF tick(1) ok3] Subscriptions_tick_in_hand [OF tick(1) ok3] tick(2) by simp
  qed
qed

section \<open>The other services\<close>

lemma session_ok_insert:
  "session_ok now ss \<Longrightarrow> sub_ok now sub \<Longrightarrow> sub_subscription_id sub = i \<Longrightarrow>
     session_ok now (ss \<lparr> ss_subscriptions := btree_insert i sub (ss_subscriptions ss) \<rparr>)"
  by (simp add: session_ok_def subs_ok_insert)

lemma session_ok_lookup:
  "session_ok now ss \<Longrightarrow> map_of (ss_subscriptions ss) i = Some sub \<Longrightarrow> sub_ok now sub \<and> sub_subscription_id sub = i"
  by (auto simp: session_ok_def subs_ok_def)

lemma sub_ok_timing:
  assumes "sub_ok now sub" "1 < l" "0 < k" "\<not> f_le (f64_val interval) (Finite 0)"
  shows "sub_ok now (reset_keep_alive_counter (reset_lifetime_counter
    (sub \<lparr> sub_publishing_interval := interval, sub_max_keep_alive_counter := k, sub_max_lifetime_counter := l,
      sub_priority := priority \<rparr>)))"
  using assms by (auto simp: sub_ok_def counters_ok_def sequence_ok_def reset_lifetime_counter_def reset_keep_alive_counter_def
      word_gt_0_of_1)

lemma revised_timing_ok:
  assumes "server_ok st" "revise_subscription_values st a b c = Inr (interval, k, l)"
  shows "1 < l" "0 < k" "\<not> f_le (f64_val interval) (Finite 0)"
proof -
  have revised: "f_le (f64_val (st_min_publishing_interval_ms st)) (f64_val interval)" "0 < k" "3 * unat k \<le> unat l"
    using revise_subscription_values_ok [OF assms(1), of a b c] assms(2) by auto
  then show "1 < l" "0 < k" by (auto simp: word_less_nat_alt)
  show "\<not> f_le (f64_val interval) (Finite 0)" using f_pos_le revised(1) assms(1) by (auto simp: server_ok_def)
qed

lemma create_subscription_ok:
  assumes "create_subscription now clock request st ss = Inr (reply, st', ss')" "session_ok now ss" "server_ok st"
  shows "session_ok now ss' \<and> server_ok st' \<and> in_hand ss' = in_hand ss"
proof -
  have new_ok: "sub_ok now (Subscription_new now i enabled interval l k priority)"
    if "1 < l" "0 < k" "\<not> f_le (f64_val interval) (Finite 0)" for i enabled interval l k priority
    by (rule subscription_reachable_ok [OF subscription_reachable.created [OF that]])
  have server: "server_ok (st \<lparr> st_last_subscription_id := i \<rparr>)" for i using assms(3) by (simp add: server_ok_def)
  show ?thesis
    using assms(1,2,3) server
    by (auto simp: create_subscription_def create_subscription_id_def bindR_eq_Inr mapR_eq_Inr split: if_splits
        intro!: session_ok_insert new_ok dest: revised_timing_ok [OF server]) (simp_all add: Subscription_new_def)
qed

lemma modify_subscription_ok:
  assumes "modify_subscription clock request st ss = Inr (reply, ss')" "session_ok now ss" "server_ok st"
  shows "session_ok now ss' \<and> in_hand ss' = in_hand ss"
proof (cases "map_of (ss_subscriptions ss) (mq_subscription_id request)")
  case None
  then show ?thesis using assms by (simp add: modify_subscription_def)
next
  case (Some sub)
  note ok = session_ok_lookup [OF assms(2) Some]
  show ?thesis
    using assms(1,2) Some ok
    by (auto simp: modify_subscription_def bindR_eq_Inr Let_def intro!: session_ok_insert sub_ok_timing
        dest: revised_timing_ok [OF assms(3)]) (simp_all add: reset_keep_alive_counter_def reset_lifetime_counter_def)
qed

lemma sub_ok_enabled [simp]: "sub_ok now (sub \<lparr> sub_publishing_enabled := enabled \<rparr>) = sub_ok now sub"
  by (simp add: sub_ok_def counters_ok_def sequence_ok_def)

lemma reset_lifetime_counter_id [simp]: "sub_subscription_id (reset_lifetime_counter sub) = sub_subscription_id sub"
  by (simp add: reset_lifetime_counter_def)

lemma publishing_modes_ok: "subs_ok now m \<Longrightarrow> subs_ok now (snd (publishing_modes enabled ids m))"
proof (induction enabled ids m rule: publishing_modes.induct)
  case (2 enabled i ids m)
  have "subs_ok now (btree_insert i (reset_lifetime_counter (sub \<lparr> sub_publishing_enabled := enabled \<rparr>)) m)"
    if "map_of m i = Some sub" for sub
    using that 2(2)
    by (intro subs_ok_insert sub_ok_reset) (auto simp: subs_ok_def)
  then show ?case using 2 by (auto simp: Let_def split: prod.splits option.splits)
qed simp

lemma set_publishing_mode_ok:
  assumes "session_ok now ss"
  shows "session_ok now (snd (set_publishing_mode clock header enabled ids ss))"
    "in_hand (snd (set_publishing_mode clock header enabled ids ss)) = in_hand ss"
  using assms publishing_modes_ok [of now "ss_subscriptions ss" enabled]
  by (auto simp: set_publishing_mode_def session_ok_def split: option.split prod.split) (metis snd_conv)

lemma remove_subscriptions_ok: "subs_ok now m \<Longrightarrow> subs_ok now (snd (remove_subscriptions ids m))"
  by (induction ids m rule: remove_subscriptions.induct) (auto simp: Let_def subs_ok_remove split: prod.splits)

lemma delete_subscriptions_ok:
  assumes "session_ok now ss"
  shows "session_ok now (snd (delete_subscriptions clock header ids ss))"
    "in_hand (snd (delete_subscriptions clock header ids ss)) = in_hand ss"
  using assms remove_subscriptions_ok [of now "ss_subscriptions ss"]
  by (auto simp: delete_subscriptions_def session_ok_def split: option.split prod.split) (metis snd_conv)

lemma republish_ok:
  assumes "session_ok now ss"
  shows "session_ok now (snd (republish clock header i number ss)) \<and>
    in_hand (snd (republish clock header i number ss)) = in_hand ss"
  using assms session_ok_lookup [OF assms]
  by (auto simp: republish_def reset_subscription_lifetime_counter_def split: sum.split option.split
      intro!: session_ok_insert sub_ok_reset)

lemma async_publish_ok:
  assumes "async_publish asp now clock rid request ss = Inr (reply, ss')" "session_ok now ss"
  shows "session_ok now ss' \<and> in_hand ss' = in_hand ss + (if reply = None then {#rid#} else {#})"
proof (cases "ss_subscriptions ss = []")
  case False
  then obtain result where result: "enqueue_publish_request asp now rid request ss = Inr (result, ss')"
    and reply: "reply = (case result of Inl code \<Rightarrow> Some (ServiceFault_new clock (pq_request_header request) code) | Inr _ \<Rightarrow> None)"
    using assms(1) by (auto simp: async_publish_def mapR_eq_Inr)
  show ?thesis using enqueue_publish_request_ok [OF result assms(2)] reply by (cases result) auto
qed (use assms in \<open>auto simp: async_publish_def\<close>)

text \<open>The handlers of the monitored item service keep the invariant because the operations of the subscription do.\<close>

definition keeps_sub :: "int \<Rightarrow> ('f Subscription \<Rightarrow> ('a \<times> 'f Subscription) res) \<Rightarrow> bool" where
  "keeps_sub now f \<longleftrightarrow>
     (\<forall>sub x sub'. sub_ok now sub \<longrightarrow> f sub = Inr (x, sub') \<longrightarrow> sub_ok now sub' \<and> sub_subscription_id sub' = sub_subscription_id sub)"

lemma with_subscription_ok:
  assumes "with_subscription clock header i operation ss = Inr (reply, ss')" "session_ok now ss" "keeps_sub now operation"
  shows "session_ok now ss' \<and> in_hand ss' = in_hand ss"
proof (cases "map_of (ss_subscriptions ss) i")
  case None
  then show ?thesis using assms by (simp add: with_subscription_def)
next
  case (Some sub)
  then obtain sub' where sub': "operation sub = Inr (reply, sub')"
    and ss': "ss' = ss \<lparr> ss_subscriptions := btree_insert i sub' (ss_subscriptions ss) \<rparr>"
    using assms(1) by (auto simp: with_subscription_def mapR_eq_Inr)
  have "sub_ok now sub' \<and> sub_subscription_id sub' = i"
    using assms(3) sub' session_ok_lookup [OF assms(2) Some] unfolding keeps_sub_def by blast
  then show ?thesis by (simp add: ss' session_ok_insert assms(2))
qed

lemma keeps_subI:
  "(\<And>sub x sub'. sub_ok now sub \<Longrightarrow> f sub = Inr (x, sub') \<Longrightarrow>
     sub_ok now sub' \<and> sub_subscription_id sub' = sub_subscription_id sub) \<Longrightarrow> keeps_sub now f"
  unfolding keeps_sub_def by blast

lemma keeps_subD:
  "keeps_sub now f \<Longrightarrow> sub_ok now sub \<Longrightarrow> f sub = Inr (x, sub') \<Longrightarrow>
     sub_ok now sub' \<and> sub_subscription_id sub' = sub_subscription_id sub"
  unfolding keeps_sub_def by blast

lemma keeps_sub_mapR:
  assumes "keeps_sub now f"
  shows "keeps_sub now (\<lambda>sub. mapR (\<lambda>(x, sub'). (g x, sub')) (f sub))"
proof (rule keeps_subI)
  fix sub x sub'
  assume ok: "sub_ok now sub" and run: "mapR (\<lambda>(x, sub'). (g x, sub')) (f sub) = Inr (x, sub')"
  then obtain y where "f sub = Inr (y, sub')" by (auto simp: mapR_eq_Inr)
  then show "sub_ok now sub' \<and> sub_subscription_id sub' = sub_subscription_id sub" by (rule keeps_subD [OF assms ok])
qed

lemma keeps_sub_map_state:
  assumes "\<And>r. keeps_sub now (f r)"
  shows "keeps_sub now (map_state f rs)"
proof (rule keeps_subI)
  fix sub xs sub'
  assume sub: "sub_ok now sub" and run: "map_state f rs sub = Inr (xs, sub')"
  let ?P = "\<lambda>s. sub_ok now s \<and> sub_subscription_id s = sub_subscription_id sub"
  have step: "?P s'" if "?P s" "f r s = Inr (x, s')" for r s x s'
    using keeps_subD [OF assms, of s r x s'] that by simp
  have start: "?P sub" using sub by simp
  show "sub_ok now sub' \<and> sub_subscription_id sub' = sub_subscription_id sub"
    by (rule map_state_keeps [of ?P f, OF step start run])
qed

lemma keeps_sub_reset: "keeps_sub now f \<Longrightarrow> keeps_sub now (\<lambda>sub. f (reset_lifetime_counter sub))"
  by (rule keeps_subI) (drule keeps_subD, erule sub_ok_reset, assumption, simp)

lemma create_monitored_item_id:
  "create_monitored_item asp st now timestamps request sub = Inr (x, sub') \<Longrightarrow> sub_subscription_id sub' = sub_subscription_id sub"
  by (auto simp: create_monitored_item_def Let_def mapR_eq_Inr split: prod.splits if_splits sum.splits fault.splits)

lemma modify_monitored_item_id:
  "modify_monitored_item asp st timestamps request sub = Inr (x, sub') \<Longrightarrow> sub_subscription_id sub' = sub_subscription_id sub"
  by (auto simp: modify_monitored_item_def Let_def split: prod.splits option.splits sum.splits fault.splits)

lemma keeps_sub_create:
  assumes "0 < st_max_monitored_item_queue_size st"
  shows "keeps_sub now (create_monitored_items asp st now timestamps requests)"
proof -
  have "keeps_sub now (create_monitored_item asp st now timestamps r)" for r
    by (intro keeps_subI conjI) (rule create_monitored_item_ok [OF _ assms], assumption+, rule create_monitored_item_id)
  then show ?thesis unfolding create_monitored_items_def [abs_def] by (intro keeps_sub_reset keeps_sub_map_state)
qed

lemma keeps_sub_modify:
  assumes "0 < st_max_monitored_item_queue_size st"
  shows "keeps_sub now (modify_monitored_items asp st timestamps requests)"
proof -
  have "keeps_sub now (modify_monitored_item asp st timestamps r)" for r
    by (intro keeps_subI conjI) (rule modify_monitored_item_ok [OF _ assms], assumption+, rule modify_monitored_item_id)
  then show ?thesis unfolding modify_monitored_items_def [abs_def] by (intro keeps_sub_reset keeps_sub_map_state)
qed

lemma keeps_sub_delete: "keeps_sub now (delete_monitored_items ids)"
proof -
  have "delete_monitored_item r sub = Inr (x, sub') \<Longrightarrow> sub_subscription_id sub' = sub_subscription_id sub"
    for r x and sub sub' :: "'a Subscription"
    by (auto simp: delete_monitored_item_def split: if_splits)
  then have "keeps_sub now (delete_monitored_item r :: 'a Subscription \<Rightarrow> _)" for r
    by (intro keeps_subI conjI) (rule delete_monitored_item_ok)
  then show ?thesis unfolding delete_monitored_items_def [abs_def] by (intro keeps_sub_reset keeps_sub_map_state)
qed

lemma keeps_sub_modes: "keeps_sub now (map_state (\<lambda>j sub. Inr (set_monitoring_mode j mode sub)) ids)"
proof (rule keeps_sub_map_state)
  fix j
  have "sub_subscription_id (snd (set_monitoring_mode j mode sub)) = sub_subscription_id sub"
    for sub :: "'a Subscription"
    by (simp add: set_monitoring_mode_def split: option.split)
  note kept = this
  show "keeps_sub now (\<lambda>sub :: 'a Subscription. Inr (set_monitoring_mode j mode sub))"
  proof (rule keeps_subI)
    fix sub :: "'a Subscription" and x sub'
    assume "sub_ok now sub" "Inr (set_monitoring_mode j mode sub) = Inr (x, sub')"
    then show "sub_ok now sub' \<and> sub_subscription_id sub' = sub_subscription_id sub"
      using set_monitoring_mode_ok [of now sub j mode] kept [of sub] by simp
  qed
qed

lemma keeps_sub_triggering:
  "keeps_sub now (\<lambda>sub. case set_triggering j adds removes sub of
      (Inr (add_results, remove_results), sub') \<Rightarrow> Inr (f add_results remove_results, sub')
    | (Inl (Err code), sub') \<Rightarrow> Inr (g code, sub')
    | (Inl e, sub') \<Rightarrow> Inl e)"
proof (rule keeps_subI)
  fix sub x sub'
  assume ok: "sub_ok now sub" and run: "(case set_triggering j adds removes sub of
      (Inr (add_results, remove_results), sub') \<Rightarrow> Inr (f add_results remove_results, sub')
    | (Inl (Err code), sub') \<Rightarrow> Inr (g code, sub')
    | (Inl e, sub') \<Rightarrow> Inl e) = Inr (x, sub')"
  have "sub' = snd (set_triggering j adds removes sub)"
    using run by (auto split: prod.splits sum.splits fault.splits)
  moreover have "sub_subscription_id (snd (set_triggering j adds removes sub)) = sub_subscription_id sub"
    by (simp add: set_triggering_def split: option.split prod.split)
  ultimately show "sub_ok now sub' \<and> sub_subscription_id sub' = sub_subscription_id sub"
    using set_triggering_ok [OF ok, of j adds removes] by simp
qed

lemma item_service_ok:
  assumes "session_ok now ss" "server_ok st"
  shows "service_create_monitored_items asp st now clock header i timestamps items ss = Inr (reply, ss') \<Longrightarrow>
      session_ok now ss' \<and> in_hand ss' = in_hand ss"
    and "service_modify_monitored_items asp st clock header i timestamps modifications ss = Inr (reply, ss') \<Longrightarrow>
      session_ok now ss' \<and> in_hand ss' = in_hand ss"
    and "service_set_monitoring_mode clock header i mode ids ss = Inr (reply, ss') \<Longrightarrow>
      session_ok now ss' \<and> in_hand ss' = in_hand ss"
    and "service_set_triggering clock header i j adds removes ss = Inr (reply, ss') \<Longrightarrow>
      session_ok now ss' \<and> in_hand ss' = in_hand ss"
    and "service_delete_monitored_items clock header i ids ss = Inr (reply, ss') \<Longrightarrow>
      session_ok now ss' \<and> in_hand ss' = in_hand ss"
proof -
  have q: "0 < st_max_monitored_item_queue_size st" using assms(2) by (simp add: server_ok_def)
  note ok = with_subscription_ok [OF _ assms(1)]
  show "service_create_monitored_items asp st now clock header i timestamps items ss = Inr (reply, ss') \<Longrightarrow>
      session_ok now ss' \<and> in_hand ss' = in_hand ss"
    using assms(1) ok [OF _ keeps_sub_mapR [OF keeps_sub_create [OF q]]]
    unfolding service_create_monitored_items_def by (simp split: if_splits)
  show "service_modify_monitored_items asp st clock header i timestamps modifications ss = Inr (reply, ss') \<Longrightarrow>
      session_ok now ss' \<and> in_hand ss' = in_hand ss"
    using assms(1) ok [OF _ keeps_sub_mapR [OF keeps_sub_modify [OF q]]]
    unfolding service_modify_monitored_items_def by (simp split: if_splits)
  show "service_set_monitoring_mode clock header i mode ids ss = Inr (reply, ss') \<Longrightarrow>
      session_ok now ss' \<and> in_hand ss' = in_hand ss"
    using assms(1) ok [OF _ keeps_sub_mapR [OF keeps_sub_modes]]
    unfolding service_set_monitoring_mode_def by (simp split: if_splits)
  show "service_set_triggering clock header i j adds removes ss = Inr (reply, ss') \<Longrightarrow>
      session_ok now ss' \<and> in_hand ss' = in_hand ss"
    using assms(1) ok [OF _ keeps_sub_triggering]
    unfolding service_set_triggering_def by (simp split: if_splits)
  show "service_delete_monitored_items clock header i ids ss = Inr (reply, ss') \<Longrightarrow>
      session_ok now ss' \<and> in_hand ss' = in_hand ss"
    using assms(1) ok [OF _ keeps_sub_mapR [OF keeps_sub_delete]]
    unfolding service_delete_monitored_items_def by (simp split: if_splits)
qed

section \<open>Runs of a session\<close>

text \<open>\<open>session_run now st ss accepted sent\<close>: the server and the subscriptions of a session are in the states
  \<open>st\<close> and \<open>ss\<close>, the publish requests with the ids \<open>accepted\<close> were taken in, and the publish responses \<open>sent\<close>
  were handed to the connection. Time does not run backwards.\<close>

inductive session_run ::
  "int \<Rightarrow> ServerState \<Rightarrow> 'f Subscriptions \<Rightarrow> u32 list \<Rightarrow> PublishResponseEntry list \<Rightarrow> bool" where
  started: "server_ok st \<Longrightarrow> session_run now st (Subscriptions_new timeout) [] []"
| passed: "session_run t st ss accepted sent \<Longrightarrow> t \<le> now \<Longrightarrow> session_run now st ss accepted sent"
| created: "session_run now st ss accepted sent \<Longrightarrow> create_subscription now clock request st ss = Inr (reply, st', ss') \<Longrightarrow>
    session_run now st' ss' accepted sent"
| modified: "session_run now st ss accepted sent \<Longrightarrow> modify_subscription clock modification st ss = Inr (reply, ss') \<Longrightarrow>
    session_run now st ss' accepted sent"
| mode_set: "session_run now st ss accepted sent \<Longrightarrow>
    session_run now st (snd (set_publishing_mode clock header enabled ids ss)) accepted sent"
| deleted: "session_run now st ss accepted sent \<Longrightarrow>
    session_run now st (snd (delete_subscriptions clock header ids ss)) accepted sent"
| republished: "session_run now st ss accepted sent \<Longrightarrow>
    session_run now st (snd (republish clock header i number ss)) accepted sent"
| published: "session_run now st ss accepted sent \<Longrightarrow> async_publish asp now clock rid publish ss = Inr (response, ss') \<Longrightarrow>
    session_run now st ss' (if response = None then accepted @ [rid] else accepted) sent"
| ticked: "session_run now st ss accepted sent \<Longrightarrow> Subscriptions_tick asp now TickTimerFired ss = Inr ss' \<Longrightarrow>
    session_run now st ss' accepted sent"
| expired: "session_run now st ss accepted sent \<Longrightarrow> expire_stale_publish_requests now clock ss = Inr ss' \<Longrightarrow>
    session_run now st ss' accepted sent"
| responses_taken: "session_run now st ss accepted sent \<Longrightarrow> take_publish_responses ss = (responses, ss') \<Longrightarrow>
    session_run now st ss' accepted (sent @ vec_of responses)"
| items_created: "session_run now st ss accepted sent \<Longrightarrow>
    service_create_monitored_items asp st now clock header i timestamps items ss = Inr (item_reply, ss') \<Longrightarrow>
    session_run now st ss' accepted sent"
| items_modified: "session_run now st ss accepted sent \<Longrightarrow>
    service_modify_monitored_items asp st clock header i timestamps modifications ss = Inr (item_reply, ss') \<Longrightarrow>
    session_run now st ss' accepted sent"
| monitoring_mode_set: "session_run now st ss accepted sent \<Longrightarrow>
    service_set_monitoring_mode clock header i mode ids ss = Inr (item_reply, ss') \<Longrightarrow> session_run now st ss' accepted sent"
| triggering_set: "session_run now st ss accepted sent \<Longrightarrow>
    service_set_triggering clock header i j adds removes ss = Inr (item_reply, ss') \<Longrightarrow> session_run now st ss' accepted sent"
| items_deleted: "session_run now st ss accepted sent \<Longrightarrow>
    service_delete_monitored_items clock header i ids ss = Inr (item_reply, ss') \<Longrightarrow> session_run now st ss' accepted sent"

lemma take_publish_responses_ok:
  assumes "take_publish_responses ss = (responses, ss')"
  shows "session_ok now ss \<Longrightarrow> session_ok now ss'"
    "mset (map pse_request_id (vec_of responses)) + in_hand ss' = in_hand ss"
  using assms by (auto simp: take_publish_responses_def session_ok_def in_hand_def vec_of_def split: if_splits)

lemma session_run_ok:
  "session_run now st ss accepted sent \<Longrightarrow>
     session_ok now ss \<and> server_ok st \<and> mset accepted = mset (map pse_request_id sent) + in_hand ss"
proof (induction rule: session_run.induct)
  case (started st now timeout)
  then show ?case
    by (simp add: session_ok_def subs_ok_def retransmission_ok_def btree_ok_def in_hand_def Subscriptions_new_def)
next
  case (passed t st ss accepted sent now)
  then show ?case using session_ok_later by blast
next
  case (created now st ss accepted sent clock request reply st' ss')
  then show ?case using create_subscription_ok [OF created(2)] by simp
next
  case (modified now st ss accepted sent clock modification reply ss')
  then show ?case using modify_subscription_ok [OF modified(2), of now] by simp
next
  case (published now st ss accepted sent asp clock rid publish response ss')
  then show ?case using async_publish_ok [OF published(2)] by simp
next
  case (ticked now st ss accepted sent asp ss')
  then show ?case using Subscriptions_tick_ok [OF ticked(2)] Subscriptions_tick_in_hand [OF ticked(2)] by simp
next
  case (responses_taken now st ss accepted sent responses ss')
  then show ?case
    using take_publish_responses_ok(1) [OF responses_taken(2), of now] take_publish_responses_ok(2) [OF responses_taken(2)]
    by (simp add: add.assoc)
next
  case (mode_set now st ss accepted sent clock header enabled ids)
  then show ?case using set_publishing_mode_ok [of now ss] by simp
next
  case (deleted now st ss accepted sent clock header ids)
  then show ?case using delete_subscriptions_ok [of now ss] by simp
next
  case (republished now st ss accepted sent clock header i number)
  then show ?case using republish_ok [of now ss] by simp
next
  case (expired now st ss accepted sent clock ss')
  then show ?case using expire_stale_publish_requests_ok(1) [OF expired(2)] expire_stale_publish_requests_ok(2) [OF expired(2), of now]
    by simp
next
  case (items_created now st ss accepted sent asp clock header i timestamps items item_reply ss')
  then show ?case using item_service_ok(1) [OF _ _ items_created(2)] by simp
next
  case (items_modified now st ss accepted sent asp clock header i timestamps modifications item_reply ss')
  then show ?case using item_service_ok(2) [OF _ _ items_modified(2), of now] by simp
next
  case (monitoring_mode_set now st ss accepted sent clock header i mode ids item_reply ss')
  then show ?case using item_service_ok(3) [OF _ _ monitoring_mode_set(2), of now st] by simp
next
  case (triggering_set now st ss accepted sent clock header i j adds removes item_reply ss')
  then show ?case using item_service_ok(4) [OF _ _ triggering_set(2), of now st] by simp
next
  case (items_deleted now st ss accepted sent clock header i ids item_reply ss')
  then show ?case using item_service_ok(5) [OF _ _ items_deleted(2), of now st] by simp
qed

section \<open>A sample session\<close>

definition sample_header :: "int \<Rightarrow> RequestHeader" where
  "sample_header time = \<lparr> rqh_authentication_token = NodeId_null, rqh_timestamp = \<lparr> date_time = time \<rparr>,
     rqh_request_handle = 1, rqh_return_diagnostics = 0, rqh_audit_entry_id = UAString_null, rqh_timeout_hint = 0,
     rqh_additional_header = ExtensionObject_null \<rparr>"

definition sample_create :: CreateSubscriptionRequest where
  "sample_create = \<lparr> cq_request_header = sample_header 0, cq_requested_publishing_interval = 0x4059000000000000,
     cq_requested_lifetime_count = 0, cq_requested_max_keep_alive_count = 0, cq_max_notifications_per_publish = 0,
     cq_publishing_enabled = True, cq_priority = 0 \<rparr>"

definition sample_session :: "unit Subscriptions" where
  "sample_session = (Subscriptions_new 60000)
     \<lparr> ss_subscriptions := [(1, Subscription_new 0 1 True 0x4059000000000000 30 10 0)] \<rparr>"

definition sample_request :: "int \<Rightarrow> PublishRequestEntry" where
  "sample_request time =
     \<lparr> pre_request_id = 7, pre_request = \<lparr> pq_request_header = sample_header time, pq_subscription_acknowledgements = None \<rparr>,
       pre_results = None \<rparr>"

definition sample_waiting :: "int \<Rightarrow> unit Subscriptions" where
  "sample_waiting time = sample_session
     \<lparr> ss_publish_request_queue := [sample_request time],
       ss_subscriptions := [(1, (Subscription_new 0 1 True 0x4059000000000000 30 10 0) \<lparr> sub_state := Normal \<rparr>)] \<rparr>"

lemma sample_server_ok: "server_ok sample_server" "server_ok (sample_server \<lparr> st_last_subscription_id := i \<rparr>)"
  by (simp_all add: server_ok_def sample_server_def sample_interval f_lt_def f_le_def f_eq_def)

lemma sample_revised:
  "revise_subscription_values (sample_server \<lparr> st_last_subscription_id := i \<rparr>) 0x4059000000000000 0 0 =
     Inr (0x4059000000000000, 10, 30)"
  by (simp add: revise_subscription_values_def sample_server_def f64_max_def sample_interval f_le_def mul_u32_def Let_def)

lemma sample_session_created:
  "\<exists>reply. create_subscription 0 clock sample_create sample_server (Subscriptions_new 60000) =
     Inr (reply, sample_server \<lparr> st_last_subscription_id := 1 \<rparr>, sample_session)"
proof -
  have "create_subscription_id sample_server = Inr (1, sample_server \<lparr> st_last_subscription_id := 1 \<rparr>)"
    by (simp add: create_subscription_id_def sample_server_def add_u32_def)
  moreover have "st_max_subscriptions sample_server = 100" by (simp add: sample_server_def)
  ultimately show ?thesis
    by (simp add: create_subscription_def sample_create_def sample_revised sample_session_def Subscriptions_new_def)
qed

lemma sample_session_run: "session_run 0 (sample_server \<lparr> st_last_subscription_id := 1 \<rparr>) sample_session [] []"
  using sample_session_created session_run.created [OF session_run.started [OF sample_server_ok(1)]] by blast

lemma sample_tick:
  "Subscriptions_tick asp 0 ReceivePublishRequest (sample_session \<lparr> ss_publish_request_queue := [sample_request time] \<rparr>) =
     Inr (sample_waiting time)"
proof -
  have ids: "subscription_ids_by_priority (sample_session \<lparr> ss_publish_request_queue := [sample_request time] \<rparr>) = [1]"
    by (simp add: subscription_ids_by_priority_def sample_session_def Subscription_new_def)
  have tick: "Subscription_tick asp 0 ReceivePublishRequest True (Subscription_new 0 1 True 0x4059000000000000 30 10 0) =
      Inr ((Subscription_new 0 1 True 0x4059000000000000 30 10 0) \<lparr> sub_state := Normal \<rparr>)"
    by (simp add: Subscription_tick_def interval_elapsed_def Subscription_new_def update_state_def handle_state_result_def)
  have step: "tick_subscription asp 0 ReceivePublishRequest 1 (sample_session \<lparr> ss_publish_request_queue := [sample_request time] \<rparr>) =
      Inr (sample_waiting time)"
    by (simp add: tick_subscription_def sample_session_def Subscriptions_new_def tick sample_waiting_def
        process_notifications.simps take_notification_def ready_to_remove_def) (simp add: Subscription_new_def)
  have clean: "remove_old_unacknowledged_notifications (make_publish_responses 0 (sample_waiting time)) = sample_waiting time"
    by (subst make_publish_responses_empty)
      (simp_all add: sample_waiting_def sample_session_def Subscriptions_new_def remove_old_unacknowledged_notifications_def
        remove_notifications_def)
  show ?thesis by (simp add: Subscriptions_tick_def ids step clean)
qed

lemma sample_published:
  "async_publish asp 0 clock 7 (pre_request (sample_request time)) sample_session = Inr (None, sample_waiting time)"
proof -
  have nonempty: "ss_subscriptions sample_session \<noteq> []" "ss_publish_request_queue sample_session = []"
    "max_publish_requests sample_session = 2"
    by (simp_all add: sample_session_def Subscriptions_new_def max_publish_requests_def)
  have "process_subscription_acknowledgements (pre_request (sample_request time)) sample_session = (None, sample_session)"
    by (simp add: process_subscription_acknowledgements_def sample_request_def)
  then show ?thesis
    using sample_tick [of asp time]
    by (simp add: async_publish_def enqueue_publish_request_def nonempty) (simp add: sample_request_def)
qed

lemma sample_waiting_run: "session_run 0 (sample_server \<lparr> st_last_subscription_id := 1 \<rparr>) (sample_waiting time) [7] []"
  using session_run.published [OF sample_session_run sample_published] by simp

section \<open>Acknowledgements and expiry\<close>

definition ack_key :: "SubscriptionAcknowledgement \<Rightarrow> u32 \<times> u32" where
  "ack_key a = (sa_subscription_id a, sa_sequence_number a)"

lemma acknowledge_lookup:
  "map_of (snd (acknowledge m acks q)) k =
     (if k \<in> ack_key ` set acks \<and> map_of m (fst k) \<noteq> None then None else map_of q k)"
proof (induction m acks q rule: acknowledge.induct)
  case (2 m a acks q)
  then show ?case
    by (cases "map_of m (sa_subscription_id a) = None"; cases "map_of q (ack_key a) = None")
      (auto simp: Let_def ack_key_def map_of_btree_remove split: prod.split)
qed simp

lemma retain_future_panics:
  "entry \<in> set entries \<Longrightarrow> now < date_time (rqh_timestamp (pq_request_header (pre_request entry))) \<Longrightarrow>
     retain_publish_requests now clock timeout entries expired = Inl Panic"
proof (induction entries arbitrary: expired)
  case (Cons first entries)
  show ?case
  proof (cases "publish_request_expired now timeout first")
    case (Inl e)
    then have "e = Panic" by (auto simp: publish_request_expired_def Let_def elapsed_since_def split: if_splits)
    then show ?thesis using Inl by simp
  next
    case (Inr stale)
    then have "entry \<noteq> first" using Cons.prems(2) by (auto simp: publish_request_expired_def Let_def elapsed_since_def split: if_splits)
    then have "retain_publish_requests now clock timeout entries expired' = Inl Panic" for expired'
      using Cons by simp
    then show ?thesis using Inr by simp
  qed
qed simp

section \<open>Properties\<close>

text \<open>C14: Every publish request is answered exactly once. In every state of a session the ids of the
  requests that were taken in are, with multiplicities, the ids of the responses sent, of the
  responses that are ready and of the requests that still wait.\<close>

theorem publish_requests_answered_once:
  assumes "session_run now st ss accepted sent"
  shows "mset accepted = mset (map pse_request_id (sent @ ss_publish_response_queue ss)) +
    mset (map pre_request_id (ss_publish_request_queue ss))"
  using session_run_ok [OF assms] by (simp add: in_hand_def add.assoc)

theorem publish_requests_answered_once_witness:
  "mset [7 :: u32] = mset (map pse_request_id ([] @ ss_publish_response_queue (sample_waiting 0))) +
     mset (map pre_request_id (ss_publish_request_queue (sample_waiting 0)))"
  by (rule publish_requests_answered_once [OF sample_waiting_run])

text \<open>C16: A tick answers publish requests in the order in which they came: the new responses, followed by
  the requests that are left from the oldest on, are the requests from the oldest on.\<close>

theorem publish_responses_in_order:
  assumes "session_run now st ss accepted sent" "Subscriptions_tick asp now reason ss = Inr ss'"
  shows "\<exists>new. ss_publish_response_queue ss' = ss_publish_response_queue ss @ new \<and>
    map pse_request_id new @ rev (map pre_request_id (ss_publish_request_queue ss')) =
      rev (map pre_request_id (ss_publish_request_queue ss))"
  using Subscriptions_tick_answers [OF assms(2)] session_run_ok [OF assms(1)] by (auto simp: session_ok_def)

theorem publish_responses_in_order_witness:
  "\<exists>ss'. Subscriptions_tick (sample_space (\<lambda>_ _. None)) 0 TickTimerFired (sample_waiting 0) = Inr ss' \<and>
     map pse_request_id (ss_publish_response_queue ss') @ rev (map pre_request_id (ss_publish_request_queue ss')) = [7]"
proof -
  have run: "session_run 0 (sample_server \<lparr> st_last_subscription_id := 1 \<rparr>) (sample_waiting 0) [7] []" by (rule sample_waiting_run)
  have "\<exists>ss'. Subscriptions_tick (sample_space (\<lambda>_ _. None)) 0 TickTimerFired (sample_waiting 0) = Inr ss'"
    by (rule Subscriptions_tick_returns)
      (use session_run_ok [OF run] in \<open>auto simp: expiring_def sample_waiting_def Subscription_new_def split: if_splits\<close>)
  then obtain ss' where tick: "Subscriptions_tick (sample_space (\<lambda>_ _. None)) 0 TickTimerFired (sample_waiting 0) = Inr ss'" ..
  show ?thesis
    using publish_responses_in_order [OF run tick] tick
    by (auto simp: sample_waiting_def sample_session_def Subscriptions_new_def sample_request_def)
qed



text \<open>C34: Acknowledging notifications makes exactly these unavailable: afterwards a republish request finds
  what it found before, except for the acknowledged notifications of the subscriptions that exist.\<close>

theorem acknowledged_notifications_removed:
  "find_notification_message i number (snd (process_subscription_acknowledgements request ss)) =
     (if map_of (ss_subscriptions ss) i \<noteq> None \<and>
         \<lparr> sa_subscription_id = i, sa_sequence_number = number \<rparr> \<in> set (vec_of (pq_subscription_acknowledgements request))
      then Inl BadMessageNotAvailable else find_notification_message i number ss)"
proof -
  have key: "(i, number) \<in> ack_key ` set acks \<longleftrightarrow> \<lparr> sa_subscription_id = i, sa_sequence_number = number \<rparr> \<in> set acks" for acks
  proof -
    have "ack_key a = (i, number) \<longleftrightarrow> a = \<lparr> sa_subscription_id = i, sa_sequence_number = number \<rparr>" for a
      by (cases a) (auto simp: ack_key_def)
    then show ?thesis by (metis (no_types, lifting) imageE image_eqI)
  qed
  show ?thesis
    using acknowledge_lookup [of "ss_subscriptions ss" "vec_of (pq_subscription_acknowledgements request)"
        "ss_retransmission_queue ss" "(i, number)"]
    by (auto simp: process_subscription_acknowledgements_def find_notification_message_def vec_of_def key
        split: option.splits prod.splits if_splits)
qed

text \<open>A publish request with a timestamp in the future of the server panics the server when it looks
  for requests that have expired.\<close>

theorem future_publish_request_panics:
  assumes "entry \<in> set (ss_publish_request_queue ss)"
    and "now < date_time (rqh_timestamp (pq_request_header (pre_request entry)))"
  shows "expire_stale_publish_requests now clock ss = Inl Panic"
  using retain_future_panics [OF assms] by (simp add: expire_stale_publish_requests_def)

theorem future_publish_request_panics_witness:
  "expire_stale_publish_requests 5 (DateTime_from_utc 5) (sample_waiting 6) = Inl Panic"
  by (rule future_publish_request_panics [of "sample_request 6"])
    (simp_all add: sample_waiting_def sample_request_def sample_header_def)

text \<open>C35: With consistent limits the revised values of a subscription are within the limits of the server, the
  lifetime is at least three keep-alive periods, and values within the limits are granted as
  requested. With limits that are not consistent the computation of the lifetime may panic.\<close>

theorem revised_values_within_limits:
  assumes "server_ok st"
  shows "\<exists>interval k l. revise_subscription_values st requested_interval requested_k requested_l = Inr (interval, k, l) \<and>
    f_le (f64_val (st_min_publishing_interval_ms st)) (f64_val interval) \<and>
    0 < k \<and> k \<le> st_max_keep_alive_count st \<and> 3 * unat k \<le> unat l \<and> l \<le> st_max_lifetime_count st \<and>
    (f_le (f64_val (st_min_publishing_interval_ms st)) (f64_val requested_interval) \<and> 0 < requested_k \<and>
      requested_k \<le> st_max_keep_alive_count st \<and> 3 * unat requested_k \<le> unat requested_l \<and>
      requested_l \<le> st_max_lifetime_count st \<longrightarrow> interval = requested_interval \<and> k = requested_k \<and> l = requested_l)"
  by (rule revise_subscription_values_ok [OF assms])

theorem revised_values_within_limits_witness:
  "\<exists>interval k l. revise_subscription_values sample_server 0x4059000000000000 20000 100 = Inr (interval, k, l) \<and>
     0 < k \<and> k \<le> 30000 \<and> 3 * unat k \<le> unat l \<and> l \<le> 90000"
  using revised_values_within_limits [of sample_server "0x4059000000000000" 20000 100, OF sample_server_ok(1)]
  by (auto simp: sample_server_def)

end
