(* ===== verification/Opc_References.thy ===== *)
theory Opc_References
  imports Opc_Messages
begin

text \<open>
  The references between the nodes of the address space (\<open>server/address_space/references.rs\<close>): the
  forward references of each node and, for each node, the nodes that refer to it. A \<open>HashMap\<close> is a
  map, a \<open>HashSet\<close> the list of its elements in the order of iteration; the order is that of insertion
  here and no result depends on it.
\<close>

section \<open>The state\<close>

record Reference =
  reference_type :: NodeId
  target_node :: NodeId

datatype ReferenceDirection = RdForward | RdInverse

datatype BrowseDirection = BdForward | BdInverse | BdBoth | BdInvalid

record References =
  references_map :: "NodeId \<rightharpoonup> Reference list"
  referenced_by_map :: "NodeId \<rightharpoonup> NodeId list"

definition References_default :: References where
  "References_default = \<lparr> references_map = (\<lambda>_. None), referenced_by_map = (\<lambda>_. None) \<rparr>"

definition ns0 :: "u32 \<Rightarrow> NodeId" where
  "ns0 i = \<lparr> ni_namespace = 0, ni_identifier = IdNumeric i \<rparr>"

definition HasTypeDefinition :: NodeId where
  "HasTypeDefinition = ns0 40"

definition HasSubtype :: NodeId where
  "HasSubtype = ns0 45"

section \<open>Inserting\<close>

definition insert_reference :: "NodeId \<Rightarrow> NodeId \<Rightarrow> NodeId \<Rightarrow> References \<Rightarrow> References res" where
  "insert_reference source target rtype refs =
     (if source = target then Inl Panic
      else
        let reference = \<lparr> reference_type = rtype, target_node = target \<rparr>;
            references = (case references_map refs source of
              Some rs \<Rightarrow> if reference \<in> set rs then rs else rs @ [reference]
            | None \<Rightarrow> [reference]);
            lookup_set = (case referenced_by_map refs target of
              Some ns \<Rightarrow> if source \<in> set ns then ns else ns @ [source]
            | None \<Rightarrow> [source])
        in Inr \<lparr> references_map = (references_map refs)(source \<mapsto> references),
                 referenced_by_map = (referenced_by_map refs)(target \<mapsto> lookup_set) \<rparr>)"

fun insert_references :: "(NodeId \<times> NodeId \<times> NodeId) list \<Rightarrow> References \<Rightarrow> References res" where
  "insert_references [] refs = Inr refs"
| "insert_references ((source, target, rtype) # rs) refs =
     bindR (insert_reference source target rtype refs) (insert_references rs)"

fun References_insert :: "NodeId \<Rightarrow> (NodeId \<times> NodeId \<times> ReferenceDirection) list \<Rightarrow> References \<Rightarrow> References res" where
  "References_insert source [] refs = Inr refs"
| "References_insert source ((node, rtype, direction) # rs) refs =
     bindR (case direction of
              RdForward \<Rightarrow> insert_reference source node rtype refs
            | RdInverse \<Rightarrow> insert_reference node source rtype refs) (References_insert source rs)"

section \<open>Deleting\<close>

definition remove_node_from_referenced_node :: "NodeId \<Rightarrow> NodeId \<Rightarrow> References \<Rightarrow> References" where
  "remove_node_from_referenced_node node_to_remove node_to_check refs =
     \<lparr> references_map =
         (case references_map refs node_to_check of
            None \<Rightarrow> references_map refs
          | Some rs \<Rightarrow>
              let rs' = filter (\<lambda>r. target_node r \<noteq> node_to_remove) rs
              in (references_map refs)(node_to_check := (if rs' = [] then None else Some rs'))),
       referenced_by_map =
         (case referenced_by_map refs node_to_check of
            None \<Rightarrow> referenced_by_map refs
          | Some ns \<Rightarrow>
              let ns' = filter (\<lambda>n. n \<noteq> node_to_remove) ns
              in (referenced_by_map refs)(node_to_check := (if ns' = [] then None else Some ns'))) \<rparr>"

definition remove_node_from_referenced_nodes :: "NodeId list \<Rightarrow> NodeId \<Rightarrow> References \<Rightarrow> References" where
  "remove_node_from_referenced_nodes nodes_to_check node_to_remove refs =
     fold (remove_node_from_referenced_node node_to_remove) nodes_to_check refs"

definition delete_reference :: "NodeId \<Rightarrow> NodeId \<Rightarrow> NodeId \<Rightarrow> References \<Rightarrow> bool \<times> References" where
  "delete_reference source target rtype refs =
     (case references_map refs source of
        None \<Rightarrow> (False, refs)
      | Some rs \<Rightarrow>
          let rs' = filter (\<lambda>r. \<not> (reference_type r = rtype \<and> target_node r = target)) rs;
              other_nodes_before = remdups (map target_node rs);
              other_nodes_after = remdups (map target_node rs');
              difference = filter (\<lambda>n. n \<notin> set other_nodes_after) other_nodes_before;
              refs1 = refs \<lparr> references_map := (references_map refs)(source \<mapsto> rs') \<rparr>;
              refs2 = (if difference = [] then refs1 else remove_node_from_referenced_nodes difference source refs1)
          in (length rs' < length rs,
              if rs' = [] then refs2 \<lparr> references_map := (references_map refs2)(source := None) \<rparr> else refs2))"

definition delete_node_references :: "NodeId \<Rightarrow> References \<Rightarrow> bool \<times> References" where
  "delete_node_references source refs =
     (let (deleted_references, refs1) =
            (case references_map refs source of
               None \<Rightarrow> (False, refs)
             | Some rs \<Rightarrow>
                 (True, remove_node_from_referenced_nodes (remdups (map target_node rs)) source
                    (refs \<lparr> references_map := (references_map refs)(source := None) \<rparr>)));
          (deleted_lookups, refs2) =
            (case referenced_by_map refs1 source of
               None \<Rightarrow> (False, refs1)
             | Some ns \<Rightarrow>
                 (True, remove_node_from_referenced_nodes ns source
                    (refs1 \<lparr> referenced_by_map := (referenced_by_map refs1)(source := None) \<rparr>)))
      in (deleted_references \<or> deleted_lookups, refs2))"

section \<open>Types of references\<close>

text \<open>The search over the subtypes of a type, with the top of the stack first. It may not end, hence the
  option.\<close>

definition subtypes_of :: "(NodeId \<rightharpoonup> Reference list) \<Rightarrow> NodeId \<Rightarrow> NodeId list" where
  "subtypes_of m n =
     (case m n of
        None \<Rightarrow> []
      | Some rs \<Rightarrow> map target_node (filter (\<lambda>r. reference_type r = HasSubtype) rs))"

partial_function (option) search_subtypes :: "(NodeId \<rightharpoonup> Reference list) \<Rightarrow> NodeId \<Rightarrow> NodeId list \<Rightarrow> bool option" where
  "search_subtypes m ref_subtype stack =
     (case stack of
        [] \<Rightarrow> Some False
      | current # rest \<Rightarrow>
          if ref_subtype = current then Some True
          else if ref_subtype \<in> set (subtypes_of m current) then Some True
          else search_subtypes m ref_subtype (rev (subtypes_of m current) @ rest))"

definition reference_type_matches :: "References \<Rightarrow> NodeId \<Rightarrow> NodeId \<Rightarrow> bool \<Rightarrow> bool option" where
  "reference_type_matches refs ref_type ref_subtype include_subtypes =
     (if ref_type = ref_subtype then Some True
      else if include_subtypes then search_subtypes (references_map refs) ref_subtype [ref_type]
      else Some False)"

section \<open>Finding\<close>

fun filter_option :: "('a \<Rightarrow> bool option) \<Rightarrow> 'a list \<Rightarrow> 'a list option" where
  "filter_option p [] = Some []"
| "filter_option p (x # xs) =
     (case p x of
        None \<Rightarrow> None
      | Some b \<Rightarrow> map_option (\<lambda>ys. if b then x # ys else ys) (filter_option p xs))"

definition has_reference :: "NodeId \<Rightarrow> NodeId \<Rightarrow> NodeId \<Rightarrow> References \<Rightarrow> bool" where
  "has_reference source target rtype refs =
     (case references_map refs source of
        None \<Rightarrow> False
      | Some rs \<Rightarrow> \<lparr> reference_type = rtype, target_node = target \<rparr> \<in> set rs)"

definition filter_references_by_type :: "References \<Rightarrow> (NodeId \<times> bool) option \<Rightarrow> Reference list \<Rightarrow> Reference list option" where
  "filter_references_by_type refs reference_filter rs =
     (case reference_filter of
        None \<Rightarrow> Some rs
      | Some (rtype, include_subtypes) \<Rightarrow>
          filter_option (\<lambda>r. reference_type_matches refs rtype (reference_type r) include_subtypes) rs)"

text \<open>The results are those of searches that end; finding nothing is \<open>None\<close> inside.\<close>

definition non_empty :: "'a list \<Rightarrow> 'a list option" where
  "non_empty xs = (if xs = [] then None else Some xs)"

definition find_references :: "NodeId \<Rightarrow> (NodeId \<times> bool) option \<Rightarrow> References \<Rightarrow> Reference list option option" where
  "find_references source reference_filter refs =
     (case references_map refs source of
        None \<Rightarrow> Some None
      | Some rs \<Rightarrow> map_option non_empty (filter_references_by_type refs reference_filter rs))"

fun collect_inverse_references ::
  "NodeId \<Rightarrow> (NodeId \<times> bool) option \<Rightarrow> References \<Rightarrow> NodeId list \<Rightarrow> Reference list option" where
  "collect_inverse_references target reference_filter refs [] = Some []"
| "collect_inverse_references target reference_filter refs (source # sources) =
     (case references_map refs source of
        None \<Rightarrow> collect_inverse_references target reference_filter refs sources
      | Some rs \<Rightarrow>
          (case filter_references_by_type refs reference_filter
                  (map (\<lambda>r. \<lparr> reference_type = reference_type r, target_node = source \<rparr>)
                    (filter (\<lambda>r. target_node r = target) rs)) of
             None \<Rightarrow> None
           | Some found \<Rightarrow> map_option (\<lambda>more_found. found @ more_found)
               (collect_inverse_references target reference_filter refs sources)))"

definition find_inverse_references :: "NodeId \<Rightarrow> (NodeId \<times> bool) option \<Rightarrow> References \<Rightarrow> Reference list option option" where
  "find_inverse_references target reference_filter refs =
     (case referenced_by_map refs target of
        None \<Rightarrow> Some None
      | Some sources \<Rightarrow> map_option non_empty (collect_inverse_references target reference_filter refs sources))"

definition found_list :: "'a list option \<Rightarrow> 'a list" where
  "found_list found = (case found of None \<Rightarrow> [] | Some xs \<Rightarrow> xs)"

definition find_references_by_direction ::
  "NodeId \<Rightarrow> BrowseDirection \<Rightarrow> (NodeId \<times> bool) option \<Rightarrow> References \<Rightarrow> (Reference list \<times> nat) option" where
  "find_references_by_direction node browse_direction reference_filter refs =
     (case browse_direction of
        BdForward \<Rightarrow>
          map_option (\<lambda>f. (found_list f, length (found_list f))) (find_references node reference_filter refs)
      | BdInverse \<Rightarrow> map_option (\<lambda>i. (found_list i, 0)) (find_inverse_references node reference_filter refs)
      | BdBoth \<Rightarrow>
          (case find_references node reference_filter refs of
             None \<Rightarrow> None
           | Some f \<Rightarrow> map_option (\<lambda>i. (found_list f @ found_list i, length (found_list f)))
               (find_inverse_references node reference_filter refs))
      | BdInvalid \<Rightarrow> Some ([], 0))"

definition References_get_type_id :: "NodeId \<Rightarrow> References \<Rightarrow> NodeId option" where
  "References_get_type_id node refs =
     (case references_map refs node of
        None \<Rightarrow> None
      | Some rs \<Rightarrow> map_option target_node (find (\<lambda>r. reference_type r = HasTypeDefinition) rs))"

end
