(* ===== verification/Opc_Reference_Graph.thy ===== *)
theory Opc_Reference_Graph
  imports Opc_References
begin

text \<open>
  The references of the address space as a labelled graph: the two maps implement a set of edges, the
  forward and the inverse view agree, and the search over subtypes computes reachability when it ends.
\<close>

section \<open>Edges\<close>

definition outgoing :: "References \<Rightarrow> NodeId \<Rightarrow> Reference list" where
  "outgoing refs s = (case references_map refs s of None \<Rightarrow> [] | Some rs \<Rightarrow> rs)"

definition referrers :: "References \<Rightarrow> NodeId \<Rightarrow> NodeId list" where
  "referrers refs t = (case referenced_by_map refs t of None \<Rightarrow> [] | Some ns \<Rightarrow> ns)"

definition edges :: "References \<Rightarrow> (NodeId \<times> NodeId \<times> NodeId) set" where
  "edges refs = {(s, rtype, t). \<lparr> reference_type = rtype, target_node = t \<rparr> \<in> set (outgoing refs s)}"

text \<open>No entry is empty, no node refers to itself, and every reference is found by the reverse lookup.
  The lookup may mention nodes that no longer refer to the target.\<close>

definition refs_ok :: "References \<Rightarrow> bool" where
  "refs_ok refs \<longleftrightarrow> finite (dom (references_map refs)) \<and>
     (\<forall>s. references_map refs s \<noteq> Some [] \<and> distinct (outgoing refs s)) \<and>
     (\<forall>t. referenced_by_map refs t \<noteq> Some [] \<and> distinct (referrers refs t)) \<and>
     (\<forall>s. \<forall>r \<in> set (outgoing refs s). target_node r \<noteq> s \<and> s \<in> set (referrers refs (target_node r)))"

lemma edges_iff: "(s, rtype, t) \<in> edges refs \<longleftrightarrow> (\<exists>r \<in> set (outgoing refs s). reference_type r = rtype \<and> target_node r = t)"
proof -
  have "r = \<lparr> reference_type = rtype, target_node = t \<rparr> \<longleftrightarrow> reference_type r = rtype \<and> target_node r = t" for r
    by (cases r) auto
  then show ?thesis unfolding edges_def by (simp add: Bex_def) metis
qed

lemma references_map_cases: "references_map refs s = None \<or> references_map refs s = Some (outgoing refs s)"
  by (cases "references_map refs s") (simp_all add: outgoing_def)

subsection \<open>Insertion\<close>

lemma insert_reference_outgoing:
  "insert_reference source target rtype refs = Inr refs' \<Longrightarrow> outgoing refs' s =
     (if s = source \<and> \<lparr> reference_type = rtype, target_node = target \<rparr> \<notin> set (outgoing refs s)
      then outgoing refs s @ [\<lparr> reference_type = rtype, target_node = target \<rparr>] else outgoing refs s)"
  by (auto simp: insert_reference_def Let_def outgoing_def split: if_splits option.splits)

lemma insert_reference_referrers:
  "insert_reference source target rtype refs = Inr refs' \<Longrightarrow> referrers refs' t =
     (if t = target \<and> source \<notin> set (referrers refs t) then referrers refs t @ [source] else referrers refs t)"
  by (auto simp: insert_reference_def Let_def referrers_def split: if_splits option.splits)

lemma insert_reference_entries:
  assumes "insert_reference source target rtype refs = Inr refs'"
  shows "references_map refs s \<noteq> Some [] \<Longrightarrow> references_map refs' s \<noteq> Some []"
    "referenced_by_map refs t \<noteq> Some [] \<Longrightarrow> referenced_by_map refs' t \<noteq> Some []"
    "dom (references_map refs') = insert source (dom (references_map refs))"
  using assms by (auto simp: insert_reference_def Let_def split: if_splits option.splits)

lemma insert_reference_ok:
  assumes "insert_reference source target rtype refs = Inr refs'" "refs_ok refs"
  shows "refs_ok refs'" "edges refs' = insert (source, rtype, target) (edges refs)"
proof -
  have "source \<noteq> target" using assms(1) by (auto simp: insert_reference_def)
  then show "refs_ok refs'"
    using assms(2)
    by (auto simp: refs_ok_def insert_reference_outgoing [OF assms(1)] insert_reference_referrers [OF assms(1)]
        insert_reference_entries [OF assms(1)])
  show "edges refs' = insert (source, rtype, target) (edges refs)"
    by (auto simp: edges_def insert_reference_outgoing [OF assms(1)] split: if_splits)
qed

lemma insert_reference_returns: "source \<noteq> target \<Longrightarrow> \<exists>refs'. insert_reference source target rtype refs = Inr refs'"
  by (simp add: insert_reference_def Let_def)

subsection \<open>Deletion\<close>

lemma remove_node_views:
  "outgoing (remove_node_from_referenced_node v n refs) s =
     (if s = n then filter (\<lambda>r. target_node r \<noteq> v) (outgoing refs s) else outgoing refs s)"
  "referrers (remove_node_from_referenced_node v n refs) t =
     (if t = n then filter (\<lambda>m. m \<noteq> v) (referrers refs t) else referrers refs t)"
  by (auto simp: remove_node_from_referenced_node_def outgoing_def referrers_def Let_def split: option.split)

lemma remove_nodes_views:
  "outgoing (remove_node_from_referenced_nodes ns v refs) s =
     (if s \<in> set ns then filter (\<lambda>r. target_node r \<noteq> v) (outgoing refs s) else outgoing refs s)"
  "referrers (remove_node_from_referenced_nodes ns v refs) t =
     (if t \<in> set ns then filter (\<lambda>m. m \<noteq> v) (referrers refs t) else referrers refs t)"
  unfolding remove_node_from_referenced_nodes_def
  by (induction ns arbitrary: refs) (auto simp: remove_node_views)

text \<open>No entry of the maps is empty, except that of the node at hand.\<close>

definition tidy_but :: "NodeId set \<Rightarrow> References \<Rightarrow> bool" where
  "tidy_but V refs \<longleftrightarrow> finite (dom (references_map refs)) \<and> (\<forall>s. s \<notin> V \<longrightarrow> references_map refs s \<noteq> Some []) \<and>
     (\<forall>t. referenced_by_map refs t \<noteq> Some [])"

lemma tidy_remove_node: "tidy_but V refs \<Longrightarrow> tidy_but V (remove_node_from_referenced_node v n refs)"
  by (auto simp: tidy_but_def remove_node_from_referenced_node_def Let_def dom_def split: option.splits
      elim: finite_subset [rotated])

lemma tidy_remove_nodes: "tidy_but V refs \<Longrightarrow> tidy_but V (remove_node_from_referenced_nodes ns v refs)"
  unfolding remove_node_from_referenced_nodes_def
  by (induction ns arbitrary: refs) (simp_all add: tidy_remove_node)

lemma tidy_entry:
  assumes "tidy_but {v} refs"
  shows "references_map refs v \<noteq> Some [] \<Longrightarrow> tidy_but {} refs"
    and "tidy_but {} (refs \<lparr> references_map := (references_map refs)(v := None) \<rparr>)"
proof -
  show "tidy_but {} refs" if "references_map refs v \<noteq> Some []"
    unfolding tidy_but_def using assms that by (metis empty_iff singletonD tidy_but_def)
  show "tidy_but {} (refs \<lparr> references_map := (references_map refs)(v := None) \<rparr>)"
    using assms by (auto simp: tidy_but_def)
qed

lemma refs_ok_iff:
  "refs_ok refs \<longleftrightarrow> tidy_but {} refs \<and> (\<forall>s. distinct (outgoing refs s)) \<and> (\<forall>t. distinct (referrers refs t)) \<and>
     (\<forall>s. \<forall>r \<in> set (outgoing refs s). target_node r \<noteq> s \<and> s \<in> set (referrers refs (target_node r)))"
  by (auto simp: refs_ok_def tidy_but_def)

lemma remove_nodes_other:
  "s \<notin> set ns \<Longrightarrow> references_map (remove_node_from_referenced_nodes ns v refs) s = references_map refs s"
  unfolding remove_node_from_referenced_nodes_def
  by (induction ns arbitrary: refs) (auto simp: remove_node_from_referenced_node_def Let_def split: option.split)

lemma outgoing_update [simp]:
  "outgoing (refs \<lparr> references_map := (references_map refs)(s \<mapsto> rs) \<rparr>) = (outgoing refs)(s := rs)"
  "outgoing (refs \<lparr> references_map := (references_map refs)(s := None) \<rparr>) = (outgoing refs)(s := [])"
  "outgoing (refs \<lparr> referenced_by_map := m \<rparr>) = outgoing refs"
  by (auto simp: outgoing_def fun_eq_iff)

lemma referrers_update [simp]:
  "referrers (refs \<lparr> references_map := m \<rparr>) = referrers refs"
  "referrers (refs \<lparr> referenced_by_map := (referenced_by_map refs)(s := None) \<rparr>) = (referrers refs)(s := [])"
  by (auto simp: referrers_def fun_eq_iff)

text \<open>Deleting one reference: if it was the last one to its target, the references of the target back to the
  source go, too.\<close>

definition last_to_target :: "References \<Rightarrow> NodeId \<Rightarrow> NodeId \<Rightarrow> NodeId \<Rightarrow> bool" where
  "last_to_target refs source target rtype \<longleftrightarrow>
     (source, rtype, target) \<in> edges refs \<and> (\<forall>rtype'. (source, rtype', target) \<in> edges refs \<longrightarrow> rtype' = rtype)"

lemma delete_reference_views:
  assumes "refs_ok refs" "delete_reference source target rtype refs = (deleted, refs')"
  defines "gone \<equiv> last_to_target refs source target rtype"
  shows "outgoing refs' s =
      (if s = source then filter (\<lambda>r. \<not> (reference_type r = rtype \<and> target_node r = target)) (outgoing refs s)
       else if s = target \<and> gone then filter (\<lambda>r. target_node r \<noteq> source) (outgoing refs s)
       else outgoing refs s)"
    "referrers refs' t = (if t = target \<and> gone then filter (\<lambda>n. n \<noteq> source) (referrers refs t) else referrers refs t)"
    "tidy_but {} refs'" "deleted \<longleftrightarrow> (source, rtype, target) \<in> edges refs"
proof -
  let ?keep = "\<lambda>r. \<not> (reference_type r = rtype \<and> target_node r = target)"
  let ?rs = "outgoing refs source" let ?rs' = "filter ?keep ?rs"
  define difference where
    "difference = filter (\<lambda>n. n \<notin> set (remdups (map target_node ?rs'))) (remdups (map target_node ?rs))"
  let ?refs1 = "refs \<lparr> references_map := (references_map refs)(source \<mapsto> ?rs') \<rparr>"
  define refs2 where "refs2 = remove_node_from_referenced_nodes difference source ?refs1"
  have difference: "set difference = (if gone then {target} else {})"
    by (auto simp: difference_def gone_def last_to_target_def edges_iff) blast
  have apart: "source \<noteq> target" if gone
    using that assms(1) by (auto simp: gone_def last_to_target_def edges_iff refs_ok_def)
  show "outgoing refs' s =
      (if s = source then filter ?keep (outgoing refs s)
       else if s = target \<and> gone then filter (\<lambda>r. target_node r \<noteq> source) (outgoing refs s) else outgoing refs s)"
    "referrers refs' t = (if t = target \<and> gone then filter (\<lambda>n. n \<noteq> source) (referrers refs t) else referrers refs t)"
    "tidy_but {} refs'" "deleted \<longleftrightarrow> (source, rtype, target) \<in> edges refs"
  proof (atomize (full), cases "references_map refs source")
    case None
    then have "outgoing refs source = []" by (simp add: outgoing_def)
    moreover from this have "\<not> gone" by (simp add: gone_def last_to_target_def edges_iff)
    ultimately show "(outgoing refs' s = (if s = source then filter ?keep (outgoing refs s)
         else if s = target \<and> gone then filter (\<lambda>r. target_node r \<noteq> source) (outgoing refs s) else outgoing refs s) \<and>
      referrers refs' t = (if t = target \<and> gone then filter (\<lambda>n. n \<noteq> source) (referrers refs t) else referrers refs t)) \<and>
      tidy_but {} refs' \<and> deleted = ((source, rtype, target) \<in> edges refs)"
      using assms(1,2) None by (auto simp: delete_reference_def refs_ok_iff edges_iff)
  next
    case (Some rs)
    then have rs: "rs = ?rs" by (simp add: outgoing_def)
    have "delete_reference source target rtype refs = (length ?rs' < length ?rs,
        if ?rs' = [] then (if difference = [] then ?refs1 else refs2)
            \<lparr> references_map := (references_map (if difference = [] then ?refs1 else refs2))(source := None) \<rparr>
        else if difference = [] then ?refs1 else refs2)"
      by (simp only: delete_reference_def Some option.case Let_def rs difference_def refs2_def)
    moreover have "(if difference = [] then ?refs1 else refs2) = refs2"
      by (simp add: refs2_def remove_node_from_referenced_nodes_def)
    ultimately have
      refs': "refs' = (if ?rs' = [] then refs2 \<lparr> references_map := (references_map refs2)(source := None) \<rparr> else refs2)"
      and deleted: "deleted = (length ?rs' < length ?rs)"
      using assms(2) by simp_all
    have "tidy_but {source} ?refs1" using assms(1) by (simp add: refs_ok_iff tidy_but_def)
    then have tidy2: "tidy_but {source} refs2" unfolding refs2_def by (rule tidy_remove_nodes)
    have entry: "references_map refs2 source = Some ?rs'"
      using apart difference unfolding refs2_def by (subst remove_nodes_other) (auto split: if_splits)
    have tidy: "tidy_but {} refs'"
    proof (cases "?rs' = []")
      case True
      show ?thesis unfolding refs' if_P [OF True] by (rule tidy_entry(2) [OF tidy2])
    next
      case False
      then have "references_map refs2 source \<noteq> Some []" unfolding entry by blast
      then show ?thesis unfolding refs' if_not_P [OF False] by (rule tidy_entry(1) [OF tidy2])
    qed
    have out2: "outgoing refs2 s = (if s = source then ?rs' else
        if s = target \<and> gone then filter (\<lambda>r. target_node r \<noteq> source) (outgoing refs s) else outgoing refs s)" for s
      using apart by (auto simp: refs2_def remove_nodes_views difference)
    have back2: "referrers refs2 t = (if t = target \<and> gone then filter (\<lambda>n. n \<noteq> source) (referrers refs t) else referrers refs t)" for t
      by (auto simp: refs2_def remove_nodes_views difference)
    have "length ?rs' < length ?rs \<longleftrightarrow> (\<exists>r \<in> set ?rs. \<not> ?keep r)"
      by (metis (mono_tags, lifting) filter_True length_filter_less less_irrefl)
    then have len: "length ?rs' < length ?rs \<longleftrightarrow> (source, rtype, target) \<in> edges refs" by (simp add: edges_iff)
    have out': "outgoing refs' s = outgoing refs2 s"
    proof (cases "?rs' = []")
      case True
      have "outgoing refs2 source = []" using out2 [of source] True by simp
      then show ?thesis unfolding refs' if_P [OF True] outgoing_update by simp
    qed (simp only: refs' if_False)
    have back': "referrers refs' t = referrers refs2 t" by (simp add: refs')
    show "(outgoing refs' s = (if s = source then filter ?keep (outgoing refs s)
         else if s = target \<and> gone then filter (\<lambda>r. target_node r \<noteq> source) (outgoing refs s) else outgoing refs s) \<and>
      referrers refs' t = (if t = target \<and> gone then filter (\<lambda>n. n \<noteq> source) (referrers refs t) else referrers refs t)) \<and>
      tidy_but {} refs' \<and> deleted = ((source, rtype, target) \<in> edges refs)"
      unfolding out' back' deleted out2 back2 len using tidy by simp
  qed
qed

lemma delete_reference_ok:
  assumes "refs_ok refs"
  shows "refs_ok (snd (delete_reference source target rtype refs))"
proof -
  obtain deleted refs' where d: "delete_reference source target rtype refs = (deleted, refs')" by fastforce
  note views = delete_reference_views [OF assms d]
  have ok: "distinct (outgoing refs s)" "distinct (referrers refs t)"
    "r \<in> set (outgoing refs s) \<Longrightarrow> target_node r \<noteq> s \<and> s \<in> set (referrers refs (target_node r))" for s t r
    using assms by (auto simp: refs_ok_iff)
  have "target_node r \<noteq> s \<and> s \<in> set (referrers refs' (target_node r))" if r: "r \<in> set (outgoing refs' s)" for s r
  proof -
    have "r \<in> set (outgoing refs s)" using r views(1) [of s] by (auto split: if_splits)
    moreover have "\<not> (target_node r = target \<and> s = source \<and> last_to_target refs source target rtype)"
    proof
      assume last: "target_node r = target \<and> s = source \<and> last_to_target refs source target rtype"
      then have "r \<in> set (outgoing refs source)" "reference_type r \<noteq> rtype" using r by (auto simp: views(1))
      then show False using last by (auto simp: last_to_target_def edges_iff)
    qed
    ultimately show ?thesis using ok(3) [of r s] unfolding views(2) by auto
  qed
  moreover have "distinct (outgoing refs' s)" "distinct (referrers refs' t)" for s t
    using ok(1,2) by (simp_all add: views(1,2))
  ultimately show ?thesis unfolding d snd_conv refs_ok_iff using views(3) by blast
qed

lemma delete_reference_edges:
  assumes "refs_ok refs"
  shows "edges (snd (delete_reference source target rtype refs)) =
    edges refs - {(source, rtype, target)} -
      (if last_to_target refs source target rtype then {(s, rtype', t). s = target \<and> t = source} else {})"
proof -
  obtain deleted refs' where d: "delete_reference source target rtype refs = (deleted, refs')" by fastforce
  have "source \<noteq> target" if "last_to_target refs source target rtype"
    using that assms by (auto simp: last_to_target_def edges_iff refs_ok_def)
  then show ?thesis
    unfolding d snd_conv by (auto simp: edges_iff delete_reference_views [OF assms d] split: if_splits)
qed

lemma delete_node_references_views:
  fixes n :: NodeId
  assumes "refs_ok refs"
  defines "refs' \<equiv> snd (delete_node_references n refs)"
  shows "outgoing refs' s = (if s = n then [] else filter (\<lambda>r. target_node r \<noteq> n) (outgoing refs s))"
    "referrers refs' t = (if t = n then []
      else if t \<in> target_node ` set (outgoing refs n) \<or> t \<in> set (referrers refs n)
      then filter (\<lambda>m. m \<noteq> n) (referrers refs t) else referrers refs t)"
    "tidy_but {} refs'"
proof -
  let ?targets = "remdups (map target_node (outgoing refs n))"
  let ?cut = "refs \<lparr> references_map := (references_map refs)(n := None) \<rparr>"
  define refs1 where "refs1 = remove_node_from_referenced_nodes ?targets n ?cut"
  let ?cut1 = "refs1 \<lparr> referenced_by_map := (referenced_by_map refs1)(n := None) \<rparr>"
  define refs2 where "refs2 = remove_node_from_referenced_nodes (referrers refs1 n) n ?cut1"
  have self: "n \<notin> set ?targets" using assms(1) by (auto simp: refs_ok_def)
  have cut: "?cut = refs" if "references_map refs n = None"
    using that by (simp add: fun_upd_idem)
  have step1: "(case references_map refs n of None \<Rightarrow> (False, refs)
      | Some rs \<Rightarrow> (True, remove_node_from_referenced_nodes (remdups (map target_node rs)) n ?cut)) =
      (references_map refs n \<noteq> None, refs1)"
    by (cases "references_map refs n") (simp_all add: refs1_def outgoing_def remove_node_from_referenced_nodes_def cut)
  have cut1: "?cut1 = refs1" if "referenced_by_map refs1 n = None"
    using that by (simp add: fun_upd_idem)
  have step2: "(case referenced_by_map refs1 n of None \<Rightarrow> (False, refs1)
      | Some ns \<Rightarrow> (True, remove_node_from_referenced_nodes ns n ?cut1)) = (referenced_by_map refs1 n \<noteq> None, refs2)"
    by (cases "referenced_by_map refs1 n") (simp_all add: refs2_def referrers_def remove_node_from_referenced_nodes_def cut1)
  have refs': "refs' = refs2"
    unfolding refs'_def delete_node_references_def Let_def step1 prod.case step2 by simp
  have out1: "outgoing refs1 s = (if s = n then [] else if s \<in> set ?targets then
      filter (\<lambda>r. target_node r \<noteq> n) (outgoing refs s) else outgoing refs s)" for s
    using self by (simp add: refs1_def remove_nodes_views)
  have back1: "referrers refs1 t = (if t \<in> set ?targets then filter (\<lambda>m. m \<noteq> n) (referrers refs t) else referrers refs t)" for t
    by (simp add: refs1_def remove_nodes_views)
  have sources: "s \<in> set (referrers refs n)" if "r \<in> set (outgoing refs s)" "target_node r = n" for s r
    using that assms(1) by (auto simp: refs_ok_def)
  show "outgoing refs' s = (if s = n then [] else filter (\<lambda>r. target_node r \<noteq> n) (outgoing refs s))"
  proof -
    have keep: "s \<notin> set (referrers refs n) \<Longrightarrow> filter (\<lambda>r. target_node r \<noteq> n) (outgoing refs s) = outgoing refs s"
      by (rule filter_True) (use sources in blast)
    have "referrers refs1 n = referrers refs n" using self by (simp add: back1)
    then show ?thesis using keep by (simp add: refs' refs2_def remove_nodes_views out1)
  qed
  show "referrers refs' t = (if t = n then []
      else if t \<in> target_node ` set (outgoing refs n) \<or> t \<in> set (referrers refs n)
      then filter (\<lambda>m. m \<noteq> n) (referrers refs t) else referrers refs t)"
    using self by (auto simp: refs' refs2_def remove_nodes_views back1)
  have "tidy_but {} ?cut" using assms(1) by (auto simp: refs_ok_iff tidy_but_def)
  then have "tidy_but {} refs1" unfolding refs1_def by (rule tidy_remove_nodes)
  then have "tidy_but {} ?cut1" by (auto simp: tidy_but_def)
  then show "tidy_but {} refs'" unfolding refs' refs2_def by (rule tidy_remove_nodes)
qed

lemma delete_node_references_ok:
  assumes "refs_ok refs"
  shows "refs_ok (snd (delete_node_references n refs))"
    "edges (snd (delete_node_references n refs)) = {(s, rtype, t) \<in> edges refs. s \<noteq> n \<and> t \<noteq> n}"
proof -
  show "refs_ok (snd (delete_node_references n refs))"
    using assms by (auto simp: refs_ok_iff [of "snd _"] delete_node_references_views [OF assms] refs_ok_iff)
  show "edges (snd (delete_node_references n refs)) = {(s, rtype, t) \<in> edges refs. s \<noteq> n \<and> t \<noteq> n}"
    by (auto simp: edges_iff delete_node_references_views [OF assms] split: if_splits)
qed

section \<open>The maps as a store of edges\<close>

text \<open>What a client of the store may rely on: adding an edge adds just that edge, dropping a node drops the
  edges at it and no others.\<close>

locale edge_store =
  fixes edges_of :: "'g \<Rightarrow> ('n \<times> 't \<times> 'n) set"
    and add :: "'n \<Rightarrow> 'n \<Rightarrow> 't \<Rightarrow> 'g \<Rightarrow> 'g res"
    and drop_node :: "'n \<Rightarrow> 'g \<Rightarrow> 'g"
    and ok :: "'g \<Rightarrow> bool"
  assumes add_edge: "ok g \<Longrightarrow> s \<noteq> t \<Longrightarrow> \<exists>g'. add s t l g = Inr g' \<and> ok g' \<and> edges_of g' = insert (s, l, t) (edges_of g)"
    and drop_edges: "ok g \<Longrightarrow> edges_of (drop_node n g) = {(s, l, t) \<in> edges_of g. s \<noteq> n \<and> t \<noteq> n}"
    and drop_ok: "ok g \<Longrightarrow> ok (drop_node n g)"
begin

fun add_all :: "('n \<times> 'n \<times> 't) list \<Rightarrow> 'g \<Rightarrow> 'g res" where
  "add_all [] g = Inr g"
| "add_all ((s, t, l) # es) g = bindR (add s t l g) (add_all es)"

lemma add_all_edges:
  "ok g \<Longrightarrow> \<forall>(s, t, l) \<in> set es. s \<noteq> t \<Longrightarrow>
     \<exists>g'. add_all es g = Inr g' \<and> ok g' \<and> edges_of g' = edges_of g \<union> (\<lambda>(s, t, l). (s, l, t)) ` set es"
proof (induction es arbitrary: g)
  case (Cons e es)
  obtain s t l where e: "e = (s, t, l)" by (cases e) auto
  then obtain g1 where g1: "add s t l g = Inr g1" "ok g1" "edges_of g1 = insert (s, l, t) (edges_of g)"
    using add_edge [of g s t l] Cons.prems by auto
  then show ?case using Cons.IH [of g1] Cons.prems(2) by (auto simp: e)
qed simp

lemma drop_all_edges:
  "ok g \<Longrightarrow> ok (fold drop_node ns g) \<and> edges_of (fold drop_node ns g) = {(s, l, t) \<in> edges_of g. s \<notin> set ns \<and> t \<notin> set ns}"
  by (induction ns arbitrary: g) (auto simp: drop_ok drop_edges)

end

interpretation reference_store: edge_store edges insert_reference "\<lambda>n refs. snd (delete_node_references n refs)" refs_ok
proof
  fix g :: References and s t l n :: NodeId
  assume ok: "refs_ok g"
  show "refs_ok (snd (delete_node_references n g))" by (rule delete_node_references_ok(1) [OF ok])
  show "edges (snd (delete_node_references n g)) = {(s, l, t) \<in> edges g. s \<noteq> n \<and> t \<noteq> n}"
    by (rule delete_node_references_ok(2) [OF ok])
  assume "s \<noteq> t"
  then show "\<exists>g'. insert_reference s t l g = Inr g' \<and> refs_ok g' \<and> edges g' = insert (s, l, t) (edges g)"
    using insert_reference_returns [of s t l g] insert_reference_ok [OF _ ok] by blast
qed

lemma insert_references_add_all: "insert_references es refs = reference_store.add_all es refs"
  by (induction es arbitrary: refs) (auto simp: bindR_def split: sum.split)

section \<open>Queries\<close>

lemma has_reference_iff: "has_reference s t l refs \<longleftrightarrow> (s, l, t) \<in> edges refs"
  by (simp add: has_reference_def edges_def outgoing_def split: option.split)

lemma find_references_all: "find_references s None refs = Some (non_empty (outgoing refs s))"
  by (simp add: find_references_def filter_references_by_type_def outgoing_def non_empty_def split: option.split)

lemma collect_inverse_all:
  "collect_inverse_references t None refs sources =
     Some (concat (map (\<lambda>s. map (\<lambda>r. \<lparr> reference_type = reference_type r, target_node = s \<rparr>)
       (filter (\<lambda>r. target_node r = t) (outgoing refs s))) sources))"
  by (induction sources) (simp_all add: filter_references_by_type_def outgoing_def split: option.split)

lemma set_non_empty: "(\<exists>xs. non_empty ys = Some xs \<and> x \<in> set xs) \<longleftrightarrow> x \<in> set ys"
  by (auto simp: non_empty_def)

lemma find_inverse_references_all:
  assumes "refs_ok refs"
  shows "(\<exists>found. find_inverse_references t None refs = Some (Some found) \<and>
      \<lparr> reference_type = l, target_node = s \<rparr> \<in> set found) \<longleftrightarrow> (s, l, t) \<in> edges refs"
proof -
  have "s \<in> set (referrers refs t)" if "(s, l, t) \<in> edges refs"
    using that assms by (auto simp: edges_iff refs_ok_def)
  then show ?thesis
    by (cases "referenced_by_map refs t")
      (auto simp: find_inverse_references_def collect_inverse_all set_non_empty edges_iff referrers_def)
qed

text \<open>Every state the operations can reach.\<close>

inductive references_reachable :: "References \<Rightarrow> bool" where
  empty: "references_reachable References_default"
| inserted: "references_reachable refs \<Longrightarrow> insert_reference s t l refs = Inr refs' \<Longrightarrow> references_reachable refs'"
| deleted: "references_reachable refs \<Longrightarrow> references_reachable (snd (delete_reference s t l refs))"
| node_deleted: "references_reachable refs \<Longrightarrow> references_reachable (snd (delete_node_references n refs))"

lemma references_reachable_ok: "references_reachable refs \<Longrightarrow> refs_ok refs"
proof (induction rule: references_reachable.induct)
  case empty
  show ?case by (simp add: refs_ok_def References_default_def outgoing_def referrers_def)
qed (simp_all add: insert_reference_ok delete_reference_ok delete_node_references_ok)

lemma References_insert_reachable:
  "References_insert n rs refs = Inr refs' \<Longrightarrow> references_reachable refs \<Longrightarrow> references_reachable refs'"
  by (induction n rs refs rule: References_insert.induct)
    (auto simp: bindR_eq_Inr split: ReferenceDirection.splits intro: references_reachable.inserted)

section \<open>The search over subtypes\<close>

definition subtype_step :: "(NodeId \<rightharpoonup> Reference list) \<Rightarrow> (NodeId \<times> NodeId) set" where
  "subtype_step m = {(a, b). b \<in> set (subtypes_of m a)}"

lemma subtype_step_edges: "subtype_step (references_map refs) = {(a, b). (a, HasSubtype, b) \<in> edges refs}"
  by (auto simp: subtype_step_def subtypes_of_def edges_iff outgoing_def split: option.split)

lemma finite_subtype_step:
  assumes "finite (dom m)"
  shows "finite (subtype_step m)"
proof (rule finite_subset)
  have "a \<in> dom m" if "b \<in> set (subtypes_of m a)" for a b
    using that by (cases "m a") (auto simp: subtypes_of_def)
  then show "subtype_step m \<subseteq> (SIGMA a : dom m. set (subtypes_of m a))" by (auto simp: subtype_step_def)
  show "finite (SIGMA a : dom m. set (subtypes_of m a))" using assms by simp
qed

lemma search_subtypes_simps:
  "search_subtypes m sub [] = Some False"
  "search_subtypes m sub (current # rest) =
     (if sub = current \<or> sub \<in> set (subtypes_of m current) then Some True
      else search_subtypes m sub (rev (subtypes_of m current) @ rest))"
  by (subst search_subtypes.simps; simp)+

lemma search_append:
  assumes "\<And>x rest b. x \<in> set xs \<Longrightarrow> search_subtypes m sub rest = Some b \<Longrightarrow>
      search_subtypes m sub (x # rest) = Some ((x, sub) \<in> R \<or> b)"
    and "search_subtypes m sub rest = Some b"
  shows "search_subtypes m sub (xs @ rest) = Some ((\<exists>x \<in> set xs. (x, sub) \<in> R) \<or> b)"
  using assms by (induction xs) auto

lemma search_node:
  assumes "wf ((subtype_step m)\<inverse>)"
  shows "search_subtypes m sub rest = Some b \<Longrightarrow>
    search_subtypes m sub (x # rest) = Some ((x, sub) \<in> (subtype_step m)\<^sup>* \<or> b)"
  using assms
proof (induction x arbitrary: rest b rule: wf_induct_rule)
  case (less x)
  have children: "search_subtypes m sub (rev (subtypes_of m x) @ rest) =
      Some ((\<exists>y \<in> set (rev (subtypes_of m x)). (y, sub) \<in> (subtype_step m)\<^sup>*) \<or> b)"
    by (rule search_append [OF less(1) less(2)]) (auto simp: subtype_step_def)
  have reach: "(x, sub) \<in> (subtype_step m)\<^sup>* \<longleftrightarrow> x = sub \<or> (\<exists>y \<in> set (subtypes_of m x). (y, sub) \<in> (subtype_step m)\<^sup>*)"
    by (auto simp: subtype_step_def elim: converse_rtranclE intro: converse_rtrancl_into_rtrancl)
  show ?case by (auto simp: search_subtypes_simps(2) children reach)
qed

lemma reference_type_matches_reach:
  assumes "finite (dom (references_map refs))" "acyclic {(a, b). (a, HasSubtype, b) \<in> edges refs}"
  shows "reference_type_matches refs a b True = Some ((a, b) \<in> {(a, b). (a, HasSubtype, b) \<in> edges refs}\<^sup>*)"
proof -
  have "wf ((subtype_step (references_map refs))\<inverse>)"
    by (rule finite_acyclic_wf_converse [OF finite_subtype_step [OF assms(1)]]) (simp only: subtype_step_edges assms(2))
  from search_node [OF this search_subtypes_simps(1)] show ?thesis
    by (simp add: reference_type_matches_def subtype_step_edges)
qed

text \<open>A search that ends has either found the type, or visited all types below those on the stack.\<close>

lemma search_result:
  assumes "search_subtypes m sub stack = Some found"
  shows "(found \<longrightarrow> (\<exists>x \<in> set stack. (x, sub) \<in> (subtype_step m)\<^sup>*)) \<and>
    (\<not> found \<longrightarrow> set stack \<subseteq> Wellfounded.acc ((subtype_step m)\<inverse>))"
proof (rule search_subtypes.raw_induct [of "\<lambda>m sub stack found.
    (found \<longrightarrow> (\<exists>x \<in> set stack. (x, sub) \<in> (subtype_step m)\<^sup>*)) \<and>
    (\<not> found \<longrightarrow> set stack \<subseteq> Wellfounded.acc ((subtype_step m)\<inverse>))", OF _ assms])
  fix search :: "(NodeId \<rightharpoonup> Reference list) \<Rightarrow> NodeId \<Rightarrow> NodeId list \<Rightarrow> bool option" and m sub stack found
  assume 1: "\<And>m sub stack found. search m sub stack = Some found \<Longrightarrow>
      (found \<longrightarrow> (\<exists>x \<in> set stack. (x, sub) \<in> (subtype_step m)\<^sup>*)) \<and>
      (\<not> found \<longrightarrow> set stack \<subseteq> Wellfounded.acc ((subtype_step m)\<inverse>))"
    "(case stack of [] \<Rightarrow> Some False
      | current # rest \<Rightarrow>
          if sub = current then Some True
          else if sub \<in> set (subtypes_of m current) then Some True
          else search m sub (rev (subtypes_of m current) @ rest)) = Some found"
  show "(found \<longrightarrow> (\<exists>x \<in> set stack. (x, sub) \<in> (subtype_step m)\<^sup>*)) \<and>
      (\<not> found \<longrightarrow> set stack \<subseteq> Wellfounded.acc ((subtype_step m)\<inverse>))"
  proof (cases stack)
    case Nil
    then have "\<not> found" using 1(2) by simp
    then show ?thesis using Nil by auto
  next
    case (Cons x rest)
    show ?thesis
    proof (cases "sub = x \<or> sub \<in> set (subtypes_of m x)")
      case True
      then have "(x, sub) \<in> (subtype_step m)\<^sup>*" by (auto simp: subtype_step_def)
      moreover have found using True Cons 1(2) by (auto split: if_splits)
      ultimately show ?thesis using Cons by auto
    next
      case False
      then have "search m sub (rev (subtypes_of m x) @ rest) = Some found" using Cons 1(2) by simp
      note IH = 1(1) [OF this]
      show ?thesis
      proof (cases found)
        case True
        then obtain y where y: "y \<in> set (subtypes_of m x) \<or> y \<in> set rest" "(y, sub) \<in> (subtype_step m)\<^sup>*"
          using IH by fastforce
        have "(x, y) \<in> subtype_step m" if "y \<in> set (subtypes_of m x)" using that by (simp add: subtype_step_def)
        then have "\<exists>z \<in> set stack. (z, sub) \<in> (subtype_step m)\<^sup>*"
          using y by (auto simp: Cons intro: converse_rtrancl_into_rtrancl)
        then show ?thesis using True by simp
      next
        case False
        then have below: "set (subtypes_of m x) \<subseteq> Wellfounded.acc ((subtype_step m)\<inverse>)"
          and rest: "set rest \<subseteq> Wellfounded.acc ((subtype_step m)\<inverse>)" using IH by auto
        have "x \<in> Wellfounded.acc ((subtype_step m)\<inverse>)"
          by (rule accI) (use below in \<open>auto simp: subtype_step_def\<close>)
        then show ?thesis using False rest by (simp add: Cons)
      qed
    qed
  qed
qed

lemma acc_no_cycle: "x \<in> Wellfounded.acc R \<Longrightarrow> (x, x) \<notin> R\<^sup>+"
proof (induction rule: acc_induct_rule)
  case (1 x)
  show ?case
  proof
    assume "(x, x) \<in> R\<^sup>+"
    then obtain y where "(x, y) \<in> R\<^sup>*" "(y, x) \<in> R" by (meson tranclD2)
    then show False using 1 by (meson rtrancl_into_trancl2)
  qed
qed

lemma acc_below: "x \<in> Wellfounded.acc (R\<inverse>) \<Longrightarrow> (x, y) \<in> R\<^sup>* \<Longrightarrow> y \<in> Wellfounded.acc (R\<inverse>)"
  by (rule acc_downwards [of x]) (simp_all add: rtrancl_converseI)

lemma reference_type_matches_cycle:
  assumes "(a, c) \<in> {(a, b). (a, HasSubtype, b) \<in> edges refs}\<^sup>*" "(c, c) \<in> {(a, b). (a, HasSubtype, b) \<in> edges refs}\<^sup>+"
    and "(a, b) \<notin> {(a, b). (a, HasSubtype, b) \<in> edges refs}\<^sup>*"
  shows "reference_type_matches refs a b True = None"
proof (rule ccontr)
  let ?R = "subtype_step (references_map refs)"
  assume "reference_type_matches refs a b True \<noteq> None"
  moreover have "a \<noteq> b" using assms(3) by auto
  ultimately obtain found where "search_subtypes (references_map refs) b [a] = Some found"
    by (auto simp: reference_type_matches_def)
  from search_result [OF this] assms(3) have "a \<in> Wellfounded.acc (?R\<inverse>)" by (auto simp: subtype_step_edges)
  moreover have "(a, c) \<in> ?R\<^sup>*" using assms(1) by (simp only: subtype_step_edges)
  ultimately have "c \<in> Wellfounded.acc (?R\<inverse>)" by (rule acc_below)
  then have "(c, c) \<notin> (?R\<inverse>)\<^sup>+" by (rule acc_no_cycle)
  then show False using assms(2) unfolding subtype_step_edges trancl_converse by simp
qed

section \<open>Properties of the store\<close>

definition subtype_graph :: "References \<Rightarrow> (NodeId \<times> NodeId) set" where
  "subtype_graph refs = {(a, b). has_reference a b HasSubtype refs}"

lemma subtype_graph_edges: "subtype_graph refs = {(a, b). (a, HasSubtype, b) \<in> edges refs}"
  by (simp add: subtype_graph_def has_reference_iff)

definition sample_references :: References where
  "sample_references =
     (case insert_references [(ns0 1, ns0 2, HasSubtype), (ns0 2, ns0 1, HasTypeDefinition), (ns0 2, ns0 3, HasSubtype)]
             References_default of
        Inl e \<Rightarrow> References_default
      | Inr refs \<Rightarrow> refs)"

definition cyclic_references :: References where
  "cyclic_references =
     (case insert_references [(ns0 1, ns0 2, HasSubtype), (ns0 2, ns0 1, HasSubtype)] References_default of
        Inl e \<Rightarrow> References_default
      | Inr refs \<Rightarrow> refs)"

lemma ns0_eq [simp]: "ns0 i = ns0 j \<longleftrightarrow> i = j"
  by (simp add: ns0_def)

lemma insert_references_reachable:
  "insert_references es refs = Inr refs' \<Longrightarrow> references_reachable refs \<Longrightarrow> references_reachable refs'"
  by (induction es refs rule: insert_references.induct)
    (auto simp: bindR_eq_Inr intro: references_reachable.inserted)

lemma References_default_ok: "refs_ok References_default" "edges References_default = {}"
  by (rule references_reachable_ok [OF references_reachable.empty])
    (simp add: edges_def outgoing_def References_default_def)

lemma sample_references_graph:
  "references_reachable sample_references"
  "edges sample_references = {(ns0 1, HasSubtype, ns0 2), (ns0 2, HasTypeDefinition, ns0 1), (ns0 2, HasSubtype, ns0 3)}"
proof -
  obtain refs where refs: "insert_references [(ns0 1, ns0 2, HasSubtype), (ns0 2, ns0 1, HasTypeDefinition), (ns0 2, ns0 3, HasSubtype)]
      References_default = Inr refs"
    "edges refs = {(ns0 1, HasSubtype, ns0 2), (ns0 2, HasTypeDefinition, ns0 1), (ns0 2, HasSubtype, ns0 3)}"
    using reference_store.add_all_edges [OF References_default_ok(1), of
        "[(ns0 1, ns0 2, HasSubtype), (ns0 2, ns0 1, HasTypeDefinition), (ns0 2, ns0 3, HasSubtype)]"]
    unfolding insert_references_add_all References_default_ok(2) by auto
  then have "sample_references = refs" by (simp only: sample_references_def sum.case)
  with refs insert_references_reachable [OF refs(1) references_reachable.empty]
  show "references_reachable sample_references"
    "edges sample_references = {(ns0 1, HasSubtype, ns0 2), (ns0 2, HasTypeDefinition, ns0 1), (ns0 2, HasSubtype, ns0 3)}"
    by simp_all
qed

lemma cyclic_references_graph:
  "references_reachable cyclic_references"
  "edges cyclic_references = {(ns0 1, HasSubtype, ns0 2), (ns0 2, HasSubtype, ns0 1)}"
proof -
  obtain refs where refs: "insert_references [(ns0 1, ns0 2, HasSubtype), (ns0 2, ns0 1, HasSubtype)] References_default = Inr refs"
    "edges refs = {(ns0 1, HasSubtype, ns0 2), (ns0 2, HasSubtype, ns0 1)}"
    using reference_store.add_all_edges [OF References_default_ok(1), of
        "[(ns0 1, ns0 2, HasSubtype), (ns0 2, ns0 1, HasSubtype)]"]
    unfolding insert_references_add_all References_default_ok(2) by auto
  then have "cyclic_references = refs" by (simp only: cyclic_references_def sum.case)
  with refs insert_references_reachable [OF refs(1) references_reachable.empty]
  show "references_reachable cyclic_references"
    "edges cyclic_references = {(ns0 1, HasSubtype, ns0 2), (ns0 2, HasSubtype, ns0 1)}"
    by simp_all
qed

lemma HasTypeDefinition_HasSubtype [simp]: "HasTypeDefinition \<noteq> HasSubtype" "HasSubtype \<noteq> HasTypeDefinition"
  by (simp_all add: HasTypeDefinition_def HasSubtype_def)

text \<open>C19: In every state the operations can reach, the forward and the inverse view of the references agree:
  a reference is reported by \<open>has_reference\<close> exactly if the search for the references of its source finds it, and
  exactly if the search for the inverse references of its target does. No node refers to itself.\<close>

theorem references_views_agree:
  assumes "references_reachable refs"
  shows "(has_reference s t l refs \<longleftrightarrow> (\<exists>found. find_references s None refs = Some (Some found) \<and>
      \<lparr> reference_type = l, target_node = t \<rparr> \<in> set found)) \<and>
    (has_reference s t l refs \<longleftrightarrow> (\<exists>found. find_inverse_references t None refs = Some (Some found) \<and>
      \<lparr> reference_type = l, target_node = s \<rparr> \<in> set found)) \<and>
    \<not> has_reference s s l refs"
proof -
  have ok: "refs_ok refs" by (rule references_reachable_ok [OF assms])
  then have "(s, l, s) \<notin> edges refs" by (auto simp: edges_iff refs_ok_def)
  then show ?thesis
    using find_inverse_references_all [OF ok, of t l s]
    by (simp add: has_reference_iff find_references_all set_non_empty edges_def)
qed

theorem references_views_agree_witness:
  "(\<exists>found. find_inverse_references (ns0 3) None sample_references = Some (Some found) \<and>
      \<lparr> reference_type = HasSubtype, target_node = ns0 2 \<rparr> \<in> set found) \<and>
    (\<exists>found. find_references (ns0 2) None sample_references = Some (Some found) \<and>
      \<lparr> reference_type = HasSubtype, target_node = ns0 3 \<rparr> \<in> set found)"
  using references_views_agree [OF sample_references_graph(1), of "ns0 2" "ns0 3" HasSubtype]
  by (simp add: has_reference_iff sample_references_graph(2))

text \<open>C18: The two maps implement a set of labelled edges: inserting a batch of references with distinct ends
  returns and adds just these edges, and deleting the references of a node afterwards leaves exactly the edges
  that neither start nor end at it.\<close>

theorem references_refine_edges:
  assumes "refs_ok refs" "\<forall>(s, t, l) \<in> set es. s \<noteq> t"
  shows "\<exists>refs'. insert_references es refs = Inr refs' \<and> refs_ok refs' \<and>
    edges refs' = edges refs \<union> (\<lambda>(s, t, l). (s, l, t)) ` set es \<and>
    refs_ok (snd (delete_node_references n refs')) \<and>
    edges (snd (delete_node_references n refs')) = {(s, l, t) \<in> edges refs'. s \<noteq> n \<and> t \<noteq> n}"
proof -
  obtain refs' where refs': "insert_references es refs = Inr refs'" "refs_ok refs'"
    "edges refs' = edges refs \<union> (\<lambda>(s, t, l). (s, l, t)) ` set es"
    using reference_store.add_all_edges [OF assms] unfolding insert_references_add_all by (elim exE conjE)
  show ?thesis
    by (intro exI [of _ refs'] conjI refs' reference_store.drop_edges reference_store.drop_ok)
qed

theorem references_refine_edges_witness:
  "\<exists>refs'. insert_references [(ns0 1, ns0 2, HasSubtype), (ns0 2, ns0 3, HasSubtype), (ns0 4, ns0 3, HasSubtype)]
      References_default = Inr refs' \<and>
    edges (snd (delete_node_references (ns0 2) refs')) = {(ns0 4, HasSubtype, ns0 3)}"
proof -
  obtain refs' where "insert_references [(ns0 1, ns0 2, HasSubtype), (ns0 2, ns0 3, HasSubtype), (ns0 4, ns0 3, HasSubtype)]
      References_default = Inr refs'"
    "edges refs' = {(ns0 1, HasSubtype, ns0 2), (ns0 2, HasSubtype, ns0 3), (ns0 4, HasSubtype, ns0 3)}"
    "edges (snd (delete_node_references (ns0 2) refs')) = {(s, l, t) \<in> edges refs'. s \<noteq> ns0 2 \<and> t \<noteq> ns0 2}"
    using references_refine_edges [OF References_default_ok(1), of
        "[(ns0 1, ns0 2, HasSubtype), (ns0 2, ns0 3, HasSubtype), (ns0 4, ns0 3, HasSubtype)]" "ns0 2"]
    unfolding References_default_ok(2) by auto
  moreover have "{(s, l, t) \<in> {(ns0 1, HasSubtype, ns0 2), (ns0 2, HasSubtype, ns0 3), (ns0 4, HasSubtype, ns0 3)}.
      s \<noteq> ns0 2 \<and> t \<noteq> ns0 2} = {(ns0 4, HasSubtype, ns0 3)}" by auto
  ultimately show ?thesis by auto
qed

text \<open>C21: What deleting a reference does to every other reference. The reference itself goes; if it was the
  only one from its source to its target, all references from the target back to the source go with it,
  whatever their types. All others stay.\<close>

theorem delete_reference_effect:
  assumes "references_reachable refs"
  shows "has_reference a b k (snd (delete_reference s t l refs)) \<longleftrightarrow>
    has_reference a b k refs \<and> (a, k, b) \<noteq> (s, l, t) \<and>
    \<not> (a = t \<and> b = s \<and> has_reference s t l refs \<and> (\<forall>l'. has_reference s t l' refs \<longrightarrow> l' = l))"
  using delete_reference_edges [OF references_reachable_ok [OF assms], of s t l]
  by (auto simp: has_reference_iff last_to_target_def)

theorem delete_reference_effect_witness:
  "has_reference (ns0 2) (ns0 1) HasTypeDefinition sample_references \<and>
    \<not> has_reference (ns0 2) (ns0 1) HasTypeDefinition (snd (delete_reference (ns0 1) (ns0 2) HasSubtype sample_references)) \<and>
    has_reference (ns0 2) (ns0 3) HasSubtype (snd (delete_reference (ns0 1) (ns0 2) HasSubtype sample_references))"
  unfolding delete_reference_effect [OF sample_references_graph(1)]
  by (simp add: has_reference_iff sample_references_graph(2))

text \<open>C20: As long as the references HasSubtype contain no cycle, the test whether a type matches another one
  or one of its subtypes ends, and decides whether the second type is reached from the first by references
  HasSubtype.\<close>

theorem reference_type_matches_decides:
  assumes "references_reachable refs" "acyclic (subtype_graph refs)"
  shows "reference_type_matches refs a b True = Some ((a, b) \<in> (subtype_graph refs)\<^sup>*)"
proof -
  have "finite (dom (references_map refs))" using references_reachable_ok [OF assms(1)] by (simp add: refs_ok_def)
  from reference_type_matches_reach [OF this] assms(2) show ?thesis by (simp add: subtype_graph_edges)
qed

lemma sample_subtypes: "subtype_graph sample_references = {(ns0 1, ns0 2), (ns0 2, ns0 3)}"
  by (auto simp: subtype_graph_edges sample_references_graph(2))

theorem reference_type_matches_decides_witness: "reference_type_matches sample_references (ns0 1) (ns0 3) True = Some True"
proof -
  have "acyclic (subtype_graph sample_references)"
    unfolding sample_subtypes by (simp add: acyclic_insert rtrancl_insert) (simp add: acyclic_def)
  then have "reference_type_matches sample_references (ns0 1) (ns0 3) True =
      Some ((ns0 1, ns0 3) \<in> (subtype_graph sample_references)\<^sup>*)"
    by (rule reference_type_matches_decides [OF sample_references_graph(1)])
  moreover have "(ns0 1, ns0 3) \<in> (subtype_graph sample_references)\<^sup>*"
    unfolding sample_subtypes by (rule rtrancl_trans [of _ "ns0 2"]) auto
  ultimately show ?thesis by simp
qed

text \<open>C38: The test keeps no record of the types it has visited. If a cycle of references HasSubtype is reached
  from the first type and the second type is not, it never ends.\<close>

theorem subtype_cycle_diverges:
  assumes "(a, c) \<in> (subtype_graph refs)\<^sup>*" "(c, c) \<in> (subtype_graph refs)\<^sup>+" "(a, b) \<notin> (subtype_graph refs)\<^sup>*"
  shows "reference_type_matches refs a b True = None"
  using assms reference_type_matches_cycle unfolding subtype_graph_edges by blast

lemma cyclic_subtypes: "subtype_graph cyclic_references = {(ns0 1, ns0 2), (ns0 2, ns0 1)}"
  by (auto simp: subtype_graph_edges cyclic_references_graph(2))

theorem subtype_cycle_diverges_witness:
  "references_reachable cyclic_references \<and> reference_type_matches cyclic_references (ns0 1) (ns0 3) True = None"
proof -
  have "(ns0 1, ns0 1) \<in> (subtype_graph cyclic_references)\<^sup>+"
    unfolding cyclic_subtypes by (rule trancl_trans [of _ "ns0 2"]) auto
  moreover have "(ns0 1, ns0 3) \<notin> (subtype_graph cyclic_references)\<^sup>*"
  proof
    assume "(ns0 1, ns0 3) \<in> (subtype_graph cyclic_references)\<^sup>*"
    then show False by (cases rule: rtrancl.cases) (auto simp: cyclic_subtypes)
  qed
  ultimately show ?thesis using subtype_cycle_diverges [of "ns0 1" "ns0 1"] cyclic_references_graph(1) by simp
qed

end
