(* ===== verification/Opc_Address_Space.thy ===== *)
theory Opc_Address_Space
  imports Opc_Reference_Graph Opc_Item_Service
begin

text \<open>
  The address space (\<open>server/address_space/address_space.rs\<close>) as a map of nodes and their references, and the
  services of \<open>server/services/node_management.rs\<close> that add and delete references and delete nodes. Of a node
  the model keeps what these operations read, its id and its class, and of the address space the nodes, the
  references and the namespaces. The recursions of the source follow
  references and may not end, so they have fuel, and the searches over subtypes give an option.
\<close>

section \<open>The state\<close>

datatype NodeClass =
    NcUnspecified | NcObject | NcVariable | NcMethod | NcObjectType | NcVariableType | NcReferenceType | NcDataType
  | NcView

record Node =
  nd_node_id :: NodeId
  nd_node_class :: NodeClass

record AddressSpace =
  node_map :: "NodeId \<rightharpoonup> Node"
  as_references :: References
  namespaces :: "string list"

definition Aggregates :: NodeId where
  "Aggregates = ns0 44"

definition HierarchicalReferences :: NodeId where
  "HierarchicalReferences = ns0 33"

definition HasComponent :: NodeId where
  "HasComponent = ns0 47"

definition node_exists :: "NodeId \<Rightarrow> AddressSpace \<Rightarrow> bool" where
  "node_exists n asp \<longleftrightarrow> node_map asp n \<noteq> None"

section \<open>Inserting\<close>

definition assert_namespace :: "NodeId \<Rightarrow> AddressSpace \<Rightarrow> unit res" where
  "assert_namespace n asp = (if length (namespaces asp) < unat (ni_namespace n) then Inl Panic else Inr ())"

definition AddressSpace_insert ::
  "Node \<Rightarrow> (NodeId \<times> NodeId \<times> ReferenceDirection) list option \<Rightarrow> AddressSpace \<Rightarrow> (bool \<times> AddressSpace) res" where
  "AddressSpace_insert node references asp =
     bindR (assert_namespace (nd_node_id node) asp) (\<lambda>_.
       if node_exists (nd_node_id node) asp then Inr (False, asp)
       else
         let asp1 = asp \<lparr> node_map := (node_map asp)(nd_node_id node \<mapsto> node) \<rparr>
         in case references of
              None \<Rightarrow> Inr (True, asp1)
            | Some rs \<Rightarrow> mapR (\<lambda>refs. (True, asp1 \<lparr> as_references := refs \<rparr>))
                (References_insert (nd_node_id node) rs (as_references asp1)))"

definition AddressSpace_insert_reference :: "NodeId \<Rightarrow> NodeId \<Rightarrow> NodeId \<Rightarrow> AddressSpace \<Rightarrow> AddressSpace res" where
  "AddressSpace_insert_reference n target rtype asp =
     mapR (\<lambda>refs. asp \<lparr> as_references := refs \<rparr>) (insert_reference n target rtype (as_references asp))"

definition set_node_type :: "NodeId \<Rightarrow> NodeId \<Rightarrow> AddressSpace \<Rightarrow> AddressSpace res" where
  "set_node_type n node_type = AddressSpace_insert_reference n node_type HasTypeDefinition"

section \<open>Finding\<close>

definition find_aggregates_of :: "NodeId \<Rightarrow> AddressSpace \<Rightarrow> NodeId list option option" where
  "find_aggregates_of parent asp =
     map_option (map_option (map target_node)) (find_references parent (Some (Aggregates, True)) (as_references asp))"

definition find_hierarchical_references :: "NodeId \<Rightarrow> AddressSpace \<Rightarrow> NodeId list option option" where
  "find_hierarchical_references parent asp =
     map_option (map_option (map target_node))
       (find_references parent (Some (HierarchicalReferences, True)) (as_references asp))"

fun any_option :: "('a \<Rightarrow> bool option) \<Rightarrow> 'a list \<Rightarrow> bool option" where
  "any_option p [] = Some False"
| "any_option p (x # xs) = (case p x of None \<Rightarrow> None | Some True \<Rightarrow> Some True | Some False \<Rightarrow> any_option p xs)"

fun is_subtype :: "nat \<Rightarrow> NodeId \<Rightarrow> NodeId \<Rightarrow> AddressSpace \<Rightarrow> bool option" where
  "is_subtype 0 subtype_id base_type_id asp = None"
| "is_subtype (Suc fuel) subtype_id base_type_id asp =
     (if subtype_id = base_type_id then Some True
      else
        case find_references base_type_id (Some (HasSubtype, False)) (as_references asp) of
          None \<Rightarrow> None
        | Some found \<Rightarrow> any_option (\<lambda>r. is_subtype fuel subtype_id (target_node r) asp) (found_list found))"

definition is_valid_type_definition :: "NodeClass \<Rightarrow> NodeId \<Rightarrow> AddressSpace \<Rightarrow> bool" where
  "is_valid_type_definition cls type_id asp =
     (case cls of
        NcObject \<Rightarrow>
          if NodeId_is_null type_id then False
          else (case node_map asp type_id of Some node \<Rightarrow> nd_node_class node = NcObjectType | None \<Rightarrow> False)
      | NcVariable \<Rightarrow>
          if NodeId_is_null type_id then False
          else (case node_map asp type_id of Some node \<Rightarrow> nd_node_class node = NcVariableType | None \<Rightarrow> False)
      | _ \<Rightarrow> NodeId_is_null type_id)"

definition method_exists_on_object :: "NodeId \<Rightarrow> NodeId \<Rightarrow> AddressSpace \<Rightarrow> bool" where
  "method_exists_on_object object_id method_id asp =
     (if has_reference object_id method_id HasComponent (as_references asp) then True
      else case References_get_type_id object_id (as_references asp) of
        Some object_type_id \<Rightarrow> has_reference object_type_id method_id HasComponent (as_references asp)
      | None \<Rightarrow> False)"

section \<open>Deleting\<close>

fun fold_option :: "('a \<Rightarrow> 's \<Rightarrow> 's option) \<Rightarrow> 'a list \<Rightarrow> 's \<Rightarrow> 's option" where
  "fold_option f [] s = Some s"
| "fold_option f (x # xs) s = Option.bind (f x s) (fold_option f xs)"

definition delete_single :: "NodeId \<Rightarrow> bool \<Rightarrow> AddressSpace \<Rightarrow> bool \<times> AddressSpace" where
  "delete_single n delete_target_references asp =
     (let (removed_target_references, refs) =
            (if delete_target_references then delete_node_references n (as_references asp) else (False, as_references asp))
      in (node_map asp n \<noteq> None \<or> removed_target_references,
          asp \<lparr> node_map := (node_map asp)(n := None), as_references := refs \<rparr>))"

fun AddressSpace_delete :: "nat \<Rightarrow> NodeId \<Rightarrow> bool \<Rightarrow> AddressSpace \<Rightarrow> (bool \<times> AddressSpace) option" where
  "AddressSpace_delete 0 n delete_target_references asp = None"
| "AddressSpace_delete (Suc fuel) n delete_target_references asp =
     (case find_aggregates_of n asp of
        None \<Rightarrow> None
      | Some child_nodes \<Rightarrow>
          map_option (delete_single n delete_target_references)
            (fold_option (\<lambda>child asp. map_option snd (AddressSpace_delete fuel child delete_target_references asp))
              (found_list child_nodes) asp))"

section \<open>The node management service\<close>

definition BadTooManyOperations :: StatusCode where
  "BadTooManyOperations = 0x80100000"

definition BadUserAccessDenied :: StatusCode where
  "BadUserAccessDenied = 0x801F0000"

definition BadReferenceTypeIdInvalid :: StatusCode where
  "BadReferenceTypeIdInvalid = 0x804C0000"

definition BadServerUriInvalid :: StatusCode where
  "BadServerUriInvalid = 0x804F0000"

definition BadNodeClassInvalid :: StatusCode where
  "BadNodeClassInvalid = 0x805F0000"

definition BadSourceNodeIdInvalid :: StatusCode where
  "BadSourceNodeIdInvalid = 0x80640000"

definition BadTargetNodeIdInvalid :: StatusCode where
  "BadTargetNodeIdInvalid = 0x80650000"

definition BadDuplicateReferenceNotAllowed :: StatusCode where
  "BadDuplicateReferenceNotAllowed = 0x80660000"

definition BadReferenceLocalOnly :: StatusCode where
  "BadReferenceLocalOnly = 0x80680000"

text \<open>The numbers of the standard reference types, and the node ids that stand for one of them.\<close>

definition reference_type_ids :: "u32 list" where
  "reference_type_ids =
     [31, 32, 33, 34, 35, 36, 37, 38, 39, 40, 41, 44, 45, 46, 47, 48, 49, 51, 52, 53, 54, 56, 117, 129, 131, 3065,
      9004, 9005, 9006, 14476, 14936, 15112, 15296, 15297, 16361, 16362, 17276, 17597, 17603, 17604, 17983, 17984,
      17985, 18804, 18805, 23469]"

definition as_reference_type_id :: "NodeId \<Rightarrow> NodeId option" where
  "as_reference_type_id n =
     (if NodeId_is_null n then None
      else case ni_identifier n of
        IdNumeric i \<Rightarrow> if ni_namespace n = 0 \<and> i \<in> set reference_type_ids then Some (ns0 i) else None
      | _ \<Rightarrow> None)"

record AddReferencesItem =
  ari_source_node_id :: NodeId
  ari_reference_type_id :: NodeId
  ari_is_forward :: bool
  ari_target_server_uri :: UAString
  ari_target_node_id :: ExpandedNodeId
  ari_target_node_class :: NodeClass

record DeleteNodesItem =
  dni_node_id :: NodeId
  dni_delete_target_references :: bool

record DeleteReferencesItem =
  dri_source_node_id :: NodeId
  dri_reference_type_id :: NodeId
  dri_is_forward :: bool
  dri_target_node_id :: ExpandedNodeId
  dri_delete_bidirectional :: bool

definition add_reference :: "bool \<Rightarrow> AddReferencesItem \<Rightarrow> AddressSpace \<Rightarrow> (StatusCode \<times> AddressSpace) res" where
  "add_reference can_modify_address_space item asp =
     (let source = ari_source_node_id item;
          target = en_node_id (ari_target_node_id item)
      in if \<not> can_modify_address_space then Inr (BadUserAccessDenied, asp)
      else if \<not> UAString_is_null (ari_target_server_uri item) then Inr (BadServerUriInvalid, asp)
      else if en_server_index (ari_target_node_id item) \<noteq> 0 then Inr (BadReferenceLocalOnly, asp)
      else if \<not> node_exists source asp then Inr (BadSourceNodeIdInvalid, asp)
      else if \<not> node_exists target asp then Inr (BadTargetNodeIdInvalid, asp)
      else if ari_target_node_class item = NcUnspecified then Inr (BadNodeClassInvalid, asp)
      else if (case node_map asp target of
                 Some node \<Rightarrow> ari_target_node_class item \<noteq> nd_node_class node
               | None \<Rightarrow> False) then Inr (BadNodeClassInvalid, asp)
      else case as_reference_type_id (ari_reference_type_id item) of
        None \<Rightarrow> Inr (BadReferenceTypeIdInvalid, asp)
      | Some rtype \<Rightarrow>
          if has_reference source target rtype (as_references asp) then Inr (BadDuplicateReferenceNotAllowed, asp)
          else mapR (\<lambda>asp'. (Good, asp'))
            (if ari_is_forward item then AddressSpace_insert_reference source target rtype asp
             else AddressSpace_insert_reference target source rtype asp))"

definition delete_node :: "nat \<Rightarrow> bool \<Rightarrow> DeleteNodesItem \<Rightarrow> AddressSpace \<Rightarrow> (StatusCode \<times> AddressSpace) res" where
  "delete_node fuel can_modify_address_space item asp =
     (if \<not> can_modify_address_space then Inr (BadUserAccessDenied, asp)
      else case AddressSpace_delete fuel (dni_node_id item) (dni_delete_target_references item) asp of
        None \<Rightarrow> Inl OutOfFuel
      | Some (deleted, asp') \<Rightarrow> Inr (if deleted then Good else BadNodeIdUnknown, asp'))"

definition AddressSpace_delete_reference :: "NodeId \<Rightarrow> NodeId \<Rightarrow> NodeId \<Rightarrow> AddressSpace \<Rightarrow> bool \<times> AddressSpace" where
  "AddressSpace_delete_reference n target rtype asp =
     (let (deleted, refs) = delete_reference n target rtype (as_references asp)
      in (deleted, asp \<lparr> as_references := refs \<rparr>))"

definition delete_reference_item ::
  "bool \<Rightarrow> DeleteReferencesItem \<Rightarrow> AddressSpace \<Rightarrow> (StatusCode \<times> AddressSpace) res" where
  "delete_reference_item can_modify_address_space item asp =
     (let n = dri_source_node_id item;
          target = en_node_id (dri_target_node_id item)
      in if \<not> can_modify_address_space then Inr (BadUserAccessDenied, asp)
      else if en_server_index (dri_target_node_id item) \<noteq> 0 then Inr (BadReferenceLocalOnly, asp)
      else if NodeId_is_null n \<or> \<not> node_exists n asp then Inr (BadSourceNodeIdInvalid, asp)
      else if NodeId_is_null target \<or> \<not> node_exists target asp then Inr (BadTargetNodeIdInvalid, asp)
      else case as_reference_type_id (dri_reference_type_id item) of
        None \<Rightarrow> Inr (BadReferenceTypeIdInvalid, asp)
      | Some rtype \<Rightarrow>
          Inr (Good,
            if dri_delete_bidirectional item then
              snd (AddressSpace_delete_reference target n rtype (snd (AddressSpace_delete_reference n target rtype asp)))
            else if dri_is_forward item then snd (AddressSpace_delete_reference n target rtype asp)
            else snd (AddressSpace_delete_reference target n rtype asp)))"

text \<open>The items of a request are handled one after the other on the same address space. The responses carry
  a header and the results; their diagnostic infos are always absent.\<close>

datatype node_management_response =
    AddReferences ResponseHeader "StatusCode list option"
  | DeleteNodes ResponseHeader "StatusCode list option"
  | DeleteReferences ResponseHeader "StatusCode list option"

type_synonym node_management_service =
  "AddressSpace \<Rightarrow> (node_management_response SupportedMessage \<times> AddressSpace) res"

fun map_items :: "('i \<Rightarrow> 's \<Rightarrow> ('r \<times> 's) res) \<Rightarrow> 'i list \<Rightarrow> 's \<Rightarrow> ('r list \<times> 's) res" where
  "map_items f [] s = Inr ([], s)"
| "map_items f (x # xs) s =
     bindR (f x s) (\<lambda>(r, s'). mapR (\<lambda>(rs, s''). (r # rs, s'')) (map_items f xs s'))"

definition node_management_request ::
  "DateTime \<Rightarrow> RequestHeader \<Rightarrow> nat \<Rightarrow> (ResponseHeader \<Rightarrow> StatusCode list option \<Rightarrow> node_management_response) \<Rightarrow>
    ('i \<Rightarrow> AddressSpace \<Rightarrow> (StatusCode \<times> AddressSpace) res) \<Rightarrow> 'i list option \<Rightarrow> node_management_service" where
  "node_management_request clock header max_nodes_per_node_management response f items asp =
     (if is_empty_option_vec items then Inr (ServiceFault_new clock header BadNothingToDo, asp)
      else if length (vec_of items) \<le> max_nodes_per_node_management then
        mapR (\<lambda>(results, asp'). (SmService (response (new_timestamped_service_result clock header Good) (Some results)), asp'))
          (map_items f (vec_of items) asp)
      else Inr (ServiceFault_new clock header BadTooManyOperations, asp))"

definition add_references ::
  "DateTime \<Rightarrow> RequestHeader \<Rightarrow> nat \<Rightarrow> bool \<Rightarrow> AddReferencesItem list option \<Rightarrow> node_management_service" where
  "add_references clock header limit can_modify =
     node_management_request clock header limit AddReferences (add_reference can_modify)"

definition delete_nodes ::
  "DateTime \<Rightarrow> RequestHeader \<Rightarrow> nat \<Rightarrow> nat \<Rightarrow> bool \<Rightarrow> DeleteNodesItem list option \<Rightarrow> node_management_service" where
  "delete_nodes clock header limit fuel can_modify =
     node_management_request clock header limit DeleteNodes (delete_node fuel can_modify)"

definition delete_references ::
  "DateTime \<Rightarrow> RequestHeader \<Rightarrow> nat \<Rightarrow> bool \<Rightarrow> DeleteReferencesItem list option \<Rightarrow> node_management_service" where
  "delete_references clock header limit can_modify =
     node_management_request clock header limit DeleteReferences (delete_reference_item can_modify)"

section \<open>Deleting a node with its aggregates\<close>

definition aggregates :: "References \<Rightarrow> (NodeId \<times> NodeId) set" where
  "aggregates refs = {(p, c). \<exists>l. has_reference p c l refs \<and> (Aggregates, l) \<in> (subtype_graph refs)\<^sup>*}"

text \<open>Cutting a set of nodes out of a graph keeps what is reached from a node whose paths avoid them.\<close>

lemma rtrancl_avoid:
  assumes "R\<^sup>* `` {a} \<inter> S = {}"
  shows "(a, b) \<in> (R \<inter> (- S) \<times> (- S))\<^sup>* \<longleftrightarrow> (a, b) \<in> R\<^sup>*"
proof
  assume "(a, b) \<in> R\<^sup>*"
  then show "(a, b) \<in> (R \<inter> (- S) \<times> (- S))\<^sup>*"
  proof (induction rule: rtrancl_induct)
    case (step b c)
    then have "b \<notin> S" "c \<notin> S" using assms by (auto intro: rtrancl_into_rtrancl)
    then show ?case using step by (auto intro: rtrancl_into_rtrancl)
  qed simp
qed (rule subsetD [OF rtrancl_mono], auto)

lemma rtrancl_Image_step: "R\<^sup>* `` {n} = insert n (R\<^sup>* `` (R `` {n}))"
  by (auto elim: converse_rtranclE intro: converse_rtrancl_into_rtrancl)

lemma filter_option_total: "(\<And>x. p x = Some (q x)) \<Longrightarrow> filter_option p xs = Some (filter q xs)"
  by (induction xs) auto

lemma set_found_list: "set (found_list (map_option (map f) (non_empty xs))) = f ` set xs"
  by (simp add: found_list_def non_empty_def)

lemma find_aggregates_result:
  assumes "refs_ok (as_references asp)" "acyclic (subtype_graph (as_references asp))"
  shows "\<exists>found. find_aggregates_of n asp = Some found \<and> set (found_list found) = aggregates (as_references asp) `` {n}"
proof -
  let ?refs = "as_references asp"
  have "reference_type_matches ?refs Aggregates l True = Some ((Aggregates, l) \<in> (subtype_graph ?refs)\<^sup>*)" for l
    using reference_type_matches_reach [of ?refs] assms by (simp add: refs_ok_def subtype_graph_edges)
  then have found: "find_aggregates_of n asp = Some (map_option (map target_node) (non_empty
      (filter (\<lambda>r. (Aggregates, reference_type r) \<in> (subtype_graph ?refs)\<^sup>*) (outgoing ?refs n))))"
    by (cases "references_map ?refs n")
      (simp_all add: find_aggregates_of_def find_references_def filter_references_by_type_def filter_option_total
        non_empty_def outgoing_def)
  have "target_node ` set (filter (\<lambda>r. (Aggregates, reference_type r) \<in> (subtype_graph ?refs)\<^sup>*) (outgoing ?refs n)) =
      aggregates ?refs `` {n}"
    by (auto simp: aggregates_def has_reference_iff edges_iff)
  then have "set (found_list (map_option (map target_node) (non_empty
      (filter (\<lambda>r. (Aggregates, reference_type r) \<in> (subtype_graph ?refs)\<^sup>*) (outgoing ?refs n))))) =
      aggregates ?refs `` {n}"
    by (simp only: set_found_list)
  with found show ?thesis by blast
qed

lemma finite_aggregates:
  assumes "refs_ok refs"
  shows "finite (aggregates refs)"
proof (rule finite_subset)
  show "aggregates refs \<subseteq> (SIGMA p : dom (references_map refs). target_node ` set (outgoing refs p))"
  proof
    fix e
    assume "e \<in> aggregates refs"
    then obtain p r where "e = (p, target_node r)" "r \<in> set (outgoing refs p)"
      by (auto simp: aggregates_def has_reference_iff edges_iff)
    then show "e \<in> (SIGMA p : dom (references_map refs). target_node ` set (outgoing refs p))"
      by (cases "references_map refs p") (auto simp: outgoing_def)
  qed
  show "finite (SIGMA p : dom (references_map refs). target_node ` set (outgoing refs p))"
    using assms by (simp add: refs_ok_def)
qed

text \<open>The state once the nodes of a set, and their references if asked for, are gone.\<close>

definition without :: "bool \<Rightarrow> NodeId set \<Rightarrow> AddressSpace \<Rightarrow> AddressSpace \<Rightarrow> bool" where
  "without refs_too D asp asp' \<longleftrightarrow> refs_ok (as_references asp') \<and> node_map asp' = node_map asp |` (- D) \<and>
     namespaces asp' = namespaces asp \<and>
     edges (as_references asp') = (if refs_too then {(s, l, t) \<in> edges (as_references asp). s \<notin> D \<and> t \<notin> D}
       else edges (as_references asp))"

lemma without_subtypes:
  "without refs_too D asp asp' \<Longrightarrow> subtype_graph (as_references asp') =
     (if refs_too then subtype_graph (as_references asp) \<inter> (- D) \<times> (- D) else subtype_graph (as_references asp))"
  by (auto simp: without_def subtype_graph_edges)

lemma without_aggregates:
  assumes "without refs_too D asp asp'" "(subtype_graph (as_references asp))\<^sup>* `` {Aggregates} \<inter> D = {}"
  shows "aggregates (as_references asp') =
    (if refs_too then aggregates (as_references asp) \<inter> (- D) \<times> (- D) else aggregates (as_references asp))"
  using assms(1) rtrancl_avoid [OF assms(2)]
  by (auto simp: aggregates_def has_reference_iff without_subtypes [OF assms(1)] without_def)

lemma delete_single_without:
  assumes "without refs_too D asp asp1"
  shows "without refs_too (insert n D) asp (snd (delete_single n refs_too asp1))"
    "n \<notin> D \<Longrightarrow> node_exists n asp \<Longrightarrow> fst (delete_single n refs_too asp1)"
proof -
  obtain r refs where d: "delete_node_references n (as_references asp1) = (r, refs)" by fastforce
  have ok: "refs_ok (as_references asp1)" using assms by (simp add: without_def)
  have "refs_ok refs" "edges refs = {(s, l, t) \<in> edges (as_references asp1). s \<noteq> n \<and> t \<noteq> n}"
    using delete_node_references_ok [OF ok, of n] by (simp_all add: d)
  moreover have "(f |` (- D))(n := None) = f |` (- insert n D)" for f :: "NodeId \<rightharpoonup> Node"
    by (auto simp: restrict_map_def)
  ultimately show "without refs_too (insert n D) asp (snd (delete_single n refs_too asp1))"
    using assms ok by (auto simp: without_def delete_single_def d)
  show "n \<notin> D \<Longrightarrow> node_exists n asp \<Longrightarrow> fst (delete_single n refs_too asp1)"
    using assms by (simp add: delete_single_def without_def node_exists_def restrict_map_def Let_def split: prod.split)
qed

lemma fold_delete_without:
  fixes refs_too :: bool and asp :: AddressSpace
  defines "R \<equiv> aggregates (as_references asp)"
  assumes one: "\<And>c D asp1. c \<in> set cs \<Longrightarrow> D \<subseteq> U \<Longrightarrow> R `` D \<subseteq> D \<Longrightarrow> without refs_too D asp asp1 \<Longrightarrow>
      \<exists>k r asp'. (\<forall>fuel \<ge> k. AddressSpace_delete fuel c refs_too asp1 = Some (r, asp')) \<and>
        without refs_too (D \<union> R\<^sup>* `` {c}) asp asp'"
    and "D \<subseteq> U" "R `` D \<subseteq> D" "R\<^sup>* `` set cs \<subseteq> U" "without refs_too D asp asp1"
  shows "\<exists>k asp'. (\<forall>fuel \<ge> k. fold_option (\<lambda>c a. map_option snd (AddressSpace_delete fuel c refs_too a)) cs asp1 = Some asp') \<and>
    without refs_too (D \<union> R\<^sup>* `` set cs) asp asp'"
  using assms(2-)
proof (induction cs arbitrary: D asp1)
  case (Cons c cs)
  obtain k r asp2 where step: "\<forall>fuel \<ge> k. AddressSpace_delete fuel c refs_too asp1 = Some (r, asp2)"
    "without refs_too (D \<union> R\<^sup>* `` {c}) asp asp2"
    using Cons.prems(1) [of c D asp1] Cons.prems(2,3,5) by auto
  have sub: "D \<union> R\<^sup>* `` {c} \<subseteq> U" using Cons.prems(2,4) by auto
  have closed: "R `` (D \<union> R\<^sup>* `` {c}) \<subseteq> D \<union> R\<^sup>* `` {c}"
    using Cons.prems(3) by (auto intro: rtrancl_into_rtrancl)
  have rest: "R\<^sup>* `` set cs \<subseteq> U" using Cons.prems(4) by auto
  from Cons.IH [OF Cons.prems(1) sub closed rest step(2)] obtain k' asp' where
    "\<forall>fuel \<ge> k'. fold_option (\<lambda>c a. map_option snd (AddressSpace_delete fuel c refs_too a)) cs asp2 = Some asp'"
    "without refs_too (D \<union> R\<^sup>* `` {c} \<union> R\<^sup>* `` set cs) asp asp'" by auto
  moreover have "D \<union> R\<^sup>* `` {c} \<union> R\<^sup>* `` set cs = D \<union> R\<^sup>* `` set (c # cs)" by auto
  ultimately show ?case using step(1) by (intro exI [of _ "max k k'"] exI [of _ asp']) simp
qed (auto intro: exI [of _ 0])

lemma delete_without:
  fixes refs_too :: bool and asp :: AddressSpace
  defines "R \<equiv> aggregates (as_references asp)"
  assumes wf: "wf (R\<inverse>)" and subtypes: "acyclic (subtype_graph (as_references asp))"
    and types: "(subtype_graph (as_references asp))\<^sup>* `` {Aggregates} \<inter> U = {}"
    and "R\<^sup>* `` {n} \<subseteq> U" "D \<subseteq> U" "R `` D \<subseteq> D" "without refs_too D asp asp1"
  shows "\<exists>k r asp'. (\<forall>fuel \<ge> k. AddressSpace_delete fuel n refs_too asp1 = Some (r, asp')) \<and>
    without refs_too (D \<union> R\<^sup>* `` {n}) asp asp' \<and> (n \<notin> D \<and> node_exists n asp \<longrightarrow> r)"
  using wf assms(5-)
proof (induction n arbitrary: D asp1 rule: wf_induct_rule)
  case (less n)
  have "subtype_graph (as_references asp1) \<subseteq> subtype_graph (as_references asp)"
    by (simp add: without_subtypes [OF less.prems(4)])
  then have acyc: "acyclic (subtype_graph (as_references asp1))" by (rule acyclic_subset [OF subtypes])
  have ok: "refs_ok (as_references asp1)" using less.prems(4) by (simp add: without_def)
  obtain found where found: "find_aggregates_of n asp1 = Some found"
    "set (found_list found) = aggregates (as_references asp1) `` {n}"
    using find_aggregates_result [OF ok acyc] by blast
  define cs where "cs = found_list found"
  have "(subtype_graph (as_references asp))\<^sup>* `` {Aggregates} \<inter> D = {}" using types less.prems(2) by blast
  from without_aggregates [OF less.prems(4) this] found(2)
  have cs: "set cs \<subseteq> R `` {n}" "R `` {n} \<subseteq> set cs \<union> D"
    using less.prems(3) unfolding R_def cs_def by (auto split: if_splits)
  have below: "R\<^sup>* `` set cs \<subseteq> U"
    using cs(1) less.prems(1) by (auto intro: converse_rtrancl_into_rtrancl)
  have "\<exists>k asp'. (\<forall>fuel \<ge> k. fold_option (\<lambda>c a. map_option snd (AddressSpace_delete fuel c refs_too a)) cs asp1 = Some asp') \<and>
    without refs_too (D \<union> R\<^sup>* `` set cs) asp asp'"
    unfolding R_def
  proof (rule fold_delete_without [OF _ less.prems(2)])
    fix c D' asp2
    assume c: "c \<in> set cs" "D' \<subseteq> U" "aggregates (as_references asp) `` D' \<subseteq> D'" "without refs_too D' asp asp2"
    then have "(c, n) \<in> R\<inverse>" "R\<^sup>* `` {c} \<subseteq> U" using cs(1) below by auto
    from less.IH [OF this c(2) c(3) [folded R_def] c(4)] obtain k r asp' where
      "\<forall>fuel \<ge> k. AddressSpace_delete fuel c refs_too asp2 = Some (r, asp')" "without refs_too (D' \<union> R\<^sup>* `` {c}) asp asp'"
      by (elim exE conjE)
    then show "\<exists>k r asp'. (\<forall>fuel \<ge> k. AddressSpace_delete fuel c refs_too asp2 = Some (r, asp')) \<and>
        without refs_too (D' \<union> (aggregates (as_references asp))\<^sup>* `` {c}) asp asp'"
      unfolding R_def by (intro exI conjI)
  qed (use less.prems(3,4) below in \<open>simp_all add: R_def\<close>)
  then obtain k asp2 where k: "\<forall>fuel \<ge> k.
      fold_option (\<lambda>c a. map_option snd (AddressSpace_delete fuel c refs_too a)) cs asp1 = Some asp2"
    "without refs_too (D \<union> R\<^sup>* `` set cs) asp asp2" by (elim exE conjE)
  obtain r asp' where del: "delete_single n refs_too asp2 = (r, asp')" by fastforce
  have fin: "AddressSpace_delete fuel n refs_too asp1 = Some (r, asp')" if fuel: "Suc k \<le> fuel" for fuel
  proof -
    obtain fuel' where "fuel = Suc fuel'" "k \<le> fuel'" using fuel by (cases fuel) simp_all
    moreover from this k(1) have
      "fold_option (\<lambda>c a. map_option snd (AddressSpace_delete fuel' c refs_too a)) cs asp1 = Some asp2" by blast
    ultimately show ?thesis by (simp only: AddressSpace_delete.simps found(1) option.case cs_def [symmetric] option.map del)
  qed
  have D': "insert n (D \<union> R\<^sup>* `` set cs) = D \<union> R\<^sup>* `` {n}"
  proof -
    have "R\<^sup>* `` set cs \<subseteq> R\<^sup>* `` (R `` {n})" by (rule Image_mono [OF order_refl cs(1)])
    moreover have "R\<^sup>* `` (R `` {n}) \<subseteq> R\<^sup>* `` set cs \<union> R\<^sup>* `` D"
      unfolding Image_Un [symmetric] by (rule Image_mono [OF order_refl cs(2)])
    moreover have "R\<^sup>* `` D \<subseteq> D" using Image_closed_trancl [OF less.prems(3)] by simp
    moreover have "insert n (D \<union> P) = D \<union> insert n Q" if "P \<subseteq> Q" "Q \<subseteq> P \<union> E" "E \<subseteq> D" for P Q E :: "NodeId set"
      using that by blast
    ultimately show ?thesis unfolding rtrancl_Image_step by metis
  qed
  have "n \<notin> R\<^sup>* `` set cs"
  proof
    assume "n \<in> R\<^sup>* `` set cs"
    then have "(n, n) \<in> R\<^sup>+" using cs(1) by (auto intro: rtrancl_into_trancl2)
    then show False using wf_acyclic [OF wf] by (simp add: acyclic_def trancl_converse)
  qed
  then have "n \<notin> D \<and> node_exists n asp \<longrightarrow> r" using delete_single_without(2) [OF k(2), of n] by (simp add: del)
  moreover have "without refs_too (D \<union> R\<^sup>* `` {n}) asp asp'"
    using delete_single_without(1) [OF k(2), of n] by (simp only: D' del snd_conv)
  moreover have "\<forall>fuel \<ge> Suc k. AddressSpace_delete fuel n refs_too asp1 = Some (r, asp')" using fin by simp
  ultimately show ?case by (intro exI conjI)
qed

section \<open>The recursive test for a subtype\<close>

lemma any_option_total: "\<forall>x \<in> set xs. p x = Some (q x) \<Longrightarrow> any_option p xs = Some (\<exists>x \<in> set xs. q x)"
  by (induction xs) (auto split: bool.split)

lemma finite_bound:
  fixes P :: "nat \<Rightarrow> 'a \<Rightarrow> bool"
  assumes "\<forall>x \<in> set xs. \<exists>k. \<forall>fuel \<ge> k. P fuel x"
  shows "\<exists>k. \<forall>fuel \<ge> k. \<forall>x \<in> set xs. P fuel x"
  using assms
proof (induction xs)
  case (Cons x xs)
  then obtain k k' where "\<forall>fuel \<ge> k. \<forall>x \<in> set xs. P fuel x" "\<forall>fuel \<ge> k'. P fuel x" by auto
  then show ?case by (intro exI [of _ "max k k'"]) simp
qed simp

lemma find_subtypes:
  "find_references n (Some (HasSubtype, False)) refs =
     Some (non_empty (filter (\<lambda>r. reference_type r = HasSubtype) (outgoing refs n)))"
proof -
  have "filter_option (\<lambda>r. reference_type_matches refs HasSubtype (reference_type r) False) rs =
      Some (filter (\<lambda>r. reference_type r = HasSubtype) rs)" for rs :: "Reference list"
    by (rule filter_option_total) (auto simp: reference_type_matches_def)
  then show ?thesis
    by (cases "references_map refs n")
      (simp_all add: find_references_def filter_references_by_type_def outgoing_def non_empty_def)
qed

text \<open>On references HasSubtype without a cycle the recursive test ends, with enough fuel, with the answer of the
  search with a stack.\<close>

lemma is_subtype_reach:
  assumes "wf ((subtype_graph (as_references asp))\<inverse>)"
  shows "\<exists>k. \<forall>fuel \<ge> k. is_subtype fuel b a asp = Some ((a, b) \<in> (subtype_graph (as_references asp))\<^sup>*)"
  using assms
proof (induction a rule: wf_induct_rule)
  case (less a)
  let ?G = "subtype_graph (as_references asp)"
  define rs where "rs = filter (\<lambda>r. reference_type r = HasSubtype) (outgoing (as_references asp) a)"
  have rs: "target_node ` set rs = ?G `` {a}" by (auto simp: rs_def subtype_graph_edges edges_iff)
  then have "\<forall>r \<in> set rs. \<exists>k. \<forall>fuel \<ge> k. is_subtype fuel b (target_node r) asp = Some ((target_node r, b) \<in> ?G\<^sup>*)"
    using less.IH by auto
  from finite_bound [OF this] obtain k where
    k: "\<forall>fuel \<ge> k. \<forall>r \<in> set rs. is_subtype fuel b (target_node r) asp = Some ((target_node r, b) \<in> ?G\<^sup>*)" by blast
  have reach: "(\<exists>r \<in> set rs. (target_node r, b) \<in> ?G\<^sup>*) \<longleftrightarrow> (a, b) \<in> ?G\<^sup>*" if "b \<noteq> a"
  proof -
    have "(\<exists>r \<in> set rs. (target_node r, b) \<in> ?G\<^sup>*) \<longleftrightarrow> (\<exists>c \<in> ?G `` {a}. (c, b) \<in> ?G\<^sup>*)" unfolding rs [symmetric] by simp
    then show ?thesis using that by (auto elim: converse_rtranclE intro: converse_rtrancl_into_rtrancl)
  qed
  have "is_subtype (Suc fuel) b a asp = Some ((a, b) \<in> ?G\<^sup>*)" if "k \<le> fuel" for fuel
  proof (cases "b = a")
    case False
    have "any_option (\<lambda>r. is_subtype fuel b (target_node r) asp) rs = Some (\<exists>r \<in> set rs. (target_node r, b) \<in> ?G\<^sup>*)"
      by (rule any_option_total) (use k that in blast)
    then show ?thesis
      using False reach by (cases "rs = []") (simp_all add: find_subtypes rs_def [symmetric] found_list_def non_empty_def)
  qed simp
  then have "is_subtype fuel b a asp = Some ((a, b) \<in> ?G\<^sup>*)" if "Suc k \<le> fuel" for fuel
    using that by (cases fuel) simp_all
  then show ?case by blast
qed

lemma is_subtype_matches:
  assumes "refs_ok (as_references asp)" "acyclic (subtype_graph (as_references asp))"
  shows "\<exists>k. \<forall>fuel \<ge> k. is_subtype fuel b a asp = reference_type_matches (as_references asp) a b True"
proof -
  have fin: "finite (dom (references_map (as_references asp)))" using assms(1) by (simp add: refs_ok_def)
  then have "finite (subtype_graph (as_references asp))"
    unfolding subtype_graph_edges subtype_step_edges [symmetric] by (rule finite_subtype_step)
  from is_subtype_reach [OF finite_acyclic_wf_converse [OF this assms(2)]]
  show ?thesis using reference_type_matches_reach [OF fin] assms(2) by (simp add: subtype_graph_edges)
qed

section \<open>Properties\<close>

definition sample_space :: AddressSpace where
  "sample_space =
     \<lparr> node_map = (\<lambda>n. if n \<in> {ns0 1, ns0 2, ns0 3, ns0 4} then Some \<lparr> nd_node_id = n, nd_node_class = NcObject \<rparr> else None),
       as_references =
         (case insert_references [(Aggregates, HasComponent, HasSubtype), (ns0 1, ns0 2, HasComponent),
                  (ns0 2, ns0 3, HasComponent), (ns0 4, ns0 1, ns0 35)] References_default of
            Inl e \<Rightarrow> References_default
          | Inr refs \<Rightarrow> refs),
       namespaces = [''http://opcfoundation.org/UA/''] \<rparr>"

lemma sample_space_references:
  "references_reachable (as_references sample_space)"
  "edges (as_references sample_space) = {(Aggregates, HasSubtype, HasComponent), (ns0 1, HasComponent, ns0 2),
     (ns0 2, HasComponent, ns0 3), (ns0 4, ns0 35, ns0 1)}"
proof -
  let ?es = "[(Aggregates, HasComponent, HasSubtype), (ns0 1, ns0 2, HasComponent),
     (ns0 2, ns0 3, HasComponent), (ns0 4, ns0 1, ns0 35)]"
  have "\<forall>(s, t, l) \<in> set ?es. s \<noteq> t" by (simp add: Aggregates_def HasComponent_def)
  from reference_store.add_all_edges [OF References_default_ok(1) this]
  obtain refs where refs: "insert_references ?es References_default = Inr refs"
    "edges refs = (\<lambda>(s, t, l). (s, l, t)) ` set ?es"
    unfolding insert_references_add_all References_default_ok(2) Un_empty_left by (elim exE conjE)
  have space: "as_references sample_space = refs"
    unfolding sample_space_def AddressSpace.select_convs refs(1) sum.case ..
  show "references_reachable (as_references sample_space)"
    unfolding space by (rule insert_references_reachable [OF refs(1) references_reachable.empty])
  show "edges (as_references sample_space) = {(Aggregates, HasSubtype, HasComponent), (ns0 1, HasComponent, ns0 2),
     (ns0 2, HasComponent, ns0 3), (ns0 4, ns0 35, ns0 1)}"
    unfolding space refs(2) by simp
qed

lemma sample_space_subtypes: "subtype_graph (as_references sample_space) = {(Aggregates, HasComponent)}"
  by (auto simp: subtype_graph_edges sample_space_references(2) HasSubtype_def HasComponent_def)

lemma single_rtrancl: "(a, c) \<in> {(a, b)}\<^sup>* \<longleftrightarrow> c = a \<or> c = b"
  by (auto elim: rtranclE)

lemma sample_space_aggregates: "aggregates (as_references sample_space) = {(ns0 1, ns0 2), (ns0 2, ns0 3)}"
  unfolding aggregates_def sample_space_subtypes single_rtrancl
  by (auto simp: has_reference_iff sample_space_references(2) HasSubtype_def HasComponent_def Aggregates_def)

text \<open>C17: Deleting a node ends, with enough fuel, if the references HasSubtype and the references of aggregation
  contain no cycle and no reference type is deleted on the way. It reports success for a node that exists, and
  removes exactly the node and all nodes it aggregates, directly or not; when asked to it removes exactly the
  references that start or end at one of them, and else keeps all references.\<close>

theorem delete_removes_aggregated_nodes:
  fixes asp :: AddressSpace and n :: NodeId
  defines "S \<equiv> (aggregates (as_references asp))\<^sup>* `` {n}"
  assumes "references_reachable (as_references asp)" "acyclic (subtype_graph (as_references asp))"
    and "acyclic (aggregates (as_references asp))" "(subtype_graph (as_references asp))\<^sup>* `` {Aggregates} \<inter> S = {}"
  shows "\<exists>k deleted asp'. (\<forall>fuel \<ge> k. AddressSpace_delete fuel n refs_too asp = Some (deleted, asp')) \<and>
    (node_exists n asp \<longrightarrow> deleted) \<and> node_map asp' = node_map asp |` (- S) \<and>
    (\<forall>s t l. has_reference s t l (as_references asp') \<longleftrightarrow>
      has_reference s t l (as_references asp) \<and> \<not> (refs_too \<and> (s \<in> S \<or> t \<in> S)))"
proof -
  have ok: "refs_ok (as_references asp)" by (rule references_reachable_ok [OF assms(2)])
  have wf: "wf ((aggregates (as_references asp))\<inverse>)"
    by (rule finite_acyclic_wf_converse [OF finite_aggregates [OF ok] assms(4)])
  have "without refs_too {} asp asp" using ok by (auto simp: without_def)
  from delete_without [OF wf assms(3) assms(5) _ _ _ this, of n]
  obtain k r asp' where "\<forall>fuel \<ge> k. AddressSpace_delete fuel n refs_too asp = Some (r, asp')"
    "without refs_too S asp asp'" "node_exists n asp \<longrightarrow> r" by (auto simp: S_def)
  then show ?thesis by (intro exI [of _ k] exI [of _ r] exI [of _ asp']) (auto simp: without_def has_reference_iff)
qed

lemma sample_space_below: "(aggregates (as_references sample_space))\<^sup>* `` {ns0 1} = {ns0 1, ns0 2, ns0 3}"
proof -
  have "(ns0 1, ns0 3) \<in> {(ns0 1, ns0 2), (ns0 2, ns0 3)}\<^sup>*" by (rule rtrancl_trans [of _ "ns0 2"]) auto
  then show ?thesis unfolding sample_space_aggregates by (auto elim: rtranclE)
qed

lemma sample_space_acyclic:
  "acyclic (subtype_graph (as_references sample_space))" "acyclic (aggregates (as_references sample_space))"
  unfolding sample_space_subtypes sample_space_aggregates
  by (simp_all add: acyclic_insert rtrancl_insert acyclicI Aggregates_def HasComponent_def)

lemma sample_space_types: "(subtype_graph (as_references sample_space))\<^sup>* `` {Aggregates} = {ns0 44, ns0 47}"
  by (auto simp: sample_space_subtypes single_rtrancl Aggregates_def HasComponent_def)

theorem delete_removes_aggregated_nodes_witness:
  "\<exists>k deleted asp'. (\<forall>fuel \<ge> k. AddressSpace_delete fuel (ns0 1) True sample_space = Some (deleted, asp')) \<and> deleted \<and>
    \<not> node_exists (ns0 3) asp' \<and> node_exists (ns0 4) asp' \<and> \<not> has_reference (ns0 4) (ns0 1) (ns0 35) (as_references asp')"
proof -
  have "(subtype_graph (as_references sample_space))\<^sup>* `` {Aggregates} \<inter>
      (aggregates (as_references sample_space))\<^sup>* `` {ns0 1} = {}"
    by (simp add: sample_space_types sample_space_below)
  from delete_removes_aggregated_nodes [OF sample_space_references(1) sample_space_acyclic this, of True]
  obtain k deleted asp' where del: "\<forall>fuel \<ge> k. AddressSpace_delete fuel (ns0 1) True sample_space = Some (deleted, asp')"
    "node_exists (ns0 1) sample_space \<longrightarrow> deleted" "node_map asp' = node_map sample_space |` (- {ns0 1, ns0 2, ns0 3})"
    "\<forall>s t l. has_reference s t l (as_references asp') \<longleftrightarrow> has_reference s t l (as_references sample_space) \<and>
      \<not> (True \<and> (s \<in> {ns0 1, ns0 2, ns0 3} \<or> t \<in> {ns0 1, ns0 2, ns0 3}))"
    unfolding sample_space_below by (elim exE conjE)
  have "deleted" using del(2) by (simp add: node_exists_def sample_space_def)
  moreover have "\<not> node_exists (ns0 3) asp'" "node_exists (ns0 4) asp'"
    by (simp_all add: node_exists_def del(3) sample_space_def)
  moreover have "\<not> has_reference (ns0 4) (ns0 1) (ns0 35) (as_references asp')" by (simp add: del(4))
  ultimately show ?thesis using del(1) by (intro exI conjI)
qed

text \<open>C39: A client that may modify the address space and asks for a reference of a standard type from an existing
  node to itself makes the service panic: every check of the handler passes, and the insertion refuses the
  reference by panicking.\<close>

theorem add_reference_self_panics:
  assumes "references_reachable (as_references asp)" "node_map asp n = Some node" "nd_node_class node \<noteq> NcUnspecified"
    and "ni_namespace rtype = 0" "ni_identifier rtype = IdNumeric i" "i \<in> set reference_type_ids"
  shows "add_references clock header (Suc limit) True
      (Some [\<lparr> ari_source_node_id = n, ari_reference_type_id = rtype, ari_is_forward = forward, ari_target_server_uri = UAString_null,
        ari_target_node_id = \<lparr> en_node_id = n, en_namespace_uri = UAString_null, en_server_index = 0 \<rparr>,
        ari_target_node_class = nd_node_class node \<rparr>]) asp = Inl Panic"
proof -
  have "i \<noteq> 0" using assms(6) by (auto simp: reference_type_ids_def)
  then have "as_reference_type_id rtype = Some (ns0 i)"
    using assms(4-6) by (simp add: as_reference_type_id_def NodeId_is_null_def)
  moreover have "\<not> has_reference n n (ns0 i) (as_references asp)"
    using references_reachable_ok [OF assms(1)] by (auto simp: has_reference_iff edges_iff refs_ok_def)
  ultimately show ?thesis
    using assms(2,3)
    by (simp add: add_references_def node_management_request_def is_empty_option_vec_def vec_of_def add_reference_def
        Let_def node_exists_def UAString_is_null_def UAString_null_def AddressSpace_insert_reference_def insert_reference_def mapR_def)
qed

theorem add_reference_self_panics_witness:
  "\<forall>clock header. add_references clock header 1 True
      (Some [\<lparr> ari_source_node_id = ns0 1, ari_reference_type_id = HasComponent, ari_is_forward = True,
        ari_target_server_uri = UAString_null, ari_target_node_id = \<lparr> en_node_id = ns0 1, en_namespace_uri = UAString_null, en_server_index = 0 \<rparr>,
        ari_target_node_class = NcObject \<rparr>]) sample_space = Inl Panic"
proof -
  have "node_map sample_space (ns0 1) = Some \<lparr> nd_node_id = ns0 1, nd_node_class = NcObject \<rparr>"
    by (simp add: sample_space_def)
  from add_reference_self_panics [OF sample_space_references(1) this, of HasComponent 47 _ _ 0 True] show ?thesis
    by (simp add: HasComponent_def ns0_def reference_type_ids_def)
qed

end
