(* ===== verification/Spec2Isabelle.thy ===== *)
theory Spec2Isabelle
  imports Opc_Variant_Codec Opc_Tcp_Codec Opc_Channel_Security Opc_Message_Writer Opc_Client_Channel Opc_Session_Services
    Opc_Address_Space
begin

text \<open>
  A verification development for the OPC UA library in \<open>src/lib/src\<close>, client and server.

  \<^bold>\<open>The program.\<close> OPC UA messages are structures of built-in types with a binary encoding (\<open>types\<close>). A message is
  encoded behind the id of its type, cut into chunks, each with a message, a security and a sequence header, and
  every chunk is padded, signed and encrypted under the keys of a secure channel (\<open>core/comms\<close>, \<open>crypto\<close>). Chunks
  and the messages that open a connection are framed on a TCP stream. The receiver undoes these steps in reverse
  order: the codec finds the frames, the channel verifies and decrypts them, the sequence numbers are checked, the
  bodies are put together and decoded. Client and server open and renew the channel by a handshake over the same
  chunks. On top of it the server answers services: among them subscriptions, which sample monitored items and
  publish their changes in answer to publish requests that the client keeps queued, and the management of the nodes
  and references of the address space.

  \<^bold>\<open>Conventions.\<close> A machine integer is a word of its width. A fallible operation gives a value of \<open>'a res\<close>, with
  \<open>Err\<close> for a status code the source returns, \<open>Panic\<close> where it panics (an index out of range, an overflow of checked
  arithmetic, an \<open>unwrap\<close> of nothing) and \<open>OutOfFuel\<close> where a recursion with fuel has none left. A struct is a record,
  an enum a datatype, a \<open>Vec\<close> or \<open>VecDeque\<close> a list, a \<open>BTreeMap\<close> a sorted association list, a \<open>HashMap\<close> a map.
  An operation with \<open>&mut self\<close> takes the state and returns it. A reader is a function from the bytes left to a
  value and the bytes left after it, a writer one from the bytes written so far.

  \<^bold>\<open>The theories.\<close>

  The binary encoding.
  \<^item> \<open>Opc_Prelude\<close>: results, checked arithmetic, little-endian bytes, slices.
  \<^item> \<open>Opc_Status\<close>: status codes (\<open>types/status_codes.rs\<close>, \<open>status_code.rs\<close>).
  \<^item> \<open>Opc_Encoding\<close>: readers, writers, limits and depth gauge (\<open>types/encoding.rs\<close>), built-in types
    (\<open>basic_types.rs\<close>). The locales \<open>encoder\<close>, \<open>decoder\<close> and \<open>codec\<close> state what the encoding of a type promises: the
    announced length is exact, decoding never panics and consumes a prefix that determines the result, decoding the
    encoding gives the value back. They are interpreted for every encodable type of the model.
  \<^item> \<open>Opc_Scalars\<close>: strings, byte strings, guids, dates, names, node ids (\<open>types/string.rs\<close> to \<open>node_id.rs\<close>).
  \<^item> \<open>Opc_Variant\<close>, \<open>Opc_Variant_Codec\<close>: extension objects, diagnostic infos, arrays, data values and variants, and
    that their mutually recursive encoding is a codec. Decoding has as much fuel as there are bytes, which is enough
    because every nested value consumes at least one; \<open>Variant_decode_total\<close> shows that it never runs out.
  \<^item> \<open>Opc_Messages\<close>: the headers of requests and responses, the messages of the secure channel, publish requests,
    and the table of message types (\<open>core/supported_message.rs\<close>). The services of an application are a parameter,
    with the laws of the locale \<open>service_messages\<close>, which publish requests satisfy.

  Transport and security.
  \<^item> \<open>Opc_Tcp\<close>, \<open>Opc_Tcp_Codec\<close>: the messages of the transport and the framing codec (\<open>core/comms/tcp_types.rs\<close>,
    \<open>tcp_codec.rs\<close>); the result does not depend on how the stream is cut.
  \<^item> \<open>Opc_Chunk\<close>, \<open>Opc_Chunker\<close>: chunks and their headers, encoding into chunks, validation of sequence numbers,
    decoding (\<open>message_chunk.rs\<close>, \<open>security_header.rs\<close>, \<open>chunker.rs\<close>); the round trip, and what validation accepts.
  \<^item> \<open>Opc_Security_Policy\<close>, \<open>Opc_Rsa\<close>: policies, key derivation, symmetric cryptography, RSA by blocks (\<open>crypto\<close>).
    The primitives of OpenSSL are the parameter \<open>openssl\<close>; the laws used of them (lengths, decryption inverts
    encryption, verification accepts what was signed) are named hypotheses, satisfied by the sample \<open>xor_ssl\<close>.
  \<^item> \<open>Opc_Secure_Channel\<close>, \<open>Opc_Channel_Security\<close>: the secure channel (\<open>core/comms/secure_channel.rs\<close>): padding,
    signing, encrypting, verifying; round trips, authenticity in mode Sign, inputs that panic.
  \<^item> \<open>Opc_Message_Writer\<close>: the buffered writer (\<open>core/comms/message_writer.rs\<close>).
  \<^item> \<open>Opc_Server_Transport\<close>: the receiving side of a server connection as a state machine over the frames it gets
    (\<open>server/comms/tcp_transport.rs\<close>, \<open>secure_channel_service.rs\<close>); invariants by induction over runs, rejection of
    replayed chunks.
  \<^item> \<open>Opc_Client_Channel\<close>: the client's side of the handshake and of collecting chunks (\<open>client/session/session_state.rs\<close>,
    \<open>client/comms/tcp_transport.rs\<close>); both ends get matching keys, chunks are put in order.

  Subscriptions.
  \<^item> \<open>Opc_F64\<close>: the floating point operations that intervals and deadbands use, on bit patterns.
  \<^item> \<open>Opc_Monitored_Item\<close>, \<open>Opc_Subscription\<close>: monitored items with their filters and queues, the publishing state
    machine (\<open>server/subscriptions/monitored_item.rs\<close>, \<open>subscription.rs\<close>).
  \<^item> \<open>Opc_Publishing\<close>, \<open>Opc_Publishing_Cases\<close>: the item's queue refines the locale \<open>bounded_buffer\<close>; the invariant of
    a subscription; when it expires, and when it withholds, loses or panics.
  \<^item> \<open>Opc_Subscriptions\<close>, \<open>Opc_Item_Service\<close>: the subscriptions of a session and the services on them
    (\<open>subscriptions.rs\<close>, \<open>server/services/subscription.rs\<close>, \<open>monitored_item.rs\<close>).
  \<^item> \<open>Opc_Session_Publishing\<close>, \<open>Opc_Session_Services\<close>: the locale \<open>finite_map\<close> for sorted association lists, and runs
    of a session: every publish request is answered once and in order, ticks return, acknowledged notifications go.

  The address space.
  \<^item> \<open>Opc_References\<close>, \<open>Opc_Reference_Graph\<close>: the references between nodes (\<open>server/address_space/references.rs\<close>).
    The two maps implement the locale \<open>edge_store\<close>; the search over subtypes is a partial function, decides
    reachability on graphs without cycles and does not end on some with a cycle.
  \<^item> \<open>Opc_Address_Space\<close>: nodes, deletion with aggregated nodes, the recursive test for a subtype
    (\<open>address_space.rs\<close>), and the services that add and delete references and delete nodes
    (\<open>server/services/node_management.rs\<close>). Fuel bounds the depth of the recursions; some fuel is enough on
    references without a cycle, as \<open>delete_removes_aggregated_nodes\<close> and \<open>is_subtype_matches\<close> show.

  This theory composes them: a message written on a secured channel arrives at the other end.

  \<^bold>\<open>Not modelled.\<close> JSON and textual forms of the types, and the generated structures of services other than those
  above: they repeat the pattern of the modelled ones. The generated node sets (some 95,000 lines of data), node
  attributes, values of variables, browsing with continuation points, methods, history, events and their filters.
  Adding nodes through the service, which needs the attribute structures. Sessions beyond their subscriptions, identity
  tokens, the certificate store, configuration, discovery, diagnostics and the console. Asynchronous tasks, timers,
  sockets and locks: the model gives the steps they call, and the properties of runs hold for every order of
  these steps. Logging has no effect and is left out. Of times only differences and comparisons matter; the clock
  is an argument.
\<close>

section \<open>A message sent over a secured channel\<close>

text \<open>The header of a message in a single chunk.\<close>

definition single_header :: "SecureChannel \<Rightarrow> MessageChunkType \<Rightarrow> nat \<Rightarrow> MessageChunkHeader" where
  "single_header sc ty n = \<lparr> ch_message_type = ty, ch_is_final = Final, ch_message_size = of_nat n,
     ch_secure_channel_id = sc_secure_channel_id sc \<rparr>"

lemma single_header_size [simp]:
  "single_header sc ty n \<lparr> ch_message_size := of_nat k \<rparr> = single_header sc ty k"
  "ch_message_type (single_header sc ty n) = ty" "ch_message_size (single_header sc ty n) = of_nat n"
  by (simp_all add: single_header_def)

lemma chunk_seq_single:
  "chunk_seq sc (Symmetric \<lparr> sh_token_id = token \<rparr>) request ty number (length [d]) 0 [d] =
     [\<lparr> mc_data = symmetric_chunk (single_header sc ty (24 + length d)) token
          \<lparr> sequence_number = number, request_id = request \<rparr> d \<rparr>]"
  by (simp add: chunk_for_def chunk_layout_def symmetric_chunk_def single_header_def SecurityHeader_bytes_def add.commute)

lemma encoded_as_one_chunk:
  assumes msgs: "service_messages svc bytes fits" and fit: "SupportedMessage_fits fits opts m"
    and ty: "Chunker_message_type m \<noteq> CtOpenSecureChannel" and policy: "sc_security_policy sc \<noteq> SpUnknown"
    and n: "n = length (SupportedMessage_bytes bytes m)" "max_message = 0 \<or> n \<le> max_message"
    and number: "unat number + n + 7 < 2 ^ 32"
  obtains d node_id where
    "Chunker_encode ssl svc number request max_message 0 sc m =
       Inr [\<lparr> mc_data = symmetric_chunk (single_header sc (Chunker_message_type m) (24 + length d)) (sc_token_id sc)
              \<lparr> sequence_number = number, request_id = request \<rparr> d \<rparr>]"
    "SupportedMessage_node_id svc m = Inr node_id" "d = NodeId_bytes node_id @ SupportedMessage_bytes bytes m"
    "length d \<le> n + 7"
proof -
  have sh: "make_security_header ssl sc (Chunker_message_type m) = Inr (Symmetric \<lparr> sh_token_id = sc_token_id sc \<rparr>)"
    using ty by (simp add: make_security_header_def)
  obtain ds node_id where ds: "Chunker_encode ssl svc number request max_message 0 sc m =
      Inr (chunk_seq sc (Symmetric \<lparr> sh_token_id = sc_token_id sc \<rparr>) request (Chunker_message_type m) number (length ds) 0 ds)"
    "SupportedMessage_node_id svc m = Inr node_id" "concat ds = NodeId_bytes node_id @ SupportedMessage_bytes bytes m"
    "length ds = 1"
    using Chunker_encode_seq [OF msgs fit sh policy n _ number, where request = request and max_chunk = 0] by metis
  then obtain d where d: "ds = [d]" "d = NodeId_bytes node_id @ SupportedMessage_bytes bytes m"
    by (cases ds) auto
  have len: "length d \<le> n + 7"
    using message_data [OF msgs fit] ds(2) n(1) by (metis d(2) add.commute add_le_cancel_left length_append sum.inject(2))
  show ?thesis by (rule that [OF _ ds(2) d(2) len]) (use ds(1) in \<open>simp only: d(1) chunk_seq_single\<close>)
qed

text \<open>The receiver decodes the message whatever follows it in the body, such as the padding left there.\<close>

lemma padded_chunk_accepted:
  fixes token request :: u32
  assumes msgs: "service_messages svc bytes fits" and fit: "SupportedMessage_fits fits (sc_decoding_options rc) m"
    and ty: "Chunker_message_type m \<noteq> CtOpenSecureChannel"
    and channel: "sc_secure_channel_id rc \<in> {0, sc_secure_channel_id sc}"
    and node_id: "SupportedMessage_node_id svc m = Inr node_id"
    and d: "d = NodeId_bytes node_id @ SupportedMessage_bytes bytes m @ pad"
    and number: "start \<le> number" "unat number + 1 < 2 ^ 32"
  defines "plain \<equiv> \<lparr> mc_data = symmetric_chunk (single_header sc (Chunker_message_type m) (24 + length d)) token
      \<lparr> sequence_number = number, request_id = request \<rparr> d \<rparr>"
  shows "validate_chunks start rc [plain] = Inr number \<and> Chunker_decode svc [plain] rc None = Inr m"
proof -
  let ?sh = "Symmetric \<lparr> sh_token_id = token \<rparr>" and ?ty = "Chunker_message_type m"
  have match: "header_matches (sc_decoding_options rc) ?ty ?sh" using ty by (simp add: header_matches_def)
  have "concat [d] = NodeId_bytes node_id @ SupportedMessage_bytes bytes m @ pad" by (simp add: d)
  from decode_chunk_seq [OF msgs fit match node_id this, of sc request number]
  have "Chunker_decode svc [plain] rc None = Inr m" unfolding chunk_seq_single plain_def .
  moreover have "validate_chunks start rc (chunk_seq sc ?sh request ?ty number (length [d]) 0 [d]) =
      Inr (number + of_nat (length [d] - 1))"
    by (rule validate_chunks_seq [OF match]) (use channel number in auto)
  ultimately show ?thesis unfolding chunk_seq_single plain_def by simp
qed

lemma feed_one_chunk:
  assumes "concat segs = MessageChunkHeader_bytes h @ tail" "unat (ch_message_size h) = 12 + length tail"
    and "max_message_size opts = 0 \<or> 12 + length tail \<le> max_message_size opts"
  shows "feed opts [] segs = ([MChunk \<lparr> mc_data = MessageChunkHeader_bytes h @ tail \<rparr>], [], None)"
proof -
  let ?c = "\<lparr> mc_data = MessageChunkHeader_bytes h @ tail \<rparr>"
  have "MessageChunk_fits opts ?c" using assms(2,3) by (auto simp: MessageChunk_fits_def)
  then have "TcpCodec_decode opts (concat segs) = (Inr (Some (MChunk ?c)), [])"
    using TcpCodec_decode_bytes [of opts "MChunk ?c" "[]"] assms(1) by (simp add: Message_fits_def Message_bytes_def)
  moreover have nil: "drain opts [] = ([], [], None)" by (simp add: drain.simps TcpCodec_decode_def)
  ultimately have "drain opts (concat segs) = ([MChunk ?c], [], None)" by (simp add: drain_message)
  with feed_drain [OF nil, of segs] show ?thesis by (simp add: prod_eq_iff)
qed

lemma MessageWriter_write_single:
  assumes "Chunker_encode ssl svc (mw_last_sent_sequence_number w + 1) request (mw_max_message_size w) 0 sc m = Inr [c]"
    and "unat (mw_last_sent_sequence_number w) + 1 < 2 ^ 32"
    and "apply_security ssl sc c (replicate (length (mw_buffer w) + 1024) 0) = Inr (length bs, bs @ rest)"
    and "writer_inv w" "pending_bytes w = []"
  shows "\<exists>w'. MessageWriter_write ssl svc request m sc w = (Inr request, w') \<and> fst (bytes_to_write w') = bs \<and>
    mw_last_sent_sequence_number w' = mw_last_sent_sequence_number w + 1"
proof -
  let ?w = "w \<lparr> mw_last_sent_sequence_number := mw_last_sent_sequence_number w + 1 \<rparr>"
  have add: "add_u32 (mw_last_sent_sequence_number w) 1 = Inr (mw_last_sent_sequence_number w + 1)"
    using assms(2) by (simp add: add_u32_def)
  have w: "writer_inv ?w" "pending_bytes ?w = []" using assms(4,5) by (simp_all add: writer_inv_def pending_bytes_def)
  have "fst (bytes_to_write (buffer_write bs ?w)) = bs"
    using buffer_write_appends(2) [OF w(1), of bs] w(2) by (simp add: bytes_to_write_def pending_bytes_def)
  then show ?thesis
    by (auto simp add: MessageWriter_write_def assms(1,3) add slice_prefix Let_def)
qed


text \<open>C1: A message that one end writes on a secured channel (mode Sign or SignAndEncrypt, any policy) arrives at
  the other end. The writer takes the message and puts one chunk into its buffer; however the bytes are cut into
  segments on the way, the codec of the receiver finds exactly one chunk in them, which verifies under the
  channel's keys, passes the test of the sequence number with the number the writer has used, and decodes to the
  message. The message has to fit the limits of both ends and the writer's buffer.\<close>

theorem secured_message_delivered:
  assumes msgs: "service_messages svc bytes fits" and fit: "SupportedMessage_fits fits (sc_decoding_options rc) m"
    and ty: "Chunker_message_type m \<noteq> CtOpenSecureChannel"
    and ssl: "symmetric_laws ssl" and pair: "channel_pair sc rc signing_key key iv"
    and channel: "sc_secure_channel_id rc \<in> {0, sc_secure_channel_id sc}"
    and writer: "writer_inv w" "pending_bytes w = []"
    and n: "n = length (SupportedMessage_bytes bytes m)" "mw_max_message_size w = 0 \<or> n \<le> mw_max_message_size w"
      "n \<le> length (mw_buffer w) + 600"
      "max_message_size (sc_decoding_options rc) = 0 \<or> n + 400 \<le> max_message_size (sc_decoding_options rc)"
    and number: "start \<le> mw_last_sent_sequence_number w + 1" "unat (mw_last_sent_sequence_number w) + n + 400 < 2 ^ 32"
  shows "\<exists>w' chunk plain. MessageWriter_write ssl svc request m sc w = (Inr request, w') \<and>
    (\<forall>segs. concat segs = fst (bytes_to_write w') \<longrightarrow>
      feed (sc_decoding_options rc) [] segs = ([MChunk chunk], [], None)) \<and>
    verify_and_remove_security ssl (mc_data chunk) rc = (Inr plain, rc) \<and>
    validate_chunks start rc [plain] = Inr (mw_last_sent_sequence_number w') \<and>
    Chunker_decode svc [plain] rc None = Inr m"
proof -
  let ?last = "mw_last_sent_sequence_number w" and ?dst = "replicate (length (mw_buffer w) + 1024) 0 :: u8 list"
  let ?h = "single_header sc (Chunker_message_type m)" and ?seq = "\<lparr> sequence_number = ?last + 1, request_id = request \<rparr>"
  have policy: "sc_security_policy sc \<noteq> SpUnknown" using pair by (auto simp: channel_pair_def secured_def)
  have next': "unat (?last + 1) = unat ?last + 1" using number(2) by (simp add: unat_word_ariths)
  have "unat (?last + 1) + n + 7 < 2 ^ 32" using number(2) by (simp add: next')
  from encoded_as_one_chunk [OF msgs fit ty policy n(1,2) this] obtain d node_id where
    d: "Chunker_encode ssl svc (?last + 1) request (mw_max_message_size w) 0 sc m =
        Inr [\<lparr> mc_data = symmetric_chunk (?h (24 + length d)) (sc_token_id sc) ?seq d \<rparr>]"
      "SupportedMessage_node_id svc m = Inr node_id" "d = NodeId_bytes node_id @ SupportedMessage_bytes bytes m"
      "length d \<le> n + 7" .
  define s where "s = digest_size (policy_digest (sc_security_policy sc))"
  define p where "p = sym_padding (length d) s"
  define size where "size = 24 + length d + p + s"
  define pad where "pad = (replicate p (of_nat (p - 1)) :: u8 list)"
  have "s \<le> 256" "p \<le> 16" by (simp_all add: s_def p_def sym_padding_bounds)
  with d(4) have "size \<le> n + 303" by (simp add: size_def)
  then have size: "size < 2 ^ 32" "size + 16 \<le> length ?dst" using number(2) n(3) by simp_all
  obtain tail where tail: "apply_security ssl sc \<lparr> mc_data = symmetric_chunk (?h (24 + length d)) (sc_token_id sc) ?seq d \<rparr> ?dst =
      Inr (size, (MessageChunkHeader_bytes (?h size) @ tail) @ drop size ?dst)" "12 + length tail = size"
    "verify_and_remove_security ssl (MessageChunkHeader_bytes (?h size) @ tail) rc =
      (Inr \<lparr> mc_data = symmetric_chunk (?h (24 + length d + p)) (sc_token_id sc) ?seq (d @ pad) \<rparr>, rc)"
    using secured_chunk_received [OF ssl pair _ s_def p_def size_def size, of "?h (24 + length d)" "sc_token_id sc" ?seq] ty
    unfolding single_header_size pad_def by blast
  define bs where "bs = MessageChunkHeader_bytes (?h size) @ tail"
  have bs: "length bs = size" using tail(2) by (simp add: bs_def)
  obtain w' where w': "MessageWriter_write ssl svc request m sc w = (Inr request, w')" "fst (bytes_to_write w') = bs"
    "mw_last_sent_sequence_number w' = ?last + 1"
    using MessageWriter_write_single [OF d(1) _ tail(1) [folded bs_def, folded bs] writer] number(2) by auto
  have "unat (?last + 1) + 1 < 2 ^ 32" using number(2) by (simp add: next')
  note accepted = padded_chunk_accepted [OF msgs fit ty channel d(2) _ number(1) this,
      where token = "sc_token_id sc" and request = request and d = "d @ pad" and pad = pad]
  have "length (d @ pad) = length d + p" "d @ pad = NodeId_bytes node_id @ SupportedMessage_bytes bytes m @ pad"
    by (simp_all add: pad_def d(3))
  then have "validate_chunks start rc [\<lparr> mc_data = symmetric_chunk (?h (24 + length d + p)) (sc_token_id sc) ?seq (d @ pad) \<rparr>] =
      Inr (mw_last_sent_sequence_number w') \<and>
      Chunker_decode svc [\<lparr> mc_data = symmetric_chunk (?h (24 + length d + p)) (sc_token_id sc) ?seq (d @ pad) \<rparr>] rc None = Inr m"
    using accepted by (simp only: w'(3) add.assoc)
  moreover have "feed (sc_decoding_options rc) [] segs = ([MChunk \<lparr> mc_data = bs \<rparr>], [], None)" if "concat segs = bs" for segs
    unfolding bs_def
    by (rule feed_one_chunk) (use that size(1) tail(2) n(4) \<open>size \<le> n + 303\<close> in \<open>auto simp: bs_def unat_of_nat\<close>)
  ultimately show ?thesis
    using w'(1) tail(3) [folded bs_def] unfolding w'(2)
    by (intro exI [of _ w'] exI [of _ "\<lparr> mc_data = bs \<rparr>"] exI) (simp only: MessageChunk.select_convs w'(2), blast)
qed

text \<open>A channel with the limits of \<^const>\<open>plain_channel\<close> in mode SignAndEncrypt.\<close>

definition secure_sample :: SecureChannel where
  "secure_sample = (sample_channel ModeSignAndEncrypt) \<lparr> sc_decoding_options := sc_decoding_options plain_channel \<rparr>"

lemma secure_sample_pair:
  "channel_pair secure_sample secure_sample (replicate 32 1) \<lparr> aes_value = replicate 32 2, aes_policy = Basic256Sha256 \<rparr> (replicate 16 3)"
  by (simp add: channel_pair_def secure_sample_def sample_channel_def sample_keys_def SecureChannel_new_def secured_def
      channel_secures_def policy_cipher_def cipher_key_len_def)

theorem secured_message_delivered_witness:
  "\<exists>w' chunk plain. MessageWriter_write xor_ssl publish_services 5 (sample_publish 2) secure_sample (MessageWriter_new 1000 0 0) = (Inr 5, w') \<and>
    feed (sc_decoding_options secure_sample) [] (map (\<lambda>b. [b]) (fst (bytes_to_write w'))) = ([MChunk chunk], [], None) \<and>
    verify_and_remove_security xor_ssl (mc_data chunk) secure_sample = (Inr plain, secure_sample) \<and>
    Chunker_decode publish_services [plain] secure_sample None = Inr (sample_publish 2)"
proof -
  have opts: "sc_decoding_options secure_sample = sc_decoding_options plain_channel" by (simp add: secure_sample_def)
  have fit: "SupportedMessage_fits PublishRequest_fits (sc_decoding_options secure_sample) (sample_publish 2)"
    unfolding opts by (rule sample_publish_fits) simp
  have ty: "Chunker_message_type (sample_publish 2) \<noteq> CtOpenSecureChannel"
    by (simp add: sample_publish_def Chunker_message_type_def)
  have "\<exists>w' chunk plain. MessageWriter_write xor_ssl publish_services 5 (sample_publish 2) secure_sample (MessageWriter_new 1000 0 0) = (Inr 5, w') \<and>
    (\<forall>segs. concat segs = fst (bytes_to_write w') \<longrightarrow>
      feed (sc_decoding_options secure_sample) [] segs = ([MChunk chunk], [], None)) \<and>
    verify_and_remove_security xor_ssl (mc_data chunk) secure_sample = (Inr plain, secure_sample) \<and>
    validate_chunks 1 secure_sample [plain] = Inr (mw_last_sent_sequence_number w') \<and>
    Chunker_decode publish_services [plain] secure_sample None = Inr (sample_publish 2)"
    by (rule secured_message_delivered [OF publish_messages.service_messages_axioms fit ty xor_ssl_laws secure_sample_pair,
          where n = 49])
      (simp_all add: length_sample_publish MessageWriter_new_def DEFAULT_SENT_SEQUENCE_NUMBER_def opts plain_channel_def
        SecureChannel_new_def DecodingOptions_default_def MAX_MESSAGE_SIZE_def MAX_CHUNK_COUNT_def
        writer_inv_def pending_bytes_def)
  moreover have "concat (map (\<lambda>b. [b]) bs) = bs" for bs :: "u8 list" by (induction bs) simp_all
  ultimately show ?thesis by blast
qed

end
